theory Spec2Isabelle
  imports Main
begin

section \<open>Assets controller: data model\<close>

text \<open>
  The records follow the TypeScript interfaces of the assets controller. Several
  interfaces share field names (\<open>address\<close>, \<open>name\<close>, \<open>image\<close>, \<open>symbol\<close>), and
  \<open>image\<close> and \<open>id\<close> are constants of HOL, so every field carries a short prefix
  naming its interface. An optional field (\<open>image?: string\<close>) is an \<open>option\<close>.
  JavaScript numbers are modelled by \<open>int\<close>: the model covers integral values only.
  Strings are compared with \<open>===\<close> in the source, which is equality here.
\<close>

record Token =
  t_address :: string
  t_symbol :: string
  t_decimals :: int
  t_image :: "string option"

record Collectible =
  c_address :: string
  c_description :: "string option"
  c_image :: "string option"
  c_name :: "string option"
  c_tokenId :: int

record CollectibleContract =
  cc_name :: "string option"
  cc_logo :: "string option"
  cc_address :: string
  cc_symbol :: "string option"
  cc_description :: "string option"
  cc_totalSupply :: "string option"

record ApiCollectibleContractResponse =
  r_description :: "string option"
  r_image_url :: "string option"
  r_name :: "string option"
  r_symbol :: "string option"
  r_total_supply :: "string option"

record CollectibleInformation =
  i_description :: "string option"
  i_image :: "string option"
  i_name :: "string option"

record AssetsConfig =
  networkType :: string
  selectedAddress :: string
  chainId :: string

text \<open>
  Error values. The messages of the source are template literals; each one is a
  constructor here, carrying the values the template interpolates.
  \<open>Must_specify\<close>: "Must specify address, symbol, and decimals.";
  \<open>Symbol_too_long s\<close>: "Invalid symbol "s": longer than 11 characters.";
  \<open>Invalid_decimals d\<close>: "Invalid decimals "d": must be 0 <= 36.";
  \<open>Invalid_address a\<close>: "Invalid address "a".";
  \<open>Type_not_supported t\<close>: "Asset of type t not supported";
  \<open>User_rejected\<close>: "User rejected to watch the asset.";
  \<open>Unknown_status\<close>: "Unknown status: ...";
  \<open>Property_of_undefined p\<close>: the engine's message for reading property \<open>p\<close> of
  \<open>undefined\<close>.
  \<open>Fetch_status request\<close>: "Fetch failed with status ... for request request";
  \<open>Invalid_response currency\<close>: "Invalid response for currency: ...".
  \<open>InvalidParams\<close> is the error built by \<open>ethErrors.rpc.invalidParams\<close>, \<open>Error\<close> is
  \<open>new Error\<close>, \<open>TypeError\<close> is the error the engine throws on a property access on
  \<open>undefined\<close>.
\<close>

datatype message =
    Must_specify
  | Symbol_too_long string
  | Invalid_decimals int
  | Invalid_address string
  | Type_not_supported string
  | User_rejected
  | Unknown_status
  | Property_of_undefined string
  | Fetch_status string
  | Invalid_response string

datatype Error = Error message | InvalidParams message | TypeError message

fun message_of :: "Error \<Rightarrow> message" where
  "message_of (Error m) = m"
| "message_of (InvalidParams m) = m"
| "message_of (TypeError m) = m"

text \<open>
  \<open>SuggestedAssetMeta\<close> is a union in the source: the variant whose status is
  \<open>failed\<close> carries an \<open>error\<close>, the other variants do not. The status constructor
  \<open>failed\<close> therefore carries the error.
\<close>

datatype SuggestedAssetStatus = accepted | failed Error | pending | rejected

record SuggestedAssetMeta =
  s_asset :: Token
  s_id :: string
  s_status :: SuggestedAssetStatus
  s_time :: nat
  s_type :: string

text \<open>
  A keyed slice: account address to chain identifier to entity list. The order of
  the keys of a JavaScript object is not modelled.
\<close>

type_synonym 'a keyed = "string \<rightharpoonup> (string \<rightharpoonup> 'a list)"

record AssetsState =
  allTokens :: "Token keyed"
  allCollectibleContracts :: "CollectibleContract keyed"
  allCollectibles :: "Collectible keyed"
  collectibleContracts :: "CollectibleContract list"
  collectibles :: "Collectible list"
  ignoredTokens :: "Token list"
  ignoredCollectibles :: "Collectible list"
  suggestedAssets :: "SuggestedAssetMeta list"
  tokens :: "Token list"

text \<open>
  The event hub and the promises handed out by \<open>watchAsset\<close>. A promise is a
  position in \<open>promises\<close>: \<open>None\<close> while it is pending, then its settlement.
  \<open>listeners\<close> are the \<open>once\<close> listeners of the events \<open><id>:finished\<close>: the
  identifier and the promise the listener settles. \<open>emitted\<close> is the trace of
  \<open>hub.emit\<close> calls, oldest first.
\<close>

datatype settlement = Resolved string | Rejected Error

datatype event = Finished string | PendingSuggestedAsset

record AssetsController =
  config :: AssetsConfig
  state :: AssetsState
  listeners :: "(string \<times> nat) list"
  promises :: "settlement option list"
  emitted :: "(event \<times> SuggestedAssetMeta) list"

section \<open>Keyed state store\<close>

text \<open>
  The pattern every mutation repeats:
  \<^verbatim>\<open>
  const addressTokens = allTokens[selectedAddress];
  const newAddressTokens = { ...addressTokens, ...{ [chainId]: tokens } };
  const newAllTokens = { ...allTokens, ...{ [selectedAddress]: newAddressTokens } };
  \<close>
  Spreading \<open>undefined\<close> contributes no key.
\<close>

definition set_slice :: "'a keyed \<Rightarrow> AssetsConfig \<Rightarrow> 'a list \<Rightarrow> 'a keyed" where
  "set_slice allX cfg xs =
     (let addressX = allX (selectedAddress cfg);
          newAddressX = (case addressX of None \<Rightarrow> Map.empty | Some m \<Rightarrow> m)(chainId cfg \<mapsto> xs)
      in allX(selectedAddress cfg \<mapsto> newAddressX))"

definition get_slice :: "'a keyed \<Rightarrow> AssetsConfig \<Rightarrow> 'a list option" where
  "get_slice allX cfg =
     (case allX (selectedAddress cfg) of None \<Rightarrow> None | Some m \<Rightarrow> m (chainId cfg))"

text \<open>\<open>Array.prototype.findIndex\<close>, with \<open>None\<close> for \<open>-1\<close>.\<close>

fun findIndex :: "('a \<Rightarrow> bool) \<Rightarrow> 'a list \<Rightarrow> nat option" where
  "findIndex P [] = None"
| "findIndex P (x # xs) =
     (if P x then Some 0 else (case findIndex P xs of None \<Rightarrow> None | Some i \<Rightarrow> Some (Suc i)))"

section \<open>Tokens\<close>

text \<open>
  \<open>toChecksumAddress\<close> belongs to the library ethereumjs-util and is a parameter
  \<open>cs\<close> of every operation that calls it.

  One step of \<open>addToken\<close> and of the loop of \<open>addTokens\<close>:
  \<^verbatim>\<open>
  const previousEntry = tokens.find((token) => token.address === address);
  if (previousEntry) {
    const previousIndex = tokens.indexOf(previousEntry);
    tokens[previousIndex] = newEntry;
  } else {
    tokens.push(newEntry);
  }
  \<close>
  \<open>find\<close> returns the first entry with the address, and \<open>indexOf\<close> the first
  position of that object, which is the first position with the address.
\<close>

definition put_token :: "Token \<Rightarrow> Token list \<Rightarrow> Token list" where
  "put_token newEntry tks =
     (case findIndex (\<lambda>token. t_address token = t_address newEntry) tks of
        Some previousIndex \<Rightarrow> tks[previousIndex := newEntry]
      | None \<Rightarrow> tks @ [newEntry])"

definition addToken ::
  "(string \<Rightarrow> string) \<Rightarrow> string \<Rightarrow> string \<Rightarrow> int \<Rightarrow> string option \<Rightarrow>
   AssetsController \<Rightarrow> Token list \<times> AssetsController" where
  "addToken cs address symbol decimals img c =
     (let address = cs address;
          newEntry = \<lparr>t_address = address, t_symbol = symbol, t_decimals = decimals,
                      t_image = img\<rparr>;
          newTokens = put_token newEntry (tokens (state c));
          newAllTokens = set_slice (allTokens (state c)) (config c) newTokens
      in (newTokens,
          c\<lparr>state := (state c)\<lparr>allTokens := newAllTokens, tokens := newTokens\<rparr>\<rparr>))"

definition addTokens ::
  "(string \<Rightarrow> string) \<Rightarrow> Token list \<Rightarrow> AssetsController \<Rightarrow> Token list \<times> AssetsController" where
  "addTokens cs tokensToAdd c =
     (let newTokens =
            fold (\<lambda>tokenToAdd tks.
                    put_token (tokenToAdd\<lparr>t_address := cs (t_address tokenToAdd)\<rparr>) tks)
                 tokensToAdd (tokens (state c));
          newAllTokens = set_slice (allTokens (state c)) (config c) newTokens
      in (newTokens,
          c\<lparr>state := (state c)\<lparr>allTokens := newAllTokens, tokens := newTokens\<rparr>\<rparr>))"

text \<open>
  The \<open>filter\<close> callback of \<open>removeAndIgnoreToken\<close> and of
  \<open>removeAndIgnoreIndividualCollectible\<close> pushes onto the new ignore list while it
  filters:
  \<^verbatim>\<open>
  const newTokens = tokens.filter((token) => {
    if (token.address === address) {
      const alreadyIgnored = newIgnoredTokens.find((t) => t.address === address);
      !alreadyIgnored && newIgnoredTokens.push(token);
      return false;
    }
    return true;
  });
  \<close>
  \<open>filter_ignoring same xs ign\<close> returns the entries kept and the new ignore list.
\<close>

fun filter_ignoring :: "('a \<Rightarrow> bool) \<Rightarrow> 'a list \<Rightarrow> 'a list \<Rightarrow> 'a list \<times> 'a list" where
  "filter_ignoring same [] ign = ([], ign)"
| "filter_ignoring same (x # xs) ign =
     (if same x
      then filter_ignoring same xs (if find same ign = None then ign @ [x] else ign)
      else (case filter_ignoring same xs ign of (kept, ign') \<Rightarrow> (x # kept, ign')))"

definition removeAndIgnoreToken ::
  "(string \<Rightarrow> string) \<Rightarrow> string \<Rightarrow> AssetsController \<Rightarrow> AssetsController" where
  "removeAndIgnoreToken cs address c =
     (let address = cs address;
          (newTokens, newIgnoredTokens) =
             filter_ignoring (\<lambda>token. t_address token = address)
               (tokens (state c)) (ignoredTokens (state c));
          newAllTokens = set_slice (allTokens (state c)) (config c) newTokens
      in c\<lparr>state := (state c)\<lparr>allTokens := newAllTokens, tokens := newTokens,
                                ignoredTokens := newIgnoredTokens\<rparr>\<rparr>)"

definition removeToken ::
  "(string \<Rightarrow> string) \<Rightarrow> string \<Rightarrow> AssetsController \<Rightarrow> AssetsController" where
  "removeToken cs address c =
     (let address = cs address;
          newTokens = filter (\<lambda>token. t_address token \<noteq> address) (tokens (state c));
          newAllTokens = set_slice (allTokens (state c)) (config c) newTokens
      in c\<lparr>state := (state c)\<lparr>allTokens := newAllTokens, tokens := newTokens\<rparr>\<rparr>)"

definition clearIgnoredTokens :: "AssetsController \<Rightarrow> AssetsController" where
  "clearIgnoredTokens c = c\<lparr>state := (state c)\<lparr>ignoredTokens := []\<rparr>\<rparr>"

definition clearIgnoredCollectibles :: "AssetsController \<Rightarrow> AssetsController" where
  "clearIgnoredCollectibles c = c\<lparr>state := (state c)\<lparr>ignoredCollectibles := []\<rparr>\<rparr>"

section \<open>Collectibles\<close>

text \<open>
  The outbound calls of the metadata resolver are parameters, gathered in one
  record. Each returns \<open>None\<close> where the call of the source throws (network error,
  status other than 2xx, parse error): \<open>contractFromApi\<close> is
  \<open>getCollectibleContractInformationFromApi\<close>, \<open>collectibleFromApi\<close> is
  \<open>getCollectibleInformationFromApi\<close>, \<open>collectibleFromTokenURI\<close> is
  \<open>getCollectibleInformationFromTokenURI\<close>, and \<open>getAssetName\<close> and
  \<open>getAssetSymbol\<close> are the on-chain reads handed to the constructor.
\<close>

record Network =
  contractFromApi :: "string \<Rightarrow> ApiCollectibleContractResponse option"
  getAssetName :: "string \<Rightarrow> string option"
  getAssetSymbol :: "string \<Rightarrow> string option"
  collectibleFromApi :: "string \<Rightarrow> int \<Rightarrow> CollectibleInformation option"
  collectibleFromTokenURI :: "string \<Rightarrow> int \<Rightarrow> CollectibleInformation option"

text \<open>\<open>safelyExecute\<close> turns a throw into \<open>undefined\<close>; on a call without state that is the
  identity on \<open>option\<close>. The empty object \<open>{}\<close> has every field absent.\<close>

definition getCollectibleInformation ::
  "Network \<Rightarrow> string \<Rightarrow> int \<Rightarrow> CollectibleInformation" where
  "getCollectibleInformation net contractAddress tokenId =
     (case collectibleFromApi net contractAddress tokenId of
        Some information \<Rightarrow> information
      | None \<Rightarrow>
          (case collectibleFromTokenURI net contractAddress tokenId of
             Some information \<Rightarrow> information
           | None \<Rightarrow> \<lparr>i_description = None, i_image = None, i_name = None\<rparr>))"

definition getCollectibleContractInformationFromContract ::
  "Network \<Rightarrow> string \<Rightarrow> ApiCollectibleContractResponse option" where
  "getCollectibleContractInformationFromContract net contractAddress =
     (case getAssetName net contractAddress of
        None \<Rightarrow> None
      | Some name \<Rightarrow>
          (case getAssetSymbol net contractAddress of
             None \<Rightarrow> None
           | Some symbol \<Rightarrow>
               Some \<lparr>r_description = None, r_image_url = None, r_name = Some name,
                     r_symbol = Some symbol, r_total_supply = None\<rparr>))"

text \<open>
  The result \<open>None\<close> stands for the empty object \<open>{}\<close> that the source returns when
  both sources fail. An object returned by a source has the five keys of the
  destructuring (from the API) or the keys \<open>name\<close> and \<open>symbol\<close> (from the contract),
  so \<open>Object.keys(contractInformation).length === 0\<close> holds of \<open>None\<close> only.
\<close>

definition getCollectibleContractInformation ::
  "Network \<Rightarrow> string \<Rightarrow> ApiCollectibleContractResponse option" where
  "getCollectibleContractInformation net contractAddress =
     (case contractFromApi net contractAddress of
        Some information \<Rightarrow> Some information
      | None \<Rightarrow>
          (case getCollectibleContractInformationFromContract net contractAddress of
             Some information \<Rightarrow> Some information
           | None \<Rightarrow> None))"

text \<open>\<open>!x\<close> for an optional string: absent or empty.\<close>

definition falsy :: "string option \<Rightarrow> bool" where
  "falsy x = (x = None \<or> x = Some [])"

definition addIndividualCollectible ::
  "(string \<Rightarrow> string) \<Rightarrow> Network \<Rightarrow> string \<Rightarrow> int \<Rightarrow> CollectibleInformation option \<Rightarrow>
   AssetsController \<Rightarrow> Collectible list \<times> AssetsController" where
  "addIndividualCollectible cs net address tokenId opts c =
     (let address = cs address;
          existingEntry =
            find (\<lambda>collectible. c_address collectible = address \<and> c_tokenId collectible = tokenId)
              (collectibles (state c))
      in if existingEntry \<noteq> None then (collectibles (state c), c)
         else
           let information =
                 (case opts of Some o' \<Rightarrow> o'
                  | None \<Rightarrow> getCollectibleInformation net address tokenId);
               newEntry = \<lparr>c_address = address, c_description = i_description information,
                           c_image = i_image information, c_name = i_name information,
                           c_tokenId = tokenId\<rparr>;
               newCollectibles = collectibles (state c) @ [newEntry];
               newAllCollectibles = set_slice (allCollectibles (state c)) (config c) newCollectibles
           in (newCollectibles,
               c\<lparr>state := (state c)\<lparr>allCollectibles := newAllCollectibles,
                                      collectibles := newCollectibles\<rparr>\<rparr>))"

definition addCollectibleContract ::
  "(string \<Rightarrow> string) \<Rightarrow> Network \<Rightarrow> string \<Rightarrow> bool \<Rightarrow>
   AssetsController \<Rightarrow> CollectibleContract list \<times> AssetsController" where
  "addCollectibleContract cs net address detection c =
     (let address = cs address;
          existingEntry =
            find (\<lambda>collectibleContract. cc_address collectibleContract = address)
              (collectibleContracts (state c))
      in if existingEntry \<noteq> None then (collectibleContracts (state c), c)
         else
           (case getCollectibleContractInformation net address of
              None \<Rightarrow> (collectibleContracts (state c), c)
            | Some contractInformation \<Rightarrow>
                if detection \<and> falsy (r_image_url contractInformation)
                then (collectibleContracts (state c), c)
                else
                  let newEntry = \<lparr>cc_name = r_name contractInformation,
                                  cc_logo = r_image_url contractInformation,
                                  cc_address = address,
                                  cc_symbol = r_symbol contractInformation,
                                  cc_description = r_description contractInformation,
                                  cc_totalSupply = r_total_supply contractInformation\<rparr>;
                      newCollectibleContracts = collectibleContracts (state c) @ [newEntry];
                      newAllCollectibleContracts =
                        set_slice (allCollectibleContracts (state c)) (config c)
                          newCollectibleContracts
                  in (newCollectibleContracts,
                      c\<lparr>state := (state c)\<lparr>allCollectibleContracts := newAllCollectibleContracts,
                                             collectibleContracts := newCollectibleContracts\<rparr>\<rparr>)))"

definition addCollectible ::
  "(string \<Rightarrow> string) \<Rightarrow> Network \<Rightarrow> string \<Rightarrow> int \<Rightarrow> CollectibleInformation option \<Rightarrow> bool \<Rightarrow>
   AssetsController \<Rightarrow> AssetsController" where
  "addCollectible cs net address tokenId opts detection c =
     (let address = cs address;
          (newCollectibleContracts, c1) = addCollectibleContract cs net address detection c;
          collectibleContract =
            find (\<lambda>contract. cc_address contract = address) newCollectibleContracts
      in if collectibleContract \<noteq> None
         then snd (addIndividualCollectible cs net address tokenId opts c1)
         else c1)"

definition removeAndIgnoreIndividualCollectible ::
  "(string \<Rightarrow> string) \<Rightarrow> string \<Rightarrow> int \<Rightarrow> AssetsController \<Rightarrow> AssetsController" where
  "removeAndIgnoreIndividualCollectible cs address tokenId c =
     (let address = cs address;
          (newCollectibles, newIgnoredCollectibles) =
             filter_ignoring
               (\<lambda>collectible. c_address collectible = address \<and> c_tokenId collectible = tokenId)
               (collectibles (state c)) (ignoredCollectibles (state c));
          newAllCollectibles = set_slice (allCollectibles (state c)) (config c) newCollectibles
      in c\<lparr>state := (state c)\<lparr>allCollectibles := newAllCollectibles,
                                collectibles := newCollectibles,
                                ignoredCollectibles := newIgnoredCollectibles\<rparr>\<rparr>)"

definition removeIndividualCollectible ::
  "(string \<Rightarrow> string) \<Rightarrow> string \<Rightarrow> int \<Rightarrow> AssetsController \<Rightarrow> AssetsController" where
  "removeIndividualCollectible cs address tokenId c =
     (let address = cs address;
          newCollectibles =
            filter (\<lambda>collectible.
                      \<not> (c_address collectible = address \<and> c_tokenId collectible = tokenId))
              (collectibles (state c));
          newAllCollectibles = set_slice (allCollectibles (state c)) (config c) newCollectibles
      in c\<lparr>state := (state c)\<lparr>allCollectibles := newAllCollectibles,
                                collectibles := newCollectibles\<rparr>\<rparr>)"

definition removeCollectibleContract ::
  "(string \<Rightarrow> string) \<Rightarrow> string \<Rightarrow> AssetsController \<Rightarrow>
   CollectibleContract list \<times> AssetsController" where
  "removeCollectibleContract cs address c =
     (let address = cs address;
          newCollectibleContracts =
            filter (\<lambda>collectibleContract. \<not> (cc_address collectibleContract = address))
              (collectibleContracts (state c));
          newAllCollectibleContracts =
            set_slice (allCollectibleContracts (state c)) (config c) newCollectibleContracts
      in (newCollectibleContracts,
          c\<lparr>state := (state c)\<lparr>allCollectibleContracts := newAllCollectibleContracts,
                                 collectibleContracts := newCollectibleContracts\<rparr>\<rparr>))"

definition removeCollectible ::
  "(string \<Rightarrow> string) \<Rightarrow> string \<Rightarrow> int \<Rightarrow> AssetsController \<Rightarrow> AssetsController" where
  "removeCollectible cs address tokenId c =
     (let address = cs address;
          c1 = removeIndividualCollectible cs address tokenId c;
          remainingCollectible =
            find (\<lambda>collectible. c_address collectible = address) (collectibles (state c1))
      in if remainingCollectible = None
         then snd (removeCollectibleContract cs address c1)
         else c1)"

definition removeAndIgnoreCollectible ::
  "(string \<Rightarrow> string) \<Rightarrow> string \<Rightarrow> int \<Rightarrow> AssetsController \<Rightarrow> AssetsController" where
  "removeAndIgnoreCollectible cs address tokenId c =
     (let address = cs address;
          c1 = removeAndIgnoreIndividualCollectible cs address tokenId c;
          remainingCollectible =
            find (\<lambda>collectible. c_address collectible = address) (collectibles (state c1))
      in if remainingCollectible = None
         then snd (removeCollectibleContract cs address c1)
         else c1)"

section \<open>Account and network changes\<close>

text \<open>
  The two handlers that the constructor registers:
  \<^verbatim>\<open>
  onPreferencesStateChange(({ selectedAddress }) => {
    const { allCollectibleContracts, allCollectibles, allTokens } = this.state;
    const { chainId } = this.config;
    this.configure({ selectedAddress });
    this.update({
      collectibleContracts: allCollectibleContracts[selectedAddress]?.[chainId] || [],
      collectibles: allCollectibles[selectedAddress]?.[chainId] || [],
      tokens: allTokens[selectedAddress]?.[chainId] || [],
    });
  });
  \<close>
  and the same for \<open>onNetworkStateChange\<close>, with the chain of the provider and the
  selected address of the configuration. \<open>configure\<close> merges the one key into the
  configuration and \<open>update\<close> the three keys into the state; the ignore lists are
  not among them. An array is truthy also when it is empty, so \<open>|| []\<close> replaces
  \<open>undefined\<close> only.
\<close>

definition slice_or_empty :: "'a keyed \<Rightarrow> string \<Rightarrow> string \<Rightarrow> 'a list" where
  "slice_or_empty allX selectedAddress' chainId' =
     (case allX selectedAddress' of
        None \<Rightarrow> []
      | Some addressX \<Rightarrow> (case addressX chainId' of None \<Rightarrow> [] | Some xs \<Rightarrow> xs))"

definition onPreferencesStateChange :: "string \<Rightarrow> AssetsController \<Rightarrow> AssetsController" where
  "onPreferencesStateChange selectedAddress' c =
     (let allCollectibleContracts' = allCollectibleContracts (state c);
          allCollectibles' = allCollectibles (state c);
          allTokens' = allTokens (state c);
          chainId' = chainId (config c);
          c1 = c\<lparr>config := (config c)\<lparr>selectedAddress := selectedAddress'\<rparr>\<rparr>
      in c1\<lparr>state := (state c1)
             \<lparr>collectibleContracts :=
                slice_or_empty allCollectibleContracts' selectedAddress' chainId',
              collectibles := slice_or_empty allCollectibles' selectedAddress' chainId',
              tokens := slice_or_empty allTokens' selectedAddress' chainId'\<rparr>\<rparr>)"

definition onNetworkStateChange :: "string \<Rightarrow> AssetsController \<Rightarrow> AssetsController" where
  "onNetworkStateChange chainId' c =
     (let allCollectibleContracts' = allCollectibleContracts (state c);
          allCollectibles' = allCollectibles (state c);
          allTokens' = allTokens (state c);
          selectedAddress' = selectedAddress (config c);
          c1 = c\<lparr>config := (config c)\<lparr>chainId := chainId'\<rparr>\<rparr>
      in c1\<lparr>state := (state c1)
             \<lparr>collectibleContracts :=
                slice_or_empty allCollectibleContracts' selectedAddress' chainId',
              collectibles := slice_or_empty allCollectibles' selectedAddress' chainId',
              tokens := slice_or_empty allTokens' selectedAddress' chainId'\<rparr>\<rparr>)"

section \<open>Suggestion workflow\<close>

text \<open>
  \<open>isValidAddress\<close> of ethereumjs-util 6 (the version \<open>package.json\<close> asks for) tests
  the regular expression \<^verbatim>\<open>/^0x[0-9a-fA-F]{40}$/\<close>.
\<close>

definition is_hex :: "char \<Rightarrow> bool" where
  "is_hex ch = (ch \<in> set ''0123456789abcdefABCDEF'')"

definition isValidAddress :: "string \<Rightarrow> bool" where
  "isValidAddress address =
     (length address = 42 \<and> take 2 address = ''0x'' \<and> list_all is_hex (drop 2 address))"

text \<open>
  \<open>parseInt(decimals, 10)\<close> on a number renders the number as a string first. An
  integer of magnitude below \<open>10^21\<close> is rendered by its decimal digits and read back
  as itself. From \<open>10^21\<close> on the rendering is exponential (\<open>1e+21\<close>) and \<open>parseInt\<close>
  reads the digits before the \<open>.\<close> or the \<open>e\<close>: one digit between 1 and 9, negated
  for a negative number. The range test of the validation looks at no more than
  the sign of that digit, and the model returns 1 or -1 there.
\<close>

definition parseInt10 :: "int \<Rightarrow> int" where
  "parseInt10 d = (if \<bar>d\<bar> < 10 ^ 21 then d else if 0 < d then 1 else - 1)"

text \<open>
  \<open>validateTokenToWatch\<close>. With the fields typed as \<open>Token\<close> declares them,
  \<open>!address\<close> and \<open>!symbol\<close> test for the empty string, \<open>decimals\<close> is never
  \<open>undefined\<close>, \<open>symbol\<close> is a string and \<open>numDecimals\<close> is never \<open>NaN\<close>. The length
  of a JavaScript string counts UTF-16 units; the model counts characters.
\<close>

definition validateTokenToWatch :: "Token \<Rightarrow> Error + unit" where
  "validateTokenToWatch token =
     (let address = t_address token; symbol = t_symbol token; decimals = t_decimals token
      in if address = [] \<or> symbol = [] then Inl (InvalidParams Must_specify)
         else if length symbol > 11 then Inl (InvalidParams (Symbol_too_long symbol))
         else
           let numDecimals = parseInt10 decimals
           in if numDecimals > 36 \<or> numDecimals < 0
              then Inl (InvalidParams (Invalid_decimals decimals))
              else if \<not> isValidAddress address
              then Inl (InvalidParams (Invalid_address address))
              else Inr ())"

text \<open>
  The listener that \<open>watchAsset\<close> registers with \<open>hub.once\<close> settles the promise from
  the status of the meta it receives.
\<close>

fun finished_listener :: "SuggestedAssetMeta \<Rightarrow> settlement" where
  "finished_listener meta =
     (case s_status meta of
        accepted \<Rightarrow> Resolved (t_address (s_asset meta))
      | rejected \<Rightarrow> Rejected (Error User_rejected)
      | failed error \<Rightarrow> Rejected (Error (message_of error))
      | pending \<Rightarrow> Rejected (Error Unknown_status))"

text \<open>A promise settles once: a later \<open>resolve\<close> or \<open>reject\<close> changes nothing.\<close>

definition settle :: "nat \<Rightarrow> settlement \<Rightarrow> settlement option list \<Rightarrow> settlement option list" where
  "settle p outcome ps = (if p < length ps \<and> ps ! p = None then ps[p := Some outcome] else ps)"

text \<open>
  \<open>hub.emit\<close>. An emission of \<open><id>:finished\<close> runs the listeners registered for
  that identifier, in the order of registration, and removes them (\<open>once\<close>). The
  controller registers no listener of \<open>pendingSuggestedAsset\<close>.
\<close>

fun emit :: "event \<Rightarrow> SuggestedAssetMeta \<Rightarrow> AssetsController \<Rightarrow> AssetsController" where
  "emit (Finished i) meta c =
     c\<lparr>listeners := filter (\<lambda>(e, p). e \<noteq> i) (listeners c),
       promises := fold (\<lambda>(e, p) ps. if e = i then settle p (finished_listener meta) ps else ps)
                     (listeners c) (promises c),
       emitted := emitted c @ [(Finished i, meta)]\<rparr>"
| "emit PendingSuggestedAsset meta c =
     c\<lparr>emitted := emitted c @ [(PendingSuggestedAsset, meta)]\<rparr>"

text \<open>
  \<open>failSuggestedAsset\<close>. \<open>acceptWatchAsset\<close> may call it with \<open>undefined\<close>: the spread
  of \<open>undefined\<close> is harmless, the read of \<open>suggestedAssetMeta.id\<close> throws.
\<close>

definition failSuggestedAsset ::
  "SuggestedAssetMeta option \<Rightarrow> Error \<Rightarrow> AssetsController \<Rightarrow> Error + AssetsController" where
  "failSuggestedAsset suggestedAssetMeta error c =
     (case suggestedAssetMeta of
        None \<Rightarrow> Inl (TypeError (Property_of_undefined ''id''))
      | Some meta \<Rightarrow>
          let failedSuggestedAssetMeta = meta\<lparr>s_status := failed error\<rparr>
          in Inr (emit (Finished (s_id meta)) failedSuggestedAssetMeta c))"

text \<open>
  \<open>watchAsset asset type random now\<close>: \<open>random\<close> is the identifier that \<open>random()\<close>
  returns and \<open>now\<close> the value of \<open>Date.now()\<close>. The result is the error the returned
  promise rejects with, or the pair of \<open>result\<close> (the new promise) and
  \<open>suggestedAssetMeta\<close>.
\<close>

definition watchAsset ::
  "Token \<Rightarrow> string \<Rightarrow> string \<Rightarrow> nat \<Rightarrow> AssetsController \<Rightarrow>
   (Error + nat \<times> SuggestedAssetMeta) \<times> AssetsController" where
  "watchAsset asset type' random now c =
     (let suggestedAssetMeta =
            \<lparr>s_asset = asset, s_id = random, s_status = pending, s_time = now, s_type = type'\<rparr>;
          validation =
            (if type' = ''ERC20'' then validateTokenToWatch asset
             else Inl (Error (Type_not_supported type')))
      in case validation of
           Inl error \<Rightarrow>
             (case failSuggestedAsset (Some suggestedAssetMeta) error c of
                Inl thrown \<Rightarrow> (Inl thrown, c)
              | Inr c1 \<Rightarrow> (Inl error, c1))
         | Inr _ \<Rightarrow>
             let result = length (promises c);
                 c1 = c\<lparr>listeners := listeners c @ [(random, result)],
                        promises := promises c @ [None]\<rparr>;
                 c2 = c1\<lparr>state := (state c1)\<lparr>suggestedAssets :=
                                   suggestedAssets (state c1) @ [suggestedAssetMeta]\<rparr>\<rparr>
             in (Inr (result, suggestedAssetMeta), emit PendingSuggestedAsset suggestedAssetMeta c2))"

text \<open>
  \<open>acceptWatchAsset\<close>: the result is the error the returned promise rejects with, if
  any. \<open>attempt\<close> is the \<open>try\<close> block, \<open>handled\<close> adds the \<open>catch\<close> block. The
  assignment \<open>suggestedAssetMeta.status = accepted\<close> writes to the record held by
  the list.
\<close>

definition acceptWatchAsset ::
  "(string \<Rightarrow> string) \<Rightarrow> string \<Rightarrow> AssetsController \<Rightarrow> Error option \<times> AssetsController" where
  "acceptWatchAsset cs suggestedAssetID c =
     (let index = findIndex (\<lambda>m. suggestedAssetID = s_id m) (suggestedAssets (state c));
          suggestedAssetMeta =
            (case index of None \<Rightarrow> None | Some i \<Rightarrow> Some (suggestedAssets (state c) ! i));
          attempt =
            (case index of
               None \<Rightarrow> Inl (TypeError (Property_of_undefined ''type''))
             | Some i \<Rightarrow>
                 let meta = suggestedAssets (state c) ! i
                 in if s_type meta = ''ERC20''
                    then
                      let asset = s_asset meta;
                          c1 = snd (addToken cs (t_address asset) (t_symbol asset)
                                      (t_decimals asset) (t_image asset) c);
                          meta' = meta\<lparr>s_status := accepted\<rparr>;
                          c2 = c1\<lparr>state := (state c1)\<lparr>suggestedAssets :=
                                            (suggestedAssets (state c1))[i := meta']\<rparr>\<rparr>
                      in Inr (emit (Finished (s_id meta')) meta' c2)
                    else Inl (Error (Type_not_supported (s_type meta))));
          handled =
            (case attempt of
               Inr c2 \<Rightarrow> Inr c2
             | Inl error \<Rightarrow> failSuggestedAsset suggestedAssetMeta error c)
      in case handled of
           Inl thrown \<Rightarrow> (Some thrown, c)
         | Inr c3 \<Rightarrow>
             let newSuggestedAssets =
                   filter (\<lambda>m. s_id m \<noteq> suggestedAssetID) (suggestedAssets (state c3))
             in (None, c3\<lparr>state := (state c3)\<lparr>suggestedAssets := newSuggestedAssets\<rparr>\<rparr>))"

definition rejectWatchAsset :: "string \<Rightarrow> AssetsController \<Rightarrow> AssetsController" where
  "rejectWatchAsset suggestedAssetID c =
     (case findIndex (\<lambda>m. suggestedAssetID = s_id m) (suggestedAssets (state c)) of
        None \<Rightarrow> c
      | Some i \<Rightarrow>
          let meta' = (suggestedAssets (state c) ! i)\<lparr>s_status := rejected\<rparr>;
              c1 = c\<lparr>state := (state c)\<lparr>suggestedAssets :=
                                (suggestedAssets (state c))[i := meta']\<rparr>\<rparr>;
              c2 = emit (Finished (s_id meta')) meta' c1;
              newSuggestedAssets =
                filter (\<lambda>m. s_id m \<noteq> suggestedAssetID) (suggestedAssets (state c2))
          in c2\<lparr>state := (state c2)\<lparr>suggestedAssets := newSuggestedAssets\<rparr>\<rparr>)"

section \<open>Assets detection controller\<close>

text \<open>
  The static registry \<open>@metamask/contract-metadata\<close> is a parameter: the list of its
  keys (addresses) with the fields of each entry that the controller reads, in the
  order \<open>for ... in\<close> visits them. Its keys are distinct.
  In an item of the owned-collectibles response, \<open>a_token_id\<close> holds the value of
  \<open>Number(token_id)\<close> and \<open>a_address\<close> holds \<open>asset_contract.address\<close>.
\<close>

record ContractMetadata =
  m_erc20 :: bool
  m_symbol :: string
  m_decimals :: int

record ApiCollectibleResponse =
  a_token_id :: int
  a_image_original_url :: "string option"
  a_name :: "string option"
  a_description :: "string option"
  a_address :: string

record AssetsDetectionConfig =
  d_interval :: nat
  d_networkType :: string
  d_selectedAddress :: string
  d_tokens :: "Token list"

record AssetsDetectionController =
  d_config :: AssetsDetectionConfig
  disabled :: bool

definition isMainnet :: "AssetsDetectionController \<Rightarrow> bool" where
  "isMainnet d = (if d_networkType (d_config d) \<noteq> ''mainnet'' \<or> disabled d then False else True)"

text \<open>The decimal rendering of an array index.\<close>

fun show_nat :: "nat \<Rightarrow> string" where
  "show_nat n =
     (if n < 10 then [''0123456789'' ! n]
      else show_nat (n div 10) @ [''0123456789'' ! (n mod 10)])"

declare show_nat.simps [simp del]

text \<open>
  The operator \<open>in\<close> applied to an array: \<open>key in xs\<close> holds when \<open>key\<close> names a
  property of the array, which is an index below its length, \<open>length\<close>, or a name
  inherited from the prototypes of arrays and objects. The inherited names depend
  on the engine and are the parameter \<open>inherited\<close>.
\<close>

definition js_in :: "string list \<Rightarrow> string \<Rightarrow> 'a list \<Rightarrow> bool" where
  "js_in inherited key xs =
     (key \<in> set (map show_nat [0..<length xs]) \<or> key = ''length'' \<or> key \<in> set inherited)"

text \<open>
  The first half of \<open>detectTokens\<close>, up to the list handed to the balance call:
  \<^verbatim>\<open>
  const tokensAddresses = this.config.tokens.filter((token) => token.address);
  const tokensToDetect = [];
  for (const address in contractMap) {
    const contract = contractMap[address];
    if (contract.erc20 && !(address in tokensAddresses)) {
      tokensToDetect.push(address);
    }
  }
  \<close>
\<close>

definition tokensToDetect ::
  "string list \<Rightarrow> (string \<times> ContractMetadata) list \<Rightarrow> AssetsDetectionController \<Rightarrow> string list" where
  "tokensToDetect inherited contractMap d =
     (let tokensAddresses = filter (\<lambda>token. t_address token \<noteq> []) (d_tokens (d_config d))
      in map fst
           (filter (\<lambda>(address, contract).
                      m_erc20 contract \<and> \<not> js_in inherited address tokensAddresses)
                   contractMap))"

text \<open>
  The loop over the balances. Reading \<open>contractMap[tokenAddress].decimals\<close> of an
  address that the registry lacks throws.
\<close>

fun stage_tokens ::
  "(string \<Rightarrow> string) \<Rightarrow> (string \<times> ContractMetadata) list \<Rightarrow> Token list \<Rightarrow> string list \<Rightarrow>
   Error + Token list" where
  "stage_tokens cs contractMap ign [] = Inr []"
| "stage_tokens cs contractMap ign (tokenAddress # rest) =
     (let ignored =
            (if ign \<noteq> [] then find (\<lambda>token. t_address token = cs tokenAddress) ign else None)
      in if ignored = None
         then
           (case map_of contractMap tokenAddress of
              None \<Rightarrow> Inl (TypeError (Property_of_undefined ''decimals''))
            | Some contract \<Rightarrow>
                (case stage_tokens cs contractMap ign rest of
                   Inl thrown \<Rightarrow> Inl thrown
                 | Inr staged \<Rightarrow>
                     Inr (\<lparr>t_address = tokenAddress, t_symbol = m_symbol contract,
                           t_decimals = m_decimals contract, t_image = None\<rparr> # staged)))
         else stage_tokens cs contractMap ign rest)"

text \<open>
  \<open>detectTokens\<close>. \<open>getBalancesInSingleCall\<close> is a parameter: the entries of the
  balance map it returns, or \<open>None\<close> when it throws. \<open>safelyExecute\<close> swallows every
  throw of the body, which has not touched the state by then.
\<close>

definition detectTokens ::
  "(string \<Rightarrow> string) \<Rightarrow> string list \<Rightarrow> (string \<times> ContractMetadata) list \<Rightarrow>
   (string \<Rightarrow> string list \<Rightarrow> (string \<times> nat) list option) \<Rightarrow>
   AssetsDetectionController \<Rightarrow> AssetsController \<Rightarrow> AssetsController" where
  "detectTokens cs inherited contractMap getBalancesInSingleCall d c =
     (if \<not> isMainnet d then c
      else if d_selectedAddress (d_config d) = [] then c
      else
        (case getBalancesInSingleCall (d_selectedAddress (d_config d))
                (tokensToDetect inherited contractMap d) of
           None \<Rightarrow> c
         | Some balances \<Rightarrow>
             (case stage_tokens cs contractMap (ignoredTokens (state c)) (map fst balances) of
                Inl thrown \<Rightarrow> c
              | Inr tokensToAdd \<Rightarrow>
                  if tokensToAdd \<noteq> [] then snd (addTokens cs tokensToAdd c) else c)))"

text \<open>
  \<open>getOwnerCollectibles\<close>: a failed fetch gives the empty list; a body that does not
  parse, or has no array \<open>assets\<close>, makes the pass throw inside \<open>safelyExecute\<close>.
\<close>

datatype owner_collectibles = Fetch_failed | Body_unusable | Assets "ApiCollectibleResponse list"

text \<open>
  The callbacks of \<open>apiCollectibles.map\<close> all start before any add runs, so each
  reads the ignore list of the state the pass starts from. The adds themselves are
  serialised by the mutex of the assets controller; the model runs them item by
  item, in the order of the response.
\<close>

definition not_ignored :: "(string \<Rightarrow> string) \<Rightarrow> Collectible list \<Rightarrow> ApiCollectibleResponse \<Rightarrow> bool" where
  "not_ignored cs ign item =
     (let ignored =
            (if ign \<noteq> []
             then find (\<lambda>cl. c_address cl = cs (a_address item) \<and> c_tokenId cl = a_token_id item) ign
             else None)
      in ignored = None)"

definition detect_add ::
  "(string \<Rightarrow> string) \<Rightarrow> Network \<Rightarrow> ApiCollectibleResponse \<Rightarrow> AssetsController \<Rightarrow> AssetsController" where
  "detect_add cs net item c =
     addCollectible cs net (a_address item) (a_token_id item)
       (Some \<lparr>i_description = a_description item, i_image = a_image_original_url item,
              i_name = a_name item\<rparr>)
       True c"

definition detectCollectibles ::
  "(string \<Rightarrow> string) \<Rightarrow> Network \<Rightarrow> owner_collectibles \<Rightarrow>
   AssetsDetectionController \<Rightarrow> AssetsController \<Rightarrow> AssetsController" where
  "detectCollectibles cs net getOwnerCollectibles d c =
     (if \<not> isMainnet d then c
      else if d_selectedAddress (d_config d) = [] then c
      else
        (case getOwnerCollectibles of
           Fetch_failed \<Rightarrow> c
         | Body_unusable \<Rightarrow> c
         | Assets apiCollectibles \<Rightarrow>
             fold (detect_add cs net)
               (filter (not_ignored cs (ignoredCollectibles (state c))) apiCollectibles) c))"

section \<open>Currency rate controller\<close>

text \<open>
  Rates and dates are JavaScript numbers; their type is the parameter \<open>'n\<close>.
  \<open>fetchExchangeRate\<close> is a parameter of the controller in the source as well: here
  it returns the error it throws or the three numbers.
\<close>

record 'n ExchangeRate =
  f_conversionDate :: 'n
  f_conversionRate :: 'n
  f_usdConversionRate :: 'n

record 'n CurrencyRateState =
  conversionDate :: 'n
  conversionRate :: 'n
  currentCurrency :: string
  nativeCurrency :: string
  pendingCurrentCurrency :: "string option"
  pendingNativeCurrency :: "string option"
  usdConversionRate :: "'n option"

text \<open>
  \<open>intervalId\<close> is the field of the controller; \<open>intervals\<close> are the timers that
  \<open>setInterval\<close> has started and \<open>clearInterval\<close> has not cleared, each of which
  keeps running \<open>interval_callback\<close>. A timer handle is truthy.
\<close>

record 'n CurrencyRateController =
  cr_state :: "'n CurrencyRateState"
  includeUsdRate :: bool
  intervalDelay :: nat
  intervalId :: "nat option"
  intervals :: "nat list"

text \<open>\<open>pending || current\<close>: \<open>null\<close> and the empty string are falsy.\<close>

definition or_else :: "string option \<Rightarrow> string \<Rightarrow> string" where
  "or_else pending' current = (case pending' of None \<Rightarrow> current | Some x \<Rightarrow> if x = [] then current else x)"

definition safelyExecute :: "('c \<Rightarrow> (Error + 'a) \<times> 'c) \<Rightarrow> 'c \<Rightarrow> 'a option \<times> 'c" where
  "safelyExecute operation c =
     (case operation c of
        (Inr v, c1) \<Rightarrow> (Some v, c1)
      | (Inl error, c1) \<Rightarrow> (None, c1))"

definition updateExchangeRate ::
  "(string \<Rightarrow> string \<Rightarrow> bool \<Rightarrow> Error + 'n ExchangeRate) \<Rightarrow>
   'n CurrencyRateController \<Rightarrow> (Error + unit) \<times> 'n CurrencyRateController" where
  "updateExchangeRate fetchExchangeRate c =
     (let st = cr_state c;
          currency = or_else (pendingCurrentCurrency st) (currentCurrency st);
          native = or_else (pendingNativeCurrency st) (nativeCurrency st)
      in case fetchExchangeRate currency native (includeUsdRate c) of
           Inl error \<Rightarrow> (Inl error, c)
         | Inr r \<Rightarrow>
             (Inr (),
              c\<lparr>cr_state :=
                  \<lparr>conversionDate = f_conversionDate r,
                   conversionRate = f_conversionRate r,
                   currentCurrency = currency,
                   nativeCurrency = native,
                   pendingCurrentCurrency = None,
                   pendingNativeCurrency = None,
                   usdConversionRate = Some (f_usdConversionRate r)\<rparr>\<rparr>))"

definition stopPolling :: "'n CurrencyRateController \<Rightarrow> 'n CurrencyRateController" where
  "stopPolling c =
     (case intervalId c of
        Some handle \<Rightarrow> c\<lparr>intervals := removeAll handle (intervals c)\<rparr>
      | None \<Rightarrow> c)"

text \<open>The callback of the timer; its result is what the callback's promise resolves to.\<close>

definition interval_callback ::
  "(string \<Rightarrow> string \<Rightarrow> bool \<Rightarrow> Error + 'n ExchangeRate) \<Rightarrow>
   'n CurrencyRateController \<Rightarrow> unit option \<times> 'n CurrencyRateController" where
  "interval_callback fetchExchangeRate c = safelyExecute (updateExchangeRate fetchExchangeRate) c"

text \<open>\<open>startPolling fetchExchangeRate handle\<close>: \<open>handle\<close> is what \<open>setInterval\<close> returns.\<close>

definition startPolling ::
  "(string \<Rightarrow> string \<Rightarrow> bool \<Rightarrow> Error + 'n ExchangeRate) \<Rightarrow> nat \<Rightarrow>
   'n CurrencyRateController \<Rightarrow> 'n CurrencyRateController" where
  "startPolling fetchExchangeRate handle c =
     (let c1 = stopPolling c;
          c2 = snd (safelyExecute (updateExchangeRate fetchExchangeRate) c1)
      in c2\<lparr>intervalId := Some handle, intervals := intervals c2 @ [handle]\<rparr>)"

section \<open>Initial values and the properties stated below\<close>

text \<open>The defaults that the constructor of the assets controller installs.\<close>

definition defaultConfig :: AssetsConfig where
  "defaultConfig = \<lparr>networkType = ''mainnet'', selectedAddress = [], chainId = []\<rparr>"

definition defaultState :: AssetsState where
  "defaultState =
     \<lparr>allTokens = Map.empty, allCollectibleContracts = Map.empty, allCollectibles = Map.empty,
      collectibleContracts = [], collectibles = [], ignoredTokens = [],
      ignoredCollectibles = [], suggestedAssets = [], tokens = []\<rparr>"

definition new_controller :: AssetsController where
  "new_controller =
     \<lparr>config = defaultConfig, state = defaultState, listeners = [], promises = [], emitted = []\<rparr>"

text \<open>
  Two of the test vectors of EIP-55, lower case and checksummed.
  \<open>checksum_on_vectors\<close> agrees with \<open>toChecksumAddress\<close> on these two addresses in
  both spellings; it instantiates \<open>cs\<close> where a property is evaluated at one of them.
\<close>

definition eip55_vectors :: "(string \<times> string) list" where
  "eip55_vectors =
     [(''0x5aaeb6053f3e94c9b9a09f33669435e7ef1beaed'', ''0x5aAeb6053F3E94C9b9A09f33669435E7Ef1BeAed''),
      (''0xfb6916095ca1df60bb79ce92ce3ea74c37c5d359'', ''0xfB6916095ca1df60bB79Ce92cE3Ea74c37c5d359'')]"

definition checksum_on_vectors :: "string \<Rightarrow> string" where
  "checksum_on_vectors address =
     (case map_of eip55_vectors address of Some checksummed \<Rightarrow> checksummed | None \<Rightarrow> address)"

text \<open>
  No entity is active and ignored at once: no active token shares its address with
  an ignored token, and no active collectible shares address and token id with an
  ignored collectible.
\<close>

definition no_active_ignored :: "AssetsController \<Rightarrow> bool" where
  "no_active_ignored c =
     (list_all (\<lambda>token. find (\<lambda>g. t_address g = t_address token) (ignoredTokens (state c)) = None)
        (tokens (state c)) \<and>
      list_all (\<lambda>cl. find (\<lambda>g. c_address g = c_address cl \<and> c_tokenId g = c_tokenId cl)
                        (ignoredCollectibles (state c)) = None)
        (collectibles (state c)))"

text \<open>Sample values at which the properties below are evaluated.\<close>

definition address_1 :: string where
  "address_1 = ''0x5aAeb6053F3E94C9b9A09f33669435E7Ef1BeAed''"

definition address_1_lower :: string where
  "address_1_lower = ''0x5aaeb6053f3e94c9b9a09f33669435e7ef1beaed''"

definition address_2 :: string where
  "address_2 = ''0xfB6916095ca1df60bB79Ce92cE3Ea74c37c5d359''"

definition token_1 :: Token where
  "token_1 = \<lparr>t_address = address_1, t_symbol = ''ONE'', t_decimals = 18, t_image = None\<rparr>"

definition token_2 :: Token where
  "token_2 = \<lparr>t_address = address_2, t_symbol = ''TWO'', t_decimals = 6, t_image = None\<rparr>"

definition two_tokens :: AssetsController where
  "two_tokens = new_controller\<lparr>state := defaultState\<lparr>tokens := [token_1, token_2]\<rparr>\<rparr>"

definition added_once :: AssetsController where
  "added_once = snd (addToken checksum_on_vectors address_1_lower ''ONE'' 18 None new_controller)"

definition then_ignored :: AssetsController where
  "then_ignored = removeAndIgnoreToken checksum_on_vectors address_1_lower added_once"

definition added_again :: AssetsController where
  "added_again = snd (addToken checksum_on_vectors address_1_lower ''ONE'' 18 None then_ignored)"

text \<open>
  A token added on the first account, then added, removed and ignored on a second
  account.
\<close>

definition on_second_account :: AssetsController where
  "on_second_account = onPreferencesStateChange address_2 added_once"

definition added_there :: AssetsController where
  "added_there = snd (addToken checksum_on_vectors address_1_lower ''ONE'' 18 None on_second_account)"

definition ignored_there :: AssetsController where
  "ignored_there = removeAndIgnoreToken checksum_on_vectors address_1_lower added_there"

definition collectible_1 :: Collectible where
  "collectible_1 = \<lparr>c_address = address_1, c_description = None, c_image = None,
                     c_name = Some ''first'', c_tokenId = 1\<rparr>"

definition collectible_2 :: Collectible where
  "collectible_2 = \<lparr>c_address = address_1, c_description = None, c_image = None,
                     c_name = Some ''second'', c_tokenId = 2\<rparr>"

definition contract_1 :: CollectibleContract where
  "contract_1 = \<lparr>cc_name = Some ''Contract'', cc_logo = None, cc_address = address_1,
                  cc_symbol = Some ''CON'', cc_description = None, cc_totalSupply = None\<rparr>"

definition contract_2 :: CollectibleContract where
  "contract_2 = \<lparr>cc_name = Some ''Other'', cc_logo = None, cc_address = address_2,
                  cc_symbol = Some ''OTH'', cc_description = None, cc_totalSupply = None\<rparr>"

definition one_collectible :: AssetsController where
  "one_collectible =
     new_controller\<lparr>state := defaultState\<lparr>collectibleContracts := [contract_1, contract_2],
                                             collectibles := [collectible_1]\<rparr>\<rparr>"

definition two_collectibles :: AssetsController where
  "two_collectibles =
     new_controller\<lparr>state := defaultState\<lparr>collectibleContracts := [contract_1],
                                             collectibles := [collectible_1, collectible_2]\<rparr>\<rparr>"

definition bad_decimals :: Token where
  "bad_decimals = \<lparr>t_address = address_1_lower, t_symbol = ''ABC'', t_decimals = 37, t_image = None\<rparr>"

definition good_token :: Token where
  "good_token = \<lparr>t_address = address_1_lower, t_symbol = ''ABC'', t_decimals = 18, t_image = None\<rparr>"

definition mainnet_detector :: AssetsDetectionController where
  "mainnet_detector =
     \<lparr>d_config = \<lparr>d_interval = 180000, d_networkType = ''mainnet'',
                   d_selectedAddress = address_2, d_tokens = [token_1]\<rparr>,
      disabled = False\<rparr>"

definition sample_registry :: "(string \<times> ContractMetadata) list" where
  "sample_registry =
     [(address_1, \<lparr>m_erc20 = True, m_symbol = ''ONE'', m_decimals = 18\<rparr>),
      (address_2, \<lparr>m_erc20 = False, m_symbol = ''TWO'', m_decimals = 0\<rparr>)]"

text \<open>Some of the names an array inherits from its prototypes.\<close>

definition sample_inherited :: "string list" where
  "sample_inherited =
     [''constructor'', ''push'', ''pop'', ''map'', ''filter'', ''find'', ''indexOf'',
      ''toString'', ''hasOwnProperty'']"

text \<open>A network on which every call fails, and one whose API knows a contract with a logo.\<close>

definition offline :: Network where
  "offline =
     \<lparr>contractFromApi = (\<lambda>address. None), getAssetName = (\<lambda>address. None),
      getAssetSymbol = (\<lambda>address. None), collectibleFromApi = (\<lambda>address tokenId. None),
      collectibleFromTokenURI = (\<lambda>address tokenId. None)\<rparr>"

definition with_logo :: Network where
  "with_logo =
     offline\<lparr>contractFromApi :=
       (\<lambda>address. Some \<lparr>r_description = None, r_image_url = Some ''https://logo'',
                          r_name = Some ''Contract'', r_symbol = Some ''CON'',
                          r_total_supply = None\<rparr>)\<rparr>"

definition item_7 :: ApiCollectibleResponse where
  "item_7 = \<lparr>a_token_id = 7, a_image_original_url = None, a_name = Some ''seven'',
              a_description = None, a_address = address_1_lower\<rparr>"

definition item_1 :: ApiCollectibleResponse where
  "item_1 = \<lparr>a_token_id = 1, a_image_original_url = None, a_name = Some ''first'',
              a_description = None, a_address = address_1_lower\<rparr>"

definition contract_only :: AssetsController where
  "contract_only =
     new_controller\<lparr>state := defaultState\<lparr>collectibleContracts := [contract_1]\<rparr>\<rparr>"

definition one_ignored :: AssetsController where
  "one_ignored =
     new_controller\<lparr>state := defaultState\<lparr>ignoredCollectibles := [collectible_1]\<rparr>\<rparr>"

definition idle_rates :: "int CurrencyRateController" where
  "idle_rates =
     \<lparr>cr_state = \<lparr>conversionDate = 0, conversionRate = 0, currentCurrency = ''usd'',
                   nativeCurrency = ''ETH'', pendingCurrentCurrency = Some ''eur'',
                   pendingNativeCurrency = None, usdConversionRate = None\<rparr>,
      includeUsdRate = False, intervalDelay = 180000, intervalId = None, intervals = []\<rparr>"

definition failing_fetch :: "string \<Rightarrow> string \<Rightarrow> bool \<Rightarrow> Error + int ExchangeRate" where
  "failing_fetch currency native includeUSDRate = Inl (Error (Fetch_status native))"

definition working_fetch :: "string \<Rightarrow> string \<Rightarrow> bool \<Rightarrow> Error + int ExchangeRate" where
  "working_fetch currency native includeUSDRate =
     Inr \<lparr>f_conversionDate = 1600000000, f_conversionRate = 2000, f_usdConversionRate = 2100\<rparr>"


section \<open>Auxiliary facts\<close>

subsection \<open>Lists and keyed slices\<close>

lemma findIndex_None: "findIndex P xs = None \<longleftrightarrow> (\<forall>x\<in>set xs. \<not> P x)"
  by (induction xs) (auto split: option.splits)

lemma findIndex_Some:
  "findIndex P xs = Some i \<Longrightarrow> i < length xs \<and> P (xs ! i) \<and> (\<forall>j<i. \<not> P (xs ! j))"
proof (induction xs arbitrary: i)
  case Nil
  then show ?case by simp
next
  case (Cons x xs)
  show ?case
  proof (cases "P x")
    case True
    with Cons.prems show ?thesis by simp
  next
    case False
    with Cons.prems obtain k where k: "findIndex P xs = Some k" "i = Suc k"
      by (auto split: option.splits)
    from Cons.IH[OF k(1)] False k(2) show ?thesis
      by (auto simp: less_Suc_eq_0_disj)
  qed
qed

lemma filter_ignoring_eq:
  "filter_ignoring same xs ign =
     (filter (\<lambda>x. \<not> same x) xs,
      if find same ign = None
      then (case find same xs of None \<Rightarrow> ign | Some x \<Rightarrow> ign @ [x])
      else ign)"
proof (induction xs arbitrary: ign)
  case Nil
  then show ?case by simp
next
  case (Cons x xs)
  show ?case
  proof (cases "same x")
    case True
    then show ?thesis
      by (auto simp: Cons.IH find_None_iff)
  next
    case False
    then show ?thesis
      by (simp add: Cons.IH)
  qed
qed

lemma set_slice_twice: "set_slice (set_slice allX cfg xs) cfg ys = set_slice allX cfg ys"
  by (simp add: set_slice_def)

lemma get_set_slice: "get_slice (set_slice allX cfg xs) cfg = Some xs"
  by (simp add: set_slice_def get_slice_def)


lemma find_filter_not [simp]: "find P (filter (\<lambda>x. \<not> P x) xs) = None"
  by (simp add: find_None_iff)

lemma filter_not_twice [simp]: "filter (\<lambda>x. \<not> P x) (filter (\<lambda>x. \<not> P x) xs) = filter (\<lambda>x. \<not> P x) xs"
  by simp

subsection \<open>Removing twice\<close>

lemma removeAndIgnoreToken_twice:
  "removeAndIgnoreToken cs a (removeAndIgnoreToken cs a c) = removeAndIgnoreToken cs a c"
  by (simp add: removeAndIgnoreToken_def Let_def filter_ignoring_eq set_slice_twice)


lemma filter_ignoring_twice:
  "filter_ignoring same (fst (filter_ignoring same xs ign)) (snd (filter_ignoring same xs ign))
     = filter_ignoring same xs ign"
  by (simp add: filter_ignoring_eq)

lemma removeAndIgnoreIndividualCollectible_twice:
  "removeAndIgnoreIndividualCollectible cs a tid (removeAndIgnoreIndividualCollectible cs a tid c)
     = removeAndIgnoreIndividualCollectible cs a tid c"
  by (simp add: removeAndIgnoreIndividualCollectible_def Let_def split_beta
        filter_ignoring_twice set_slice_twice)

lemma removeCollectibleContract_twice:
  "snd (removeCollectibleContract cs a (snd (removeCollectibleContract cs a c)))
     = snd (removeCollectibleContract cs a c)"
  by (simp add: removeCollectibleContract_def Let_def set_slice_twice)

lemma removeCollectibleContract_collectibles:
  "collectibles (state (snd (removeCollectibleContract cs a c))) = collectibles (state c)"
  by (simp add: removeCollectibleContract_def Let_def)

lemma removeAndIgnoreIndividual_commute:
  "removeAndIgnoreIndividualCollectible cs a tid (snd (removeCollectibleContract cs b c))
     = snd (removeCollectibleContract cs b (removeAndIgnoreIndividualCollectible cs a tid c))"
  by (simp add: removeAndIgnoreIndividualCollectible_def removeCollectibleContract_def
        Let_def split_beta)

lemma removeAndIgnoreCollectible_twice:
  "removeAndIgnoreCollectible cs a tid (removeAndIgnoreCollectible cs a tid c)
     = removeAndIgnoreCollectible cs a tid c"
proof -
  let ?F = "removeAndIgnoreIndividualCollectible cs (cs a) tid"
  let ?G = "\<lambda>x. snd (removeCollectibleContract cs (cs a) x)"
  let ?none = "\<lambda>x. find (\<lambda>collectible. c_address collectible = cs a) (collectibles (state x)) = None"
  have R: "removeAndIgnoreCollectible cs a tid x = (if ?none (?F x) then ?G (?F x) else ?F x)" for x
    by (simp add: removeAndIgnoreCollectible_def Let_def)
  show ?thesis
  proof (cases "?none (?F c)")
    case True
    have a: "?F (?G (?F c)) = ?G (?F c)"
      by (simp add: removeAndIgnoreIndividual_commute removeAndIgnoreIndividualCollectible_twice)
    have b: "?none (?G (?F c))"
      using True by (simp add: removeCollectibleContract_collectibles)
    have first: "removeAndIgnoreCollectible cs a tid c = ?G (?F c)"
      using True by (simp add: R)
    have "removeAndIgnoreCollectible cs a tid (?G (?F c))
            = (if ?none (?F (?G (?F c))) then ?G (?F (?G (?F c))) else ?F (?G (?F c)))"
      by (rule R)
    also have "\<dots> = ?G (?G (?F c))"
      by (simp add: a b)
    also have "\<dots> = ?G (?F c)"
      by (rule removeCollectibleContract_twice)
    finally show ?thesis
      by (simp only: first)
  next
    case False
    have first: "removeAndIgnoreCollectible cs a tid c = ?F c"
      using False by (auto simp add: R)
    have "removeAndIgnoreCollectible cs a tid (?F c)
            = (if ?none (?F (?F c)) then ?G (?F (?F c)) else ?F (?F c))"
      by (rule R)
    also have "\<dots> = ?F c"
      using False by (auto simp add: removeAndIgnoreIndividualCollectible_twice)
    finally show ?thesis
      by (simp only: first)
  qed
qed

subsection \<open>What a removal changes\<close>

lemma filter_ignoring_fst: "fst (filter_ignoring same xs ign) = filter (\<lambda>x. \<not> same x) xs"
  by (simp add: filter_ignoring_eq)

lemma filter_ignoring_snd:
  "snd (filter_ignoring same xs ign) =
     (if find same ign = None
      then (case find same xs of None \<Rightarrow> ign | Some x \<Rightarrow> ign @ [x])
      else ign)"
  by (simp add: filter_ignoring_eq)

lemma filter_ignoring_snd_set:
  "set (snd (filter_ignoring same xs ign)) \<subseteq> set ign \<union> {x \<in> set xs. same x}"
  by (auto simp add: filter_ignoring_snd find_Some_iff split: option.splits)

lemma removeCollectibleContract_ignored:
  "ignoredCollectibles (state (snd (removeCollectibleContract cs a c))) = ignoredCollectibles (state c)"
  by (simp add: removeCollectibleContract_def Let_def)

lemma removeAndIgnoreIndividual_ignored:
  "ignoredCollectibles (state (removeAndIgnoreIndividualCollectible cs a tid c)) =
     snd (filter_ignoring (\<lambda>collectible. c_address collectible = cs a \<and> c_tokenId collectible = tid)
            (collectibles (state c)) (ignoredCollectibles (state c)))"
  by (simp add: removeAndIgnoreIndividualCollectible_def Let_def split_beta)

lemma removeAndIgnoreIndividual_collectibles:
  "collectibles (state (removeAndIgnoreIndividualCollectible cs a tid c)) =
     filter (\<lambda>collectible. \<not> (c_address collectible = cs a \<and> c_tokenId collectible = tid))
       (collectibles (state c))"
  by (simp add: removeAndIgnoreIndividualCollectible_def Let_def split_beta filter_ignoring_fst)

lemma removeAndIgnoreIndividual_contracts:
  "collectibleContracts (state (removeAndIgnoreIndividualCollectible cs a tid c)) =
     collectibleContracts (state c)"
  by (simp add: removeAndIgnoreIndividualCollectible_def Let_def split_beta)

lemma removeIndividual_collectibles:
  "collectibles (state (removeIndividualCollectible cs a tid c)) =
     filter (\<lambda>collectible. \<not> (c_address collectible = cs a \<and> c_tokenId collectible = tid))
       (collectibles (state c))"
  by (simp add: removeIndividualCollectible_def Let_def)

lemma removeIndividual_contracts:
  "collectibleContracts (state (removeIndividualCollectible cs a tid c)) =
     collectibleContracts (state c)"
  by (simp add: removeIndividualCollectible_def Let_def)

lemma removeIndividual_ignored:
  "ignoredCollectibles (state (removeIndividualCollectible cs a tid c)) = ignoredCollectibles (state c)"
  by (simp add: removeIndividualCollectible_def Let_def)

lemma removeCollectibleContract_contracts:
  "collectibleContracts (state (snd (removeCollectibleContract cs a c))) =
     filter (\<lambda>collectibleContract. \<not> (cc_address collectibleContract = cs a))
       (collectibleContracts (state c))"
  by (simp add: removeCollectibleContract_def Let_def)

lemma removeAndIgnoreToken_ignored:
  "ignoredTokens (state (removeAndIgnoreToken cs a c)) =
     snd (filter_ignoring (\<lambda>token. t_address token = cs a)
            (tokens (state c)) (ignoredTokens (state c)))"
  by (simp add: removeAndIgnoreToken_def Let_def split_beta)

lemma removeAndIgnoreToken_tokens:
  "tokens (state (removeAndIgnoreToken cs a c)) =
     filter (\<lambda>token. t_address token \<noteq> cs a) (tokens (state c))"
  by (simp add: removeAndIgnoreToken_def Let_def split_beta filter_ignoring_fst)

lemma removeAndIgnoreCollectible_ignored:
  "ignoredCollectibles (state (removeAndIgnoreCollectible cs a tid c)) =
     snd (filter_ignoring (\<lambda>collectible. c_address collectible = cs (cs a) \<and> c_tokenId collectible = tid)
            (collectibles (state c)) (ignoredCollectibles (state c)))"
  by (simp add: removeAndIgnoreCollectible_def Let_def removeCollectibleContract_ignored
        removeAndIgnoreIndividual_ignored)

lemma removeAndIgnoreCollectible_collectibles:
  "collectibles (state (removeAndIgnoreCollectible cs a tid c)) =
     filter (\<lambda>collectible. \<not> (c_address collectible = cs (cs a) \<and> c_tokenId collectible = tid))
       (collectibles (state c))"
  by (simp add: removeAndIgnoreCollectible_def Let_def removeCollectibleContract_collectibles
        removeAndIgnoreIndividual_collectibles)

lemma removeCollectible_collectibles:
  "collectibles (state (removeCollectible cs a tid c)) =
     filter (\<lambda>collectible. \<not> (c_address collectible = cs (cs a) \<and> c_tokenId collectible = tid))
       (collectibles (state c))"
  by (simp add: removeCollectible_def Let_def removeCollectibleContract_collectibles
        removeIndividual_collectibles)

lemma removeCollectible_ignored:
  "ignoredCollectibles (state (removeCollectible cs a tid c)) = ignoredCollectibles (state c)"
  by (simp add: removeCollectible_def Let_def removeCollectibleContract_ignored
        removeIndividual_ignored)


lemma removeCollectible_contracts:
  "collectibleContracts (state (removeCollectible cs a tid c)) =
     (if find (\<lambda>collectible. c_address collectible = cs a)
            (filter (\<lambda>collectible. \<not> (c_address collectible = cs (cs a) \<and> c_tokenId collectible = tid))
               (collectibles (state c))) = None
      then filter (\<lambda>k. \<not> (cc_address k = cs (cs a))) (collectibleContracts (state c))
      else collectibleContracts (state c))"
  by (simp add: removeCollectible_def Let_def removeCollectibleContract_contracts
        removeIndividual_collectibles removeIndividual_contracts)

lemma removeAndIgnoreCollectible_contracts:
  "collectibleContracts (state (removeAndIgnoreCollectible cs a tid c)) =
     (if find (\<lambda>collectible. c_address collectible = cs a)
            (filter (\<lambda>collectible. \<not> (c_address collectible = cs (cs a) \<and> c_tokenId collectible = tid))
               (collectibles (state c))) = None
      then filter (\<lambda>k. \<not> (cc_address k = cs (cs a))) (collectibleContracts (state c))
      else collectibleContracts (state c))"
  by (simp add: removeAndIgnoreCollectible_def Let_def removeCollectibleContract_contracts
        removeAndIgnoreIndividual_collectibles removeAndIgnoreIndividual_contracts)

lemma removeIndividual_keyed_contracts:
  "allCollectibleContracts (state (removeIndividualCollectible cs a tid c)) =
     allCollectibleContracts (state c)"
  by (simp add: removeIndividualCollectible_def Let_def)

lemma removeAndIgnoreIndividual_keyed_contracts:
  "allCollectibleContracts (state (removeAndIgnoreIndividualCollectible cs a tid c)) =
     allCollectibleContracts (state c)"
  by (simp add: removeAndIgnoreIndividualCollectible_def Let_def split_beta)

lemma removeCollectible_keyed_contracts:
  "find (\<lambda>collectible. c_address collectible = cs a)
     (filter (\<lambda>collectible. \<not> (c_address collectible = cs (cs a) \<and> c_tokenId collectible = tid))
        (collectibles (state c))) \<noteq> None
   \<Longrightarrow> allCollectibleContracts (state (removeCollectible cs a tid c)) =
       allCollectibleContracts (state c)"
  by (auto simp add: removeCollectible_def Let_def removeIndividual_collectibles
        removeIndividual_keyed_contracts)

lemma removeAndIgnoreCollectible_keyed_contracts:
  "find (\<lambda>collectible. c_address collectible = cs a)
     (filter (\<lambda>collectible. \<not> (c_address collectible = cs (cs a) \<and> c_tokenId collectible = tid))
        (collectibles (state c))) \<noteq> None
   \<Longrightarrow> allCollectibleContracts (state (removeAndIgnoreCollectible cs a tid c)) =
       allCollectibleContracts (state c)"
  by (auto simp add: removeAndIgnoreCollectible_def Let_def removeAndIgnoreIndividual_collectibles
        removeAndIgnoreIndividual_keyed_contracts)

lemma removeCollectibleContract_frame:
  "allCollectibles (state (snd (removeCollectibleContract cs a c))) = allCollectibles (state c) \<and>
   config (snd (removeCollectibleContract cs a c)) = config c \<and>
   allTokens (state (snd (removeCollectibleContract cs a c))) = allTokens (state c)"
  by (simp add: removeCollectibleContract_def Let_def)

lemma removeCollectibleContract_slice:
  "get_slice (allCollectibleContracts (state (snd (removeCollectibleContract cs a c))))
     (config (snd (removeCollectibleContract cs a c)))
     = Some (collectibleContracts (state (snd (removeCollectibleContract cs a c))))"
  by (simp add: removeCollectibleContract_def Let_def get_set_slice)

lemma removeIndividual_slice:
  "get_slice (allCollectibles (state (removeIndividualCollectible cs a tid c)))
     (config (removeIndividualCollectible cs a tid c))
     = Some (collectibles (state (removeIndividualCollectible cs a tid c)))"
  by (simp add: removeIndividualCollectible_def Let_def get_set_slice)

lemma removeAndIgnoreIndividual_slice:
  "get_slice (allCollectibles (state (removeAndIgnoreIndividualCollectible cs a tid c)))
     (config (removeAndIgnoreIndividualCollectible cs a tid c))
     = Some (collectibles (state (removeAndIgnoreIndividualCollectible cs a tid c)))"
  by (simp add: removeAndIgnoreIndividualCollectible_def Let_def split_beta get_set_slice)

lemma removeCollectible_slice:
  "get_slice (allCollectibles (state (removeCollectible cs a tid c)))
     (config (removeCollectible cs a tid c))
     = Some (collectibles (state (removeCollectible cs a tid c)))"
  by (simp add: removeCollectible_def Let_def removeCollectibleContract_frame
        removeCollectibleContract_collectibles removeIndividual_slice)

lemma removeAndIgnoreCollectible_slice:
  "get_slice (allCollectibles (state (removeAndIgnoreCollectible cs a tid c)))
     (config (removeAndIgnoreCollectible cs a tid c))
     = Some (collectibles (state (removeAndIgnoreCollectible cs a tid c)))"
  by (simp add: removeAndIgnoreCollectible_def Let_def removeCollectibleContract_frame
        removeCollectibleContract_collectibles removeAndIgnoreIndividual_slice)

lemma removeCollectible_contract_slice:
  "find (\<lambda>collectible. c_address collectible = cs a)
     (filter (\<lambda>collectible. \<not> (c_address collectible = cs (cs a) \<and> c_tokenId collectible = tid))
        (collectibles (state c))) = None
   \<Longrightarrow> get_slice (allCollectibleContracts (state (removeCollectible cs a tid c)))
         (config (removeCollectible cs a tid c))
       = Some (collectibleContracts (state (removeCollectible cs a tid c)))"
  by (simp add: removeCollectible_def Let_def removeIndividual_collectibles
        removeCollectibleContract_slice)

lemma removeAndIgnoreCollectible_contract_slice:
  "find (\<lambda>collectible. c_address collectible = cs a)
     (filter (\<lambda>collectible. \<not> (c_address collectible = cs (cs a) \<and> c_tokenId collectible = tid))
        (collectibles (state c))) = None
   \<Longrightarrow> get_slice (allCollectibleContracts (state (removeAndIgnoreCollectible cs a tid c)))
         (config (removeAndIgnoreCollectible cs a tid c))
       = Some (collectibleContracts (state (removeAndIgnoreCollectible cs a tid c)))"
  by (simp add: removeAndIgnoreCollectible_def Let_def removeAndIgnoreIndividual_collectibles
        removeCollectibleContract_slice)

lemma removeAndIgnoreToken_slice:
  "get_slice (allTokens (state (removeAndIgnoreToken cs a c))) (config (removeAndIgnoreToken cs a c))
     = Some (tokens (state (removeAndIgnoreToken cs a c)))"
  by (simp add: removeAndIgnoreToken_def Let_def split_beta get_set_slice)

lemma last_collectible_gone:
  assumes "filter (\<lambda>cl. c_address cl = a) cols = [x]" and "c_tokenId x = tid"
  shows "find (\<lambda>cl. c_address cl = a) (filter (\<lambda>cl. \<not> (c_address cl = a \<and> c_tokenId cl = tid)) cols) = None"
proof -
  have "\<forall>y \<in> set cols. c_address y = a \<longrightarrow> y = x"
  proof (intro ballI impI)
    fix y assume "y \<in> set cols" "c_address y = a"
    then have "y \<in> set (filter (\<lambda>cl. c_address cl = a) cols)" by simp
    then show "y = x" by (simp add: assms(1))
  qed
  then show ?thesis
    using assms(2) by (auto simp add: find_None_iff)
qed

lemma other_collectible_stays:
  assumes "y \<in> set cols" "c_address y = a" "c_tokenId y \<noteq> tid"
  shows "find (\<lambda>cl. c_address cl = a) (filter (\<lambda>cl. \<not> (c_address cl = a \<and> c_tokenId cl = tid)) cols) \<noteq> None"
  using assms by (auto simp add: find_None_iff)


subsection \<open>Active and ignored entities\<close>

lemma no_active_ignored_iff:
  "no_active_ignored c \<longleftrightarrow>
     (\<forall>t \<in> set (tokens (state c)). \<forall>g \<in> set (ignoredTokens (state c)). t_address g \<noteq> t_address t) \<and>
     (\<forall>x \<in> set (collectibles (state c)). \<forall>g \<in> set (ignoredCollectibles (state c)).
        \<not> (c_address g = c_address x \<and> c_tokenId g = c_tokenId x))"
  by (auto simp add: no_active_ignored_def list_all_iff find_None_iff)

lemma no_active_ignored_cong:
  assumes "no_active_ignored c"
    and "set (tokens (state c')) \<subseteq> set (tokens (state c))"
    and "set (ignoredTokens (state c')) \<subseteq> set (ignoredTokens (state c))"
    and "set (collectibles (state c')) \<subseteq> set (collectibles (state c))"
    and "set (ignoredCollectibles (state c')) \<subseteq> set (ignoredCollectibles (state c))"
  shows "no_active_ignored c'"
  using assms unfolding no_active_ignored_iff by blast

lemma removeAndIgnoreToken_other:
  "collectibles (state (removeAndIgnoreToken cs a c)) = collectibles (state c) \<and>
   ignoredCollectibles (state (removeAndIgnoreToken cs a c)) = ignoredCollectibles (state c)"
  by (simp add: removeAndIgnoreToken_def Let_def split_beta)

lemma removeCollectibleContract_tokens:
  "tokens (state (snd (removeCollectibleContract cs a c))) = tokens (state c) \<and>
   ignoredTokens (state (snd (removeCollectibleContract cs a c))) = ignoredTokens (state c)"
  by (simp add: removeCollectibleContract_def Let_def)

lemma removeAndIgnoreIndividual_tokens:
  "tokens (state (removeAndIgnoreIndividualCollectible cs a tid c)) = tokens (state c) \<and>
   ignoredTokens (state (removeAndIgnoreIndividualCollectible cs a tid c)) = ignoredTokens (state c)"
  by (simp add: removeAndIgnoreIndividualCollectible_def Let_def split_beta)

lemma removeIndividual_tokens:
  "tokens (state (removeIndividualCollectible cs a tid c)) = tokens (state c) \<and>
   ignoredTokens (state (removeIndividualCollectible cs a tid c)) = ignoredTokens (state c)"
  by (simp add: removeIndividualCollectible_def Let_def)

lemma removeAndIgnoreCollectible_other:
  "tokens (state (removeAndIgnoreCollectible cs a tid c)) = tokens (state c) \<and>
   ignoredTokens (state (removeAndIgnoreCollectible cs a tid c)) = ignoredTokens (state c)"
  by (simp add: removeAndIgnoreCollectible_def Let_def removeCollectibleContract_tokens
        removeAndIgnoreIndividual_tokens)

lemma removeCollectible_other:
  "tokens (state (removeCollectible cs a tid c)) = tokens (state c) \<and>
   ignoredTokens (state (removeCollectible cs a tid c)) = ignoredTokens (state c)"
  by (simp add: removeCollectible_def Let_def removeCollectibleContract_tokens
        removeIndividual_tokens)

lemma removeToken_fields:
  "tokens (state (removeToken cs a c)) = filter (\<lambda>token. t_address token \<noteq> cs a) (tokens (state c)) \<and>
   ignoredTokens (state (removeToken cs a c)) = ignoredTokens (state c) \<and>
   collectibles (state (removeToken cs a c)) = collectibles (state c) \<and>
   ignoredCollectibles (state (removeToken cs a c)) = ignoredCollectibles (state c)"
  by (simp add: removeToken_def Let_def)

lemma removeAndIgnoreToken_preserves:
  assumes "no_active_ignored c"
  shows "no_active_ignored (removeAndIgnoreToken cs a c)"
proof -
  let ?c' = "removeAndIgnoreToken cs a c"
  have ign: "set (ignoredTokens (state ?c'))
          \<subseteq> set (ignoredTokens (state c)) \<union> {x \<in> set (tokens (state c)). t_address x = cs a}"
    by (simp only: removeAndIgnoreToken_ignored filter_ignoring_snd_set)
  have "t_address g \<noteq> t_address t"
    if "t \<in> set (tokens (state ?c'))" "g \<in> set (ignoredTokens (state ?c'))" for t g
  proof -
    from that(1) have t: "t \<in> set (tokens (state c))" "t_address t \<noteq> cs a"
      by (simp_all add: removeAndIgnoreToken_tokens)
    from that(2) ign have "g \<in> set (ignoredTokens (state c)) \<or> t_address g = cs a"
      by blast
    then show ?thesis
      using t assms unfolding no_active_ignored_iff by auto
  qed
  then show ?thesis
    using assms unfolding no_active_ignored_iff
    by (simp add: removeAndIgnoreToken_other)
qed

lemma removeAndIgnoreCollectible_preserves:
  assumes "no_active_ignored c"
  shows "no_active_ignored (removeAndIgnoreCollectible cs a tid c)"
proof -
  let ?c' = "removeAndIgnoreCollectible cs a tid c"
  have ign: "set (ignoredCollectibles (state ?c'))
          \<subseteq> set (ignoredCollectibles (state c)) \<union>
            {x \<in> set (collectibles (state c)). c_address x = cs (cs a) \<and> c_tokenId x = tid}"
    by (simp only: removeAndIgnoreCollectible_ignored filter_ignoring_snd_set)
  have "\<not> (c_address g = c_address x \<and> c_tokenId g = c_tokenId x)"
    if "x \<in> set (collectibles (state ?c'))" "g \<in> set (ignoredCollectibles (state ?c'))" for x g
  proof -
    from that(1) have x: "x \<in> set (collectibles (state c))"
      "\<not> (c_address x = cs (cs a) \<and> c_tokenId x = tid)"
      by (simp_all add: removeAndIgnoreCollectible_collectibles)
    from that(2) ign have "g \<in> set (ignoredCollectibles (state c)) \<or>
        (c_address g = cs (cs a) \<and> c_tokenId g = tid)"
      by blast
    then show ?thesis
      using x assms unfolding no_active_ignored_iff by auto
  qed
  then show ?thesis
    using assms unfolding no_active_ignored_iff
    by (simp add: removeAndIgnoreCollectible_other)
qed

lemma removeToken_preserves:
  "no_active_ignored c \<Longrightarrow> no_active_ignored (removeToken cs a c)"
  by (erule no_active_ignored_cong) (simp_all add: removeToken_fields)

lemma removeCollectible_preserves:
  "no_active_ignored c \<Longrightarrow> no_active_ignored (removeCollectible cs a tid c)"
  by (erule no_active_ignored_cong)
     (simp_all add: removeCollectible_collectibles removeCollectible_ignored removeCollectible_other)

lemma clearIgnored_preserves:
  "no_active_ignored c \<Longrightarrow>
     no_active_ignored (clearIgnoredTokens c) \<and> no_active_ignored (clearIgnoredCollectibles c)"
  by (simp add: no_active_ignored_iff clearIgnoredTokens_def clearIgnoredCollectibles_def)

lemma put_token_set: "set (put_token e xs) \<subseteq> insert e (set xs)"
  using set_update_subset_insert[of xs _ e]
  by (auto simp add: put_token_def split: option.splits)

lemma addToken_fields:
  "tokens (state (snd (addToken cs a symb dec img c))) =
     put_token \<lparr>t_address = cs a, t_symbol = symb, t_decimals = dec, t_image = img\<rparr> (tokens (state c)) \<and>
   ignoredTokens (state (snd (addToken cs a symb dec img c))) = ignoredTokens (state c) \<and>
   collectibles (state (snd (addToken cs a symb dec img c))) = collectibles (state c) \<and>
   ignoredCollectibles (state (snd (addToken cs a symb dec img c))) = ignoredCollectibles (state c)"
  by (simp add: addToken_def Let_def)

lemma add_tokens_invariant:
  assumes "no_active_ignored c"
    and "set (tokens (state c')) \<subseteq> set (tokens (state c)) \<union> N"
    and "\<forall>t \<in> N. \<forall>g \<in> set (ignoredTokens (state c)). t_address g \<noteq> t_address t"
    and "ignoredTokens (state c') = ignoredTokens (state c)"
    and "collectibles (state c') = collectibles (state c)"
    and "ignoredCollectibles (state c') = ignoredCollectibles (state c)"
  shows "no_active_ignored c'"
  using assms unfolding no_active_ignored_iff by (simp, blast)

lemma addToken_preserves:
  assumes "no_active_ignored c"
    and "find (\<lambda>g. t_address g = cs a) (ignoredTokens (state c)) = None"
  shows "no_active_ignored (snd (addToken cs a symb dec img c))"
proof (rule add_tokens_invariant[OF assms(1),
      where N = "{\<lparr>t_address = cs a, t_symbol = symb, t_decimals = dec, t_image = img\<rparr>}"])
  show "set (tokens (state (snd (addToken cs a symb dec img c))))
          \<subseteq> set (tokens (state c)) \<union> {\<lparr>t_address = cs a, t_symbol = symb, t_decimals = dec, t_image = img\<rparr>}"
    using put_token_set by (simp add: addToken_fields)
  show "\<forall>t \<in> {\<lparr>t_address = cs a, t_symbol = symb, t_decimals = dec, t_image = img\<rparr>}.
          \<forall>g \<in> set (ignoredTokens (state c)). t_address g \<noteq> t_address t"
    using assms(2) by (simp add: find_None_iff)
qed (simp_all add: addToken_fields)

lemma fold_put_token_set:
  "set (fold (\<lambda>t tks. put_token (f t) tks) ts xs) \<subseteq> set xs \<union> f ` set ts"
proof (induction ts arbitrary: xs)
  case Nil
  then show ?case by simp
next
  case (Cons t ts)
  have "set (fold (\<lambda>t tks. put_token (f t) tks) ts (put_token (f t) xs))
          \<subseteq> set (put_token (f t) xs) \<union> f ` set ts"
    by (rule Cons.IH)
  with put_token_set[of "f t" xs] show ?case
    by auto
qed

lemma addTokens_fields:
  "tokens (state (snd (addTokens cs ts c))) =
     fold (\<lambda>tokenToAdd tks. put_token (tokenToAdd\<lparr>t_address := cs (t_address tokenToAdd)\<rparr>) tks)
       ts (tokens (state c)) \<and>
   ignoredTokens (state (snd (addTokens cs ts c))) = ignoredTokens (state c) \<and>
   collectibles (state (snd (addTokens cs ts c))) = collectibles (state c) \<and>
   ignoredCollectibles (state (snd (addTokens cs ts c))) = ignoredCollectibles (state c)"
  by (simp add: addTokens_def Let_def)

lemma addTokens_preserves:
  assumes "no_active_ignored c"
    and "\<forall>t \<in> set ts. find (\<lambda>g. t_address g = cs (t_address t)) (ignoredTokens (state c)) = None"
  shows "no_active_ignored (snd (addTokens cs ts c))"
proof (rule add_tokens_invariant[OF assms(1),
      where N = "(\<lambda>t. t\<lparr>t_address := cs (t_address t)\<rparr>) ` set ts"])
  show "set (tokens (state (snd (addTokens cs ts c))))
          \<subseteq> set (tokens (state c)) \<union> (\<lambda>t. t\<lparr>t_address := cs (t_address t)\<rparr>) ` set ts"
    using fold_put_token_set[of "\<lambda>t. t\<lparr>t_address := cs (t_address t)\<rparr>" ts "tokens (state c)"]
    by (simp add: addTokens_fields)
  show "\<forall>t \<in> (\<lambda>t. t\<lparr>t_address := cs (t_address t)\<rparr>) ` set ts.
          \<forall>g \<in> set (ignoredTokens (state c)). t_address g \<noteq> t_address t"
    using assms(2) by (auto simp add: find_None_iff)
qed (simp_all add: addTokens_fields)

lemma stage_tokens_not_ignored:
  "stage_tokens cs contractMap ign xs = Inr staged \<Longrightarrow>
     \<forall>t \<in> set staged. find (\<lambda>g. t_address g = cs (t_address t)) ign = None"
proof (induction xs arbitrary: staged)
  case Nil
  then show ?case by simp
next
  case (Cons x xs)
  show ?case
  proof (cases "find (\<lambda>token. t_address token = cs x) ign = None")
    case True
    with Cons.prems obtain contract rest where
      "map_of contractMap x = Some contract"
      "stage_tokens cs contractMap ign xs = Inr rest"
      "staged = \<lparr>t_address = x, t_symbol = m_symbol contract,
                  t_decimals = m_decimals contract, t_image = None\<rparr> # rest"
      by (auto simp add: Let_def split: option.splits sum.splits if_splits)
    with Cons.IH[of rest] True show ?thesis
      by simp
  next
    case False
    with Cons.prems have "stage_tokens cs contractMap ign xs = Inr staged"
      by (auto simp add: Let_def split: if_splits)
    then show ?thesis
      by (rule Cons.IH)
  qed
qed

lemma detectTokens_preserves:
  assumes "no_active_ignored c"
  shows "no_active_ignored (detectTokens cs inherited contractMap getBalances d c)"
proof -
  have "no_active_ignored (snd (addTokens cs staged c))"
    if "stage_tokens cs contractMap (ignoredTokens (state c)) xs = Inr staged" for xs staged
    using addTokens_preserves[OF assms stage_tokens_not_ignored[OF that]] .
  then show ?thesis
    using assms by (simp add: detectTokens_def split: option.splits sum.splits)
qed

lemma addCollectibleContract_fields:
  "collectibles (state (snd (addCollectibleContract cs net a det c))) = collectibles (state c) \<and>
   allCollectibles (state (snd (addCollectibleContract cs net a det c))) = allCollectibles (state c) \<and>
   ignoredCollectibles (state (snd (addCollectibleContract cs net a det c))) = ignoredCollectibles (state c) \<and>
   tokens (state (snd (addCollectibleContract cs net a det c))) = tokens (state c) \<and>
   ignoredTokens (state (snd (addCollectibleContract cs net a det c))) = ignoredTokens (state c) \<and>
   config (snd (addCollectibleContract cs net a det c)) = config c"
  by (simp add: addCollectibleContract_def Let_def split: option.splits)

lemma addIndividualCollectible_fields:
  "set (collectibles (state (snd (addIndividualCollectible cs net a tid opts c))))
     \<subseteq> set (collectibles (state c)) \<union> {x. c_address x = cs a \<and> c_tokenId x = tid} \<and>
   ignoredCollectibles (state (snd (addIndividualCollectible cs net a tid opts c))) = ignoredCollectibles (state c) \<and>
   tokens (state (snd (addIndividualCollectible cs net a tid opts c))) = tokens (state c) \<and>
   ignoredTokens (state (snd (addIndividualCollectible cs net a tid opts c))) = ignoredTokens (state c)"
  by (simp add: addIndividualCollectible_def Let_def)

lemma addCollectible_fields:
  "set (collectibles (state (addCollectible cs net a tid opts det c)))
     \<subseteq> set (collectibles (state c)) \<union> {x. c_address x = cs (cs a) \<and> c_tokenId x = tid} \<and>
   ignoredCollectibles (state (addCollectible cs net a tid opts det c)) = ignoredCollectibles (state c) \<and>
   tokens (state (addCollectible cs net a tid opts det c)) = tokens (state c) \<and>
   ignoredTokens (state (addCollectible cs net a tid opts det c)) = ignoredTokens (state c)"
  using addIndividualCollectible_fields[of cs net "cs a" tid opts "snd (addCollectibleContract cs net (cs a) det c)"]
  by (simp add: addCollectible_def Let_def split_beta addCollectibleContract_fields)

lemma detect_add_fields:
  "set (collectibles (state (detect_add cs net item c)))
     \<subseteq> set (collectibles (state c)) \<union>
       {x. c_address x = cs (cs (a_address item)) \<and> c_tokenId x = a_token_id item} \<and>
   ignoredCollectibles (state (detect_add cs net item c)) = ignoredCollectibles (state c) \<and>
   tokens (state (detect_add cs net item c)) = tokens (state c) \<and>
   ignoredTokens (state (detect_add cs net item c)) = ignoredTokens (state c)"
  unfolding detect_add_def by (rule addCollectible_fields)

lemma fold_detect_add_fields:
  "set (collectibles (state (fold (detect_add cs net) items c)))
     \<subseteq> set (collectibles (state c)) \<union>
       {x. \<exists>item \<in> set items. c_address x = cs (cs (a_address item)) \<and> c_tokenId x = a_token_id item} \<and>
   ignoredCollectibles (state (fold (detect_add cs net) items c)) = ignoredCollectibles (state c) \<and>
   tokens (state (fold (detect_add cs net) items c)) = tokens (state c) \<and>
   ignoredTokens (state (fold (detect_add cs net) items c)) = ignoredTokens (state c)"
proof (induction items arbitrary: c)
  case Nil
  then show ?case by simp
next
  case (Cons item items)
  from Cons.IH[of "detect_add cs net item c"] detect_add_fields[of cs net item c]
  show ?case
    by (simp only: fold_simps) auto
qed

lemma add_collectibles_invariant:
  assumes "no_active_ignored c"
    and "set (collectibles (state c')) \<subseteq> set (collectibles (state c)) \<union> N"
    and "\<forall>x \<in> N. \<forall>g \<in> set (ignoredCollectibles (state c)).
           \<not> (c_address g = c_address x \<and> c_tokenId g = c_tokenId x)"
    and "ignoredCollectibles (state c') = ignoredCollectibles (state c)"
    and "tokens (state c') = tokens (state c)"
    and "ignoredTokens (state c') = ignoredTokens (state c)"
  shows "no_active_ignored c'"
  using assms unfolding no_active_ignored_iff by (simp, blast)

lemma addCollectible_preserves:
  assumes "no_active_ignored c" and "\<forall>x. cs (cs x) = cs x"
    and "find (\<lambda>g. c_address g = cs a \<and> c_tokenId g = tid) (ignoredCollectibles (state c)) = None"
  shows "no_active_ignored (addCollectible cs net a tid opts det c)"
proof (rule add_collectibles_invariant[OF assms(1),
      where N = "{x. c_address x = cs (cs a) \<and> c_tokenId x = tid}"])
  show "\<forall>x \<in> {x. c_address x = cs (cs a) \<and> c_tokenId x = tid}.
          \<forall>g \<in> set (ignoredCollectibles (state c)).
            \<not> (c_address g = c_address x \<and> c_tokenId g = c_tokenId x)"
    using assms(2,3) by (auto simp add: find_None_iff)
qed (simp_all add: addCollectible_fields)

lemma not_ignored_iff:
  "not_ignored cs ign item \<longleftrightarrow>
     find (\<lambda>cl. c_address cl = cs (a_address item) \<and> c_tokenId cl = a_token_id item) ign = None"
  by (cases ign) (simp_all add: not_ignored_def)

lemma fold_detect_add_preserves:
  assumes "no_active_ignored c" and "\<forall>x. cs (cs x) = cs x"
    and "\<forall>item \<in> set xs. not_ignored cs (ignoredCollectibles (state c)) item"
  shows "no_active_ignored (fold (detect_add cs net) xs c)"
proof (rule add_collectibles_invariant[OF assms(1),
      where N = "{x. \<exists>item \<in> set xs.
                        c_address x = cs (cs (a_address item)) \<and> c_tokenId x = a_token_id item}"])
  show "set (collectibles (state (fold (detect_add cs net) xs c)))
          \<subseteq> set (collectibles (state c)) \<union>
            {x. \<exists>item \<in> set xs.
                  c_address x = cs (cs (a_address item)) \<and> c_tokenId x = a_token_id item}"
    using fold_detect_add_fields[of cs net xs c] by (rule conjunct1)
  show "\<forall>x \<in> {x. \<exists>item \<in> set xs.
                      c_address x = cs (cs (a_address item)) \<and> c_tokenId x = a_token_id item}.
          \<forall>g \<in> set (ignoredCollectibles (state c)).
            \<not> (c_address g = c_address x \<and> c_tokenId g = c_tokenId x)"
    using assms(2,3) by (auto simp add: not_ignored_iff find_None_iff)
qed (simp_all add: fold_detect_add_fields)

lemma detectCollectibles_preserves:
  assumes "no_active_ignored c" and "\<forall>x. cs (cs x) = cs x"
  shows "no_active_ignored (detectCollectibles cs net owned d c)"
proof -
  have "no_active_ignored
          (fold (detect_add cs net)
             (filter (not_ignored cs (ignoredCollectibles (state c))) items) c)" for items
    by (rule fold_detect_add_preserves[OF assms]) simp
  then show ?thesis
    using assms(1) by (simp add: detectCollectibles_def split: owner_collectibles.splits)
qed

subsection \<open>The sample values\<close>

lemma checksum_on_vectors_simps:
  "checksum_on_vectors address_1_lower = address_1"
  "checksum_on_vectors address_1 = address_1"
  "checksum_on_vectors address_2 = address_2"
  by (simp_all add: checksum_on_vectors_def eip55_vectors_def address_1_lower_def address_1_def
        address_2_def)

lemma checksum_on_vectors_idem: "checksum_on_vectors (checksum_on_vectors x) = checksum_on_vectors x"
  by (simp add: checksum_on_vectors_def eip55_vectors_def)

lemma sample_addresses_differ:
  "address_1 \<noteq> address_2" "address_2 \<noteq> address_1" "address_1_lower \<noteq> address_1"
  by (simp_all add: address_1_def address_2_def address_1_lower_def)

subsection \<open>Hub, promises and suggestions\<close>

lemma emit_state [simp]: "state (emit ev meta c) = state c"
  by (cases ev) simp_all

lemma emit_config [simp]: "config (emit ev meta c) = config c"
  by (cases ev) simp_all

lemma emit_emitted [simp]: "emitted (emit ev meta c) = emitted c @ [(ev, meta)]"
  by (cases ev) simp_all

lemma address_1_lower_valid: "isValidAddress address_1_lower"
  by (simp add: isValidAddress_def address_1_lower_def is_hex_def)

lemma settle_length [simp]: "length (settle p out ps) = length ps"
  by (simp add: settle_def)

lemma settle_nth:
  "p < length ps \<Longrightarrow>
     settle q out ps ! p = (if q = p \<and> ps ! p = None then Some out else ps ! p)"
  by (auto simp add: settle_def nth_list_update)

lemma fold_settle_length [simp]:
  "length (fold (\<lambda>(e, q) ps. if e = i then settle q out ps else ps) ls ps) = length ps"
  by (induction ls arbitrary: ps) (auto simp add: split_beta)

lemma fold_settle_keep:
  "p < length ps \<Longrightarrow> ps ! p = Some v \<Longrightarrow>
     fold (\<lambda>(e, q) ps. if e = i then settle q out ps else ps) ls ps ! p = Some v"
proof (induction ls arbitrary: ps)
  case Nil
  then show ?case by simp
next
  case (Cons l ls)
  obtain e q where l: "l = (e, q)" by (cases l)
  let ?ps = "if e = i then settle q out ps else ps"
  have "p < length ?ps" "?ps ! p = Some v"
    using Cons.prems by (simp_all add: settle_nth)
  from Cons.IH[OF this] show ?case
    by (simp add: l)
qed

lemma fold_settle_hit:
  "(i, p) \<in> set ls \<Longrightarrow> p < length ps \<Longrightarrow> ps ! p = None \<Longrightarrow>
     fold (\<lambda>(e, q) ps. if e = i then settle q out ps else ps) ls ps ! p = Some out"
proof (induction ls arbitrary: ps)
  case Nil
  then show ?case by simp
next
  case (Cons l ls)
  obtain e q where l: "l = (e, q)" by (cases l)
  let ?ps = "if e = i then settle q out ps else ps"
  have len: "p < length ?ps"
    using Cons.prems by simp
  show ?case
  proof (cases "e = i \<and> q = p")
    case True
    then have "?ps ! p = Some out"
      using Cons.prems by (simp add: settle_nth)
    from fold_settle_keep[OF len this, where i = i and out = out and ls = ls] show ?thesis
      by (simp add: l)
  next
    case False
    then have "(i, p) \<in> set ls" "?ps ! p = None"
      using Cons.prems l by (auto simp add: settle_nth)
    from Cons.IH[OF this(1) len this(2)] show ?thesis
      by (simp add: l)
  qed
qed

lemma findIndex_append_fresh:
  "\<forall>m \<in> set xs. \<not> P m \<Longrightarrow> P y \<Longrightarrow> findIndex P (xs @ [y]) = Some (length xs)"
  by (induction xs) simp_all

lemma put_token_mem: "e \<in> set (put_token e xs)"
proof (cases "findIndex (\<lambda>token. t_address token = t_address e) xs")
  case None
  then show ?thesis by (simp add: put_token_def)
next
  case (Some i)
  from findIndex_Some[OF Some] have "i < length xs" by simp
  then show ?thesis
    using Some by (simp add: put_token_def set_update_memI)
qed

lemma filter_fresh:
  "\<forall>m \<in> set xs. s_id m \<noteq> i \<Longrightarrow> filter (\<lambda>m. s_id m \<noteq> i) xs = xs"
  by (induction xs) simp_all

lemma watchAsset_valid:
  assumes "validateTokenToWatch asset = Inr ()"
  shows "watchAsset asset ''ERC20'' random now c =
     (Inr (length (promises c),
           \<lparr>s_asset = asset, s_id = random, s_status = pending, s_time = now, s_type = ''ERC20''\<rparr>),
      c\<lparr>listeners := listeners c @ [(random, length (promises c))],
        promises := promises c @ [None],
        state := (state c)\<lparr>suggestedAssets := suggestedAssets (state c) @
          [\<lparr>s_asset = asset, s_id = random, s_status = pending, s_time = now, s_type = ''ERC20''\<rparr>]\<rparr>,
        emitted := emitted c @ [(PendingSuggestedAsset,
          \<lparr>s_asset = asset, s_id = random, s_status = pending, s_time = now, s_type = ''ERC20''\<rparr>)]\<rparr>)"
  using assms by (simp add: watchAsset_def Let_def)

lemma acceptWatchAsset_found:
  assumes "findIndex (\<lambda>m. i = s_id m) (suggestedAssets (state c)) = Some k"
    and "suggestedAssets (state c) ! k = meta"
    and "s_type meta = ''ERC20''"
  shows "fst (acceptWatchAsset cs i c) = None \<and>
         promises (snd (acceptWatchAsset cs i c)) =
           fold (\<lambda>(e, q) ps. if e = s_id meta
                              then settle q (finished_listener (meta\<lparr>s_status := accepted\<rparr>)) ps
                              else ps)
             (listeners c) (promises c) \<and>
         tokens (state (snd (acceptWatchAsset cs i c))) =
           put_token \<lparr>t_address = cs (t_address (s_asset meta)), t_symbol = t_symbol (s_asset meta),
                       t_decimals = t_decimals (s_asset meta), t_image = t_image (s_asset meta)\<rparr>
             (tokens (state c)) \<and>
         suggestedAssets (state (snd (acceptWatchAsset cs i c))) =
           filter (\<lambda>m. s_id m \<noteq> i) ((suggestedAssets (state c))[k := meta\<lparr>s_status := accepted\<rparr>])"
  using assms by (simp add: acceptWatchAsset_def Let_def addToken_def del: finished_listener.simps)

lemma rejectWatchAsset_found:
  assumes "findIndex (\<lambda>m. i = s_id m) (suggestedAssets (state c)) = Some k"
    and "suggestedAssets (state c) ! k = meta"
  shows "promises (rejectWatchAsset i c) =
           fold (\<lambda>(e, q) ps. if e = s_id meta
                              then settle q (finished_listener (meta\<lparr>s_status := rejected\<rparr>)) ps
                              else ps)
             (listeners c) (promises c) \<and>
         tokens (state (rejectWatchAsset i c)) = tokens (state c) \<and>
         suggestedAssets (state (rejectWatchAsset i c)) =
           filter (\<lambda>m. s_id m \<noteq> i) ((suggestedAssets (state c))[k := meta\<lparr>s_status := rejected\<rparr>])"
  using assms by (simp add: rejectWatchAsset_def Let_def del: finished_listener.simps)

lemma watch_then_settle:
  fixes asset random now c cs
  defines "meta \<equiv> \<lparr>s_asset = asset, s_id = random, s_status = pending, s_time = now,
                      s_type = ''ERC20''\<rparr>"
  defines "p \<equiv> length (promises c)"
  defines "c1 \<equiv> snd (watchAsset asset ''ERC20'' random now c)"
  assumes valid: "validateTokenToWatch asset = Inr ()"
    and fresh: "\<forall>m \<in> set (suggestedAssets (state c)). s_id m \<noteq> random"
  shows "fst (watchAsset asset ''ERC20'' random now c) = Inr (p, meta)"
    and "suggestedAssets (state c1) = suggestedAssets (state c) @ [meta]"
    and "fst (acceptWatchAsset cs random c1) = None"
    and "promises (snd (acceptWatchAsset cs random c1)) ! p = Some (Resolved (t_address asset))"
    and "tokens (state (snd (acceptWatchAsset cs random c1))) =
           put_token \<lparr>t_address = cs (t_address asset), t_symbol = t_symbol asset,
                       t_decimals = t_decimals asset, t_image = t_image asset\<rparr> (tokens (state c))"
    and "suggestedAssets (state (snd (acceptWatchAsset cs random c1))) = suggestedAssets (state c)"
    and "promises (rejectWatchAsset random c1) ! p = Some (Rejected (Error User_rejected))"
    and "tokens (state (rejectWatchAsset random c1)) = tokens (state c)"
    and "suggestedAssets (state (rejectWatchAsset random c1)) = suggestedAssets (state c)"
proof -
  let ?sas = "suggestedAssets (state c)"
  have w: "watchAsset asset ''ERC20'' random now c =
     (Inr (p, meta),
      c\<lparr>listeners := listeners c @ [(random, p)],
        promises := promises c @ [None],
        state := (state c)\<lparr>suggestedAssets := ?sas @ [meta]\<rparr>,
        emitted := emitted c @ [(PendingSuggestedAsset, meta)]\<rparr>)"
    unfolding meta_def p_def by (rule watchAsset_valid[OF valid])
  show "fst (watchAsset asset ''ERC20'' random now c) = Inr (p, meta)"
    by (simp add: w)
  have sas1: "suggestedAssets (state c1) = ?sas @ [meta]"
    and ls1: "listeners c1 = listeners c @ [(random, p)]"
    and ps1: "promises c1 = promises c @ [None]"
    and tk1: "tokens (state c1) = tokens (state c)"
    by (simp_all add: c1_def w)
  show "suggestedAssets (state c1) = ?sas @ [meta]"
    by (rule sas1)
  have idx: "findIndex (\<lambda>m. random = s_id m) (suggestedAssets (state c1)) = Some (length ?sas)"
    unfolding sas1 using fresh by (intro findIndex_append_fresh) (auto simp add: meta_def)
  have at: "suggestedAssets (state c1) ! length ?sas = meta"
    by (simp add: sas1)
  have ty: "s_type meta = ''ERC20''" and id: "s_id meta = random"
    by (simp_all add: meta_def)
  have hit: "fold (\<lambda>(e, q) ps. if e = random then settle q out ps else ps)
               (listeners c1) (promises c1) ! p = Some out" for out
    by (rule fold_settle_hit) (simp_all add: ls1 ps1 p_def)
  have gone: "filter (\<lambda>m. s_id m \<noteq> random) ((suggestedAssets (state c1))[length ?sas := m'])
                = ?sas" if "s_id m' = random" for m'
    using that fresh by (simp add: sas1 filter_fresh)
  note acc = acceptWatchAsset_found[OF idx at ty, of cs]
  show "fst (acceptWatchAsset cs random c1) = None"
    using acc by simp
  show "promises (snd (acceptWatchAsset cs random c1)) ! p = Some (Resolved (t_address asset))"
    using acc hit by (simp add: id) (simp add: meta_def)
  show "tokens (state (snd (acceptWatchAsset cs random c1))) =
           put_token \<lparr>t_address = cs (t_address asset), t_symbol = t_symbol asset,
                       t_decimals = t_decimals asset, t_image = t_image asset\<rparr> (tokens (state c))"
    using acc by (simp add: tk1) (simp add: meta_def)
  show "suggestedAssets (state (snd (acceptWatchAsset cs random c1))) = ?sas"
    using acc gone[of "meta\<lparr>s_status := accepted\<rparr>"] by (simp add: id)
  note rej = rejectWatchAsset_found[OF idx at]
  show "promises (rejectWatchAsset random c1) ! p = Some (Rejected (Error User_rejected))"
    using rej hit by (simp add: id)
  show "tokens (state (rejectWatchAsset random c1)) = tokens (state c)"
    using rej by (simp add: tk1)
  show "suggestedAssets (state (rejectWatchAsset random c1)) = ?sas"
    using rej gone[of "meta\<lparr>s_status := rejected\<rparr>"] by (simp add: id)
qed

lemma good_token_valid: "validateTokenToWatch good_token = Inr ()"
  by (simp add: validateTokenToWatch_def good_token_def parseInt10_def Let_def
        address_1_lower_valid)
     (simp add: address_1_lower_def)

subsection \<open>Candidates of token detection\<close>

lemma show_nat_digits: "set (show_nat n) \<subseteq> set ''0123456789''"
proof (induction n rule: show_nat.induct)
  case (1 n)
  have len: "length ''0123456789'' = 10"
    by simp
  have d: "''0123456789'' ! k \<in> set ''0123456789''" if "k < 10" for k :: nat
    by (rule nth_mem) (simp only: len that)
  show ?case
  proof (cases "n < 10")
    case True
    have "show_nat n = [''0123456789'' ! n]"
      using True by (subst show_nat.simps) simp
    then show ?thesis
      using d[OF True] by simp
  next
    case False
    have "show_nat n = show_nat (n div 10) @ [''0123456789'' ! (n mod 10)]"
      using False by (subst show_nat.simps) simp
    moreover have "''0123456789'' ! (n mod 10) \<in> set ''0123456789''"
      by (rule d) simp
    ultimately show ?thesis
      using "1.IH"[OF False] by simp
  qed
qed

lemma address_is_no_array_property:
  assumes "CHR ''x'' \<in> set key" and "key \<notin> set inherited"
  shows "\<not> js_in inherited key xs"
proof -
  have "key \<noteq> show_nat n" for n
    using show_nat_digits[of n] assms(1) by auto
  moreover have "key \<noteq> ''length''"
    using assms(1) by auto
  ultimately show ?thesis
    using assms(2) by (auto simp add: js_in_def)
qed

lemma tokensToDetect_keeps_tracked:
  assumes "\<forall>key \<in> fst ` set contractMap. CHR ''x'' \<in> set key \<and> key \<notin> set inherited"
  shows "tokensToDetect inherited contractMap d =
           map fst (filter (\<lambda>(address, contract). m_erc20 contract) contractMap)"
proof -
  have "filter (\<lambda>(address, contract). m_erc20 contract \<and> \<not> js_in inherited address xs) contractMap
          = filter (\<lambda>(address, contract). m_erc20 contract) contractMap" for xs :: "Token list"
    using assms by (intro filter_cong refl) (auto simp add: address_is_no_array_property)
  then show ?thesis
    by (simp add: tokensToDetect_def Let_def)
qed

subsection \<open>Adding a collectible\<close>

lemma addCollectibleContract_existing:
  "find (\<lambda>k. cc_address k = cs a) (collectibleContracts (state c)) \<noteq> None \<Longrightarrow>
     addCollectibleContract cs net a det c = (collectibleContracts (state c), c)"
  by (simp add: addCollectibleContract_def Let_def)

lemma addCollectibleContract_new:
  "find (\<lambda>k. cc_address k = cs a) (collectibleContracts (state c)) = None \<Longrightarrow>
     fst (addCollectibleContract cs net a det c) =
       (case getCollectibleContractInformation net (cs a) of
          None \<Rightarrow> collectibleContracts (state c)
        | Some i \<Rightarrow>
            if det \<and> falsy (r_image_url i) then collectibleContracts (state c)
            else collectibleContracts (state c) @
                   [\<lparr>cc_name = r_name i, cc_logo = r_image_url i, cc_address = cs a,
                     cc_symbol = r_symbol i, cc_description = r_description i,
                     cc_totalSupply = r_total_supply i\<rparr>])"
  by (simp add: addCollectibleContract_def Let_def split: option.splits)

lemma addCollectibleContract_refused:
  "find (\<lambda>k. cc_address k = cs a) (collectibleContracts (state c)) = None \<Longrightarrow>
   (\<forall>i. getCollectibleContractInformation net (cs a) = Some i \<longrightarrow> det \<and> falsy (r_image_url i)) \<Longrightarrow>
     addCollectibleContract cs net a det c = (collectibleContracts (state c), c)"
  by (simp add: addCollectibleContract_def Let_def split: option.splits)

lemma addIndividualCollectible_present:
  "find (\<lambda>x. c_address x = cs a \<and> c_tokenId x = tid)
     (collectibles (state (snd (addIndividualCollectible cs net a tid opts c)))) \<noteq> None"
proof (cases "find (\<lambda>x. c_address x = cs a \<and> c_tokenId x = tid) (collectibles (state c))")
  case None
  then have "\<exists>e. c_address e = cs a \<and> c_tokenId e = tid \<and>
      collectibles (state (snd (addIndividualCollectible cs net a tid opts c)))
        = collectibles (state c) @ [e]"
    by (simp add: addIndividualCollectible_def Let_def)
  then obtain e where "c_address e = cs a \<and> c_tokenId e = tid"
    "collectibles (state (snd (addIndividualCollectible cs net a tid opts c)))
        = collectibles (state c) @ [e]"
    by blast
  then show ?thesis
    by (auto simp add: find_None_iff)
next
  case (Some y)
  then show ?thesis
    by (simp add: addIndividualCollectible_def Let_def)
qed

lemma addCollectibleContract_contracts:
  "collectibleContracts (state (snd (addCollectibleContract cs net a det c))) =
     fst (addCollectibleContract cs net a det c)"
  by (simp add: addCollectibleContract_def Let_def split: option.splits)

lemma detected_not_ignored:
  assumes idem: "\<forall>x. cs (cs x) = cs x"
    and x: "x \<in> set (collectibles (state (detectCollectibles cs net owned d c)))"
    and ign: "find (\<lambda>g. c_address g = c_address x \<and> c_tokenId g = c_tokenId x)
                (ignoredCollectibles (state c)) \<noteq> None"
  shows "x \<in> set (collectibles (state c))"
proof (rule ccontr)
  assume new: "x \<notin> set (collectibles (state c))"
  then obtain items where owned: "owned = Assets items"
    and run: "detectCollectibles cs net owned d c =
                fold (detect_add cs net)
                  (filter (not_ignored cs (ignoredCollectibles (state c))) items) c"
    using x by (cases owned) (auto simp add: detectCollectibles_def split: if_splits)
  from x new fold_detect_add_fields[of cs net
      "filter (not_ignored cs (ignoredCollectibles (state c))) items" c]
  obtain item where item: "not_ignored cs (ignoredCollectibles (state c)) item"
    "c_address x = cs (cs (a_address item))" "c_tokenId x = a_token_id item"
    unfolding run by auto
  from item(1) have "find (\<lambda>cl. c_address cl = cs (a_address item) \<and> c_tokenId cl = a_token_id item)
                       (ignoredCollectibles (state c)) = None"
    by (simp add: not_ignored_iff)
  with ign item(2,3) idem show False
    by simp
qed

lemma detect_single:
  assumes "isMainnet d" and "d_selectedAddress (d_config d) \<noteq> []"
  shows "detectCollectibles cs net (Assets [item]) d c =
           (if not_ignored cs (ignoredCollectibles (state c)) item
            then addCollectible cs net (a_address item) (a_token_id item)
                   (Some \<lparr>i_description = a_description item, i_image = a_image_original_url item,
                          i_name = a_name item\<rparr>) True c
            else c)"
  using assms by (simp add: detectCollectibles_def detect_add_def)

lemma addCollectible_refused:
  assumes idem: "\<forall>x. cs (cs x) = cs x"
    and "find (\<lambda>k. cc_address k = cs a) (collectibleContracts (state c)) = None"
    and "\<forall>i. getCollectibleContractInformation net (cs a) = Some i \<longrightarrow> det \<and> falsy (r_image_url i)"
  shows "addCollectible cs net a tid opts det c = c"
proof -
  have i: "cs (cs a) = cs a" using idem by simp
  have "addCollectibleContract cs net (cs a) det c = (collectibleContracts (state c), c)"
    by (rule addCollectibleContract_refused) (simp_all add: i assms(2,3))
  then show ?thesis
    using assms(2) by (simp add: addCollectible_def Let_def)
qed

lemma addCollectible_existing:
  assumes idem: "\<forall>x. cs (cs x) = cs x"
    and "find (\<lambda>k. cc_address k = cs a) (collectibleContracts (state c)) \<noteq> None"
  shows "collectibleContracts (state (addCollectible cs net a tid opts det c))
           = collectibleContracts (state c) \<and>
         find (\<lambda>x. c_address x = cs a \<and> c_tokenId x = tid)
           (collectibles (state (addCollectible cs net a tid opts det c))) \<noteq> None"
proof -
  have i: "cs (cs a) = cs a" using idem by simp
  have e: "addCollectibleContract cs net (cs a) det c = (collectibleContracts (state c), c)"
    by (rule addCollectibleContract_existing) (simp add: i assms(2))
  have run: "addCollectible cs net a tid opts det c =
               snd (addIndividualCollectible cs net (cs a) tid opts c)"
    using assms(2) by (simp add: addCollectible_def Let_def e)
  have "collectibleContracts (state (snd (addIndividualCollectible cs net (cs a) tid opts c)))
          = collectibleContracts (state c)"
    by (simp add: addIndividualCollectible_def Let_def)
  moreover have "find (\<lambda>x. c_address x = cs a \<and> c_tokenId x = tid)
           (collectibles (state (snd (addIndividualCollectible cs net (cs a) tid opts c)))) \<noteq> None"
    using addIndividualCollectible_present[of cs "cs a" tid net opts c] by (simp add: i)
  ultimately show ?thesis
    by (simp add: run)
qed

lemma addIndividualCollectible_lists:
  "collectibles (state (snd (addIndividualCollectible cs net a tid opts c))) =
     (if find (\<lambda>x. c_address x = cs a \<and> c_tokenId x = tid) (collectibles (state c)) \<noteq> None
      then collectibles (state c)
      else collectibles (state c) @
             [\<lparr>c_address = cs a,
               c_description = i_description
                 (case opts of Some o' \<Rightarrow> o' | None \<Rightarrow> getCollectibleInformation net (cs a) tid),
               c_image = i_image
                 (case opts of Some o' \<Rightarrow> o' | None \<Rightarrow> getCollectibleInformation net (cs a) tid),
               c_name = i_name
                 (case opts of Some o' \<Rightarrow> o' | None \<Rightarrow> getCollectibleInformation net (cs a) tid),
               c_tokenId = tid\<rparr>]) \<and>
   collectibleContracts (state (snd (addIndividualCollectible cs net a tid opts c)))
     = collectibleContracts (state c) \<and>
   allCollectibleContracts (state (snd (addIndividualCollectible cs net a tid opts c)))
     = allCollectibleContracts (state c) \<and>
   config (snd (addIndividualCollectible cs net a tid opts c)) = config c"
  by (simp add: addIndividualCollectible_def Let_def)

lemma addIndividualCollectible_slice:
  "find (\<lambda>x. c_address x = cs a \<and> c_tokenId x = tid) (collectibles (state c)) = None \<Longrightarrow>
   get_slice (allCollectibles (state (snd (addIndividualCollectible cs net a tid opts c))))
       (config (snd (addIndividualCollectible cs net a tid opts c)))
     = Some (collectibles (state (snd (addIndividualCollectible cs net a tid opts c))))"
  by (simp add: addIndividualCollectible_def Let_def get_set_slice)

lemma addCollectibleContract_lists:
  "fst (addCollectibleContract cs net a det c) =
     (if find (\<lambda>k. cc_address k = cs a) (collectibleContracts (state c)) \<noteq> None
      then collectibleContracts (state c)
      else case getCollectibleContractInformation net (cs a) of
             None \<Rightarrow> collectibleContracts (state c)
           | Some i \<Rightarrow>
               if det \<and> falsy (r_image_url i) then collectibleContracts (state c)
               else collectibleContracts (state c) @
                      [\<lparr>cc_name = r_name i, cc_logo = r_image_url i, cc_address = cs a,
                        cc_symbol = r_symbol i, cc_description = r_description i,
                        cc_totalSupply = r_total_supply i\<rparr>])"
  by (simp add: addCollectibleContract_def Let_def split: option.splits)

lemma addCollectibleContract_slice:
  "fst (addCollectibleContract cs net a det c) \<noteq> collectibleContracts (state c) \<Longrightarrow>
   get_slice (allCollectibleContracts (state (snd (addCollectibleContract cs net a det c))))
       (config (snd (addCollectibleContract cs net a det c)))
     = Some (fst (addCollectibleContract cs net a det c))"
  by (auto simp add: addCollectibleContract_def Let_def get_set_slice split: option.splits if_splits)

lemma addCollectible_unfold:
  assumes "\<forall>x. cs (cs x) = cs x"
  shows "addCollectible cs net address tokenId opts detection c =
     (if find (\<lambda>k. cc_address k = cs address)
            (fst (addCollectibleContract cs net address detection c)) \<noteq> None
      then snd (addIndividualCollectible cs net address tokenId opts
                  (snd (addCollectibleContract cs net address detection c)))
      else snd (addCollectibleContract cs net address detection c))"
proof -
  have i: "cs (cs address) = cs address"
    using assms by simp
  have same: "addCollectibleContract cs net (cs address) detection c
                = addCollectibleContract cs net address detection c"
    by (simp add: addCollectibleContract_def i)
  have same': "addIndividualCollectible cs net (cs address) tokenId opts x
                = addIndividualCollectible cs net address tokenId opts x" for x
    by (simp add: addIndividualCollectible_def i)
  show ?thesis
    by (simp add: addCollectible_def Let_def split_beta same same')
qed

lemma addCollectible_lists:
  fixes cs net address tokenId opts detection c
  defines "A \<equiv> cs address"
  defines "K \<equiv> collectibleContracts (state c)"
  defines "L \<equiv> collectibles (state c)"
  defines "c' \<equiv> addCollectible cs net address tokenId opts detection c"
  defines "K' \<equiv>
     (if find (\<lambda>k. cc_address k = A) K \<noteq> None then K
      else case getCollectibleContractInformation net A of
             None \<Rightarrow> K
           | Some i \<Rightarrow>
               if detection \<and> falsy (r_image_url i) then K
               else K @ [\<lparr>cc_name = r_name i, cc_logo = r_image_url i, cc_address = A,
                           cc_symbol = r_symbol i, cc_description = r_description i,
                           cc_totalSupply = r_total_supply i\<rparr>])"
  defines "information \<equiv>
     (case opts of Some o' \<Rightarrow> o' | None \<Rightarrow> getCollectibleInformation net (cs address) tokenId)"
  defines "L' \<equiv>
     (if find (\<lambda>k. cc_address k = A) K' = None \<or>
         find (\<lambda>x. c_address x = A \<and> c_tokenId x = tokenId) L \<noteq> None
      then L
      else L @ [\<lparr>c_address = A, c_description = i_description information,
                  c_image = i_image information, c_name = i_name information,
                  c_tokenId = tokenId\<rparr>])"
  assumes idem: "\<forall>x. cs (cs x) = cs x"
  shows "collectibleContracts (state c') = K'"
    and "collectibles (state c') = L'"
    and "K' \<noteq> K \<Longrightarrow> get_slice (allCollectibleContracts (state c')) (config c') = Some K'"
    and "L' \<noteq> L \<Longrightarrow> get_slice (allCollectibles (state c')) (config c') = Some L'"
proof -
  let ?r = "addCollectibleContract cs net address detection c"
  have fstr: "fst ?r = K'"
    unfolding K'_def K_def A_def by (rule addCollectibleContract_lists)
  have sndr: "collectibleContracts (state (snd ?r)) = K'" "collectibles (state (snd ?r)) = L"
    "config (snd ?r) = config c"
    using fstr by (simp_all add: addCollectibleContract_contracts addCollectibleContract_fields L_def)
  have c': "c' = (if find (\<lambda>k. cc_address k = A) K' \<noteq> None
      then snd (addIndividualCollectible cs net address tokenId opts (snd ?r))
      else snd ?r)"
    unfolding c'_def A_def using addCollectible_unfold[OF idem] fstr[unfolded A_def] by simp
  note ind = addIndividualCollectible_lists[of cs net address tokenId opts "snd ?r"]
  show K: "collectibleContracts (state c') = K'"
    by (simp add: c' ind sndr)
  show Leq: "collectibles (state c') = L'"
    by (auto simp add: c' ind sndr L'_def information_def A_def)
  show "get_slice (allCollectibleContracts (state c')) (config c') = Some K'" if "K' \<noteq> K"
  proof -
    from that have "fst ?r \<noteq> collectibleContracts (state c)"
      by (simp add: fstr K_def)
    from addCollectibleContract_slice[OF this]
    show ?thesis
      by (simp add: c' ind fstr)
  qed
  show "get_slice (allCollectibles (state c')) (config c') = Some L'" if "L' \<noteq> L"
  proof -
    from that have has: "find (\<lambda>k. cc_address k = A) K' \<noteq> None"
      and new: "find (\<lambda>x. c_address x = cs address \<and> c_tokenId x = tokenId)
                  (collectibles (state (snd ?r))) = None"
      by (auto simp add: L'_def sndr A_def split: if_splits)
    from has have "c' = snd (addIndividualCollectible cs net address tokenId opts (snd ?r))"
      by (simp add: c')
    with addIndividualCollectible_slice[where cs = cs and a = address and net = net
        and opts = opts, OF new] Leq show ?thesis
      by simp
  qed
qed

lemma detect_step:
  fixes cs net address tokenId opts c
  defines "c1 \<equiv> addCollectible cs net address tokenId opts True c"
  defines "img \<equiv> \<lambda>a. \<exists>i. getCollectibleContractInformation net a = Some i \<and> \<not> falsy (r_image_url i)"
  assumes idem: "\<forall>x. cs (cs x) = cs x"
  shows "(\<exists>k \<in> set (collectibleContracts (state c1)). cc_address k = a) \<longleftrightarrow>
           (\<exists>k \<in> set (collectibleContracts (state c)). cc_address k = a) \<or> (a = cs address \<and> img a)"
    and "set (collectibles (state c)) \<subseteq> set (collectibles (state c1))"
    and "x \<in> set (collectibles (state c1)) \<Longrightarrow> x \<notin> set (collectibles (state c)) \<Longrightarrow>
           c_address x = cs address \<and> c_tokenId x = tokenId \<and>
           (\<exists>k \<in> set (collectibleContracts (state c1)). cc_address k = cs address) \<and>
           c_description x = i_description
             (case opts of Some o' \<Rightarrow> o' | None \<Rightarrow> getCollectibleInformation net (cs address) tokenId) \<and>
           c_image x = i_image
             (case opts of Some o' \<Rightarrow> o' | None \<Rightarrow> getCollectibleInformation net (cs address) tokenId) \<and>
           c_name x = i_name
             (case opts of Some o' \<Rightarrow> o' | None \<Rightarrow> getCollectibleInformation net (cs address) tokenId)"
    and "(\<exists>k \<in> set (collectibleContracts (state c1)). cc_address k = cs address) \<Longrightarrow>
           \<exists>x \<in> set (collectibles (state c1)). c_address x = cs address \<and> c_tokenId x = tokenId"
proof -
  note K = addCollectible_lists(1)[where cs = cs and net = net and address = address
      and tokenId = tokenId and opts = opts and detection = True and c = c, OF idem, folded c1_def]
  note L = addCollectible_lists(2)[where cs = cs and net = net and address = address
      and tokenId = tokenId and opts = opts and detection = True and c = c, OF idem, folded c1_def]
  show "(\<exists>k \<in> set (collectibleContracts (state c1)). cc_address k = a) \<longleftrightarrow>
           (\<exists>k \<in> set (collectibleContracts (state c)). cc_address k = a) \<or> (a = cs address \<and> img a)"
    unfolding K img_def
    by (auto simp add: find_None_iff split: option.splits if_splits)
  show "set (collectibles (state c)) \<subseteq> set (collectibles (state c1))"
    unfolding L by (auto split: if_splits)
  show "c_address x = cs address \<and> c_tokenId x = tokenId \<and>
           (\<exists>k \<in> set (collectibleContracts (state c1)). cc_address k = cs address) \<and>
           c_description x = i_description
             (case opts of Some o' \<Rightarrow> o' | None \<Rightarrow> getCollectibleInformation net (cs address) tokenId) \<and>
           c_image x = i_image
             (case opts of Some o' \<Rightarrow> o' | None \<Rightarrow> getCollectibleInformation net (cs address) tokenId) \<and>
           c_name x = i_name
             (case opts of Some o' \<Rightarrow> o' | None \<Rightarrow> getCollectibleInformation net (cs address) tokenId)"
    if "x \<in> set (collectibles (state c1))" "x \<notin> set (collectibles (state c))"
    using that unfolding L K[symmetric]
    by (auto simp add: find_None_iff split: if_splits)
  show "\<exists>x \<in> set (collectibles (state c1)). c_address x = cs address \<and> c_tokenId x = tokenId"
    if "\<exists>k \<in> set (collectibleContracts (state c1)). cc_address k = cs address"
    using that unfolding L K[symmetric]
    by (auto simp add: find_None_iff split: if_splits)
qed

lemma detect_add_step:
  assumes idem: "\<forall>x. cs (cs x) = cs x"
  shows "(\<exists>k \<in> set (collectibleContracts (state (detect_add cs net item c))). cc_address k = a) \<longleftrightarrow>
           (\<exists>k \<in> set (collectibleContracts (state c)). cc_address k = a) \<or>
           (a = cs (a_address item) \<and> (\<exists>i. getCollectibleContractInformation net a = Some i \<and> \<not> falsy (r_image_url i)))"
    and "set (collectibles (state c)) \<subseteq> set (collectibles (state (detect_add cs net item c)))"
    and "x \<in> set (collectibles (state (detect_add cs net item c))) \<Longrightarrow>
         x \<notin> set (collectibles (state c)) \<Longrightarrow>
           x = \<lparr>c_address = cs (a_address item), c_description = a_description item,
                c_image = a_image_original_url item, c_name = a_name item,
                c_tokenId = a_token_id item\<rparr> \<and>
           (\<exists>k \<in> set (collectibleContracts (state (detect_add cs net item c))).
              cc_address k = cs (a_address item))"
    and "(\<exists>k \<in> set (collectibleContracts (state (detect_add cs net item c))).
            cc_address k = cs (a_address item)) \<Longrightarrow>
           \<exists>x \<in> set (collectibles (state (detect_add cs net item c))).
             c_address x = cs (a_address item) \<and> c_tokenId x = a_token_id item"
proof -
  note s = detect_step[OF idem, where net = net and address = "a_address item"
      and tokenId = "a_token_id item" and c = c
      and opts = "Some \<lparr>i_description = a_description item, i_image = a_image_original_url item,
                         i_name = a_name item\<rparr>", folded detect_add_def]
  show "(\<exists>k \<in> set (collectibleContracts (state (detect_add cs net item c))). cc_address k = a) \<longleftrightarrow>
           (\<exists>k \<in> set (collectibleContracts (state c)). cc_address k = a) \<or>
           (a = cs (a_address item) \<and> (\<exists>i. getCollectibleContractInformation net a = Some i \<and> \<not> falsy (r_image_url i)))"
    using s(1)[of a] by simp
  show "set (collectibles (state c)) \<subseteq> set (collectibles (state (detect_add cs net item c)))"
    by (rule s(2))
  show "x = \<lparr>c_address = cs (a_address item), c_description = a_description item,
                c_image = a_image_original_url item, c_name = a_name item,
                c_tokenId = a_token_id item\<rparr> \<and>
           (\<exists>k \<in> set (collectibleContracts (state (detect_add cs net item c))).
              cc_address k = cs (a_address item))"
    if "x \<in> set (collectibles (state (detect_add cs net item c)))"
       "x \<notin> set (collectibles (state c))"
    using s(3)[OF that] by (cases x) simp
  show "\<exists>x \<in> set (collectibles (state (detect_add cs net item c))).
             c_address x = cs (a_address item) \<and> c_tokenId x = a_token_id item"
    if "\<exists>k \<in> set (collectibleContracts (state (detect_add cs net item c))).
            cc_address k = cs (a_address item)"
    using s(4)[OF that] .
qed

lemma fold_detect_add_contracts:
  assumes idem: "\<forall>x. cs (cs x) = cs x"
  shows "(\<exists>k \<in> set (collectibleContracts (state (fold (detect_add cs net) xs c))). cc_address k = a) \<longleftrightarrow>
           (\<exists>k \<in> set (collectibleContracts (state c)). cc_address k = a) \<or>
           (\<exists>item \<in> set xs. a = cs (a_address item) \<and> (\<exists>i. getCollectibleContractInformation net a = Some i \<and> \<not> falsy (r_image_url i)))"
proof (induction xs arbitrary: c)
  case Nil
  then show ?case by simp
next
  case (Cons y ys)
  show ?case
    using Cons.IH[of "detect_add cs net y c"] detect_add_step(1)[OF idem, of net y c a]
    by (simp only: fold_simps) auto
qed

lemma fold_detect_add_mono:
  assumes idem: "\<forall>x. cs (cs x) = cs x"
  shows "set (collectibles (state c)) \<subseteq> set (collectibles (state (fold (detect_add cs net) xs c)))"
proof (induction xs arbitrary: c)
  case Nil
  then show ?case by simp
next
  case (Cons y ys)
  show ?case
    using Cons.IH[of "detect_add cs net y c"] detect_add_step(2)[OF idem, of c net y]
    by auto
qed

lemma fold_detect_add_new:
  assumes idem: "\<forall>x. cs (cs x) = cs x"
    and "x \<in> set (collectibles (state (fold (detect_add cs net) xs c)))"
    and "x \<notin> set (collectibles (state c))"
  shows "\<exists>item \<in> set xs.
           x = \<lparr>c_address = cs (a_address item), c_description = a_description item,
                c_image = a_image_original_url item, c_name = a_name item,
                c_tokenId = a_token_id item\<rparr> \<and>
           ((\<exists>k \<in> set (collectibleContracts (state c)). cc_address k = cs (a_address item)) \<or>
            (\<exists>i. getCollectibleContractInformation net (cs (a_address item)) = Some i \<and> \<not> falsy (r_image_url i)))"
  using assms(2,3)
proof (induction xs arbitrary: c)
  case Nil
  then show ?case by simp
next
  case (Cons y ys)
  let ?c1 = "detect_add cs net y c"
  show ?case
  proof (cases "x \<in> set (collectibles (state ?c1))")
    case True
    from detect_add_step(3)[OF idem True Cons.prems(2)]
      detect_add_step(1)[OF idem, of net y c "cs (a_address y)"]
    show ?thesis
      by auto
  next
    case False
    from Cons.prems(1) have "x \<in> set (collectibles (state (fold (detect_add cs net) ys ?c1)))"
      by simp
    from Cons.IH[OF this False] obtain item where item: "item \<in> set ys"
      "x = \<lparr>c_address = cs (a_address item), c_description = a_description item,
                c_image = a_image_original_url item, c_name = a_name item,
                c_tokenId = a_token_id item\<rparr>"
      "(\<exists>k \<in> set (collectibleContracts (state ?c1)). cc_address k = cs (a_address item)) \<or>
            (\<exists>i. getCollectibleContractInformation net (cs (a_address item)) = Some i \<and> \<not> falsy (r_image_url i))"
      by blast
    from item(3) detect_add_step(1)[OF idem, of net y c "cs (a_address item)"]
    have "(\<exists>k \<in> set (collectibleContracts (state c)). cc_address k = cs (a_address item)) \<or>
            (\<exists>i. getCollectibleContractInformation net (cs (a_address item)) = Some i \<and> \<not> falsy (r_image_url i))"
      by auto
    with item(1,2) show ?thesis
      by auto
  qed
qed

lemma fold_detect_add_present:
  assumes idem: "\<forall>x. cs (cs x) = cs x"
    and "item \<in> set xs"
    and "(\<exists>k \<in> set (collectibleContracts (state c)). cc_address k = cs (a_address item)) \<or>
         (\<exists>i. getCollectibleContractInformation net (cs (a_address item)) = Some i \<and> \<not> falsy (r_image_url i))"
  shows "\<exists>x \<in> set (collectibles (state (fold (detect_add cs net) xs c))).
           c_address x = cs (a_address item) \<and> c_tokenId x = a_token_id item"
  using assms(2,3)
proof (induction xs arbitrary: c)
  case Nil
  then show ?case by simp
next
  case (Cons y ys)
  let ?c1 = "detect_add cs net y c"
  show ?case
  proof (cases "item = y")
    case True
    from Cons.prems(2) True detect_add_step(1)[OF idem, of net y c "cs (a_address y)"]
    have "\<exists>k \<in> set (collectibleContracts (state ?c1)). cc_address k = cs (a_address y)"
      by auto
    from detect_add_step(4)[OF idem this] obtain x where
      "x \<in> set (collectibles (state ?c1))" "c_address x = cs (a_address y)"
      "c_tokenId x = a_token_id y"
      by blast
    with fold_detect_add_mono[OF idem, of ?c1 net ys] True show ?thesis
      by (simp only: fold_simps) auto
  next
    case False
    with Cons.prems(1) have mem: "item \<in> set ys"
      by simp
    from Cons.prems(2) detect_add_step(1)[OF idem, of net y c "cs (a_address item)"]
    have "(\<exists>k \<in> set (collectibleContracts (state ?c1)). cc_address k = cs (a_address item)) \<or>
         (\<exists>i. getCollectibleContractInformation net (cs (a_address item)) = Some i \<and> \<not> falsy (r_image_url i))"
      by auto
    from Cons.IH[OF mem this] show ?thesis
      by simp
  qed
qed

lemma detectCollectibles_assets:
  "detectCollectibles cs net (Assets items) d c =
     (if isMainnet d \<and> d_selectedAddress (d_config d) \<noteq> []
      then fold (detect_add cs net) (filter (not_ignored cs (ignoredCollectibles (state c))) items) c
      else c)"
  by (simp add: detectCollectibles_def)

lemma detect_add_eta:
  "detect_add cs net =
     (\<lambda>item. addCollectible cs net (a_address item) (a_token_id item)
                (Some \<lparr>i_description = a_description item,
                       i_image = a_image_original_url item, i_name = a_name item\<rparr>) True)"
  by (intro ext) (simp add: detect_add_def)

lemma mainnet_detector_runs:
  "isMainnet mainnet_detector \<and> d_selectedAddress (d_config mainnet_detector) \<noteq> []"
  by (simp add: isMainnet_def mainnet_detector_def address_2_def)

subsection \<open>When an operation keeps active and ignored apart\<close>

lemma put_token_addresses:
  "t_address ` set (put_token e xs) = insert (t_address e) (t_address ` set xs)"
proof (cases "findIndex (\<lambda>token. t_address token = t_address e) xs")
  case None
  then show ?thesis by (simp add: put_token_def)
next
  case (Some i)
  from findIndex_Some[OF Some] have i: "i < length xs" "t_address (xs ! i) = t_address e"
    by simp_all
  have "t_address ` set (xs[i := e]) = insert (t_address e) (t_address ` set xs)"
  proof (intro equalityI subsetI)
    fix a assume "a \<in> t_address ` set (xs[i := e])"
    then show "a \<in> insert (t_address e) (t_address ` set xs)"
      using set_update_subset_insert[of xs i e] by auto
  next
    fix a assume "a \<in> insert (t_address e) (t_address ` set xs)"
    then consider "a = t_address e" | x where "x \<in> set xs" "a = t_address x"
      by auto
    then show "a \<in> t_address ` set (xs[i := e])"
    proof cases
      case 1
      with i(1) show ?thesis
        by (auto intro: set_update_memI)
    next
      case 2
      then obtain j where j: "j < length xs" "xs ! j = x"
        by (auto simp add: in_set_conv_nth)
      show ?thesis
      proof (cases "j = i")
        case True
        with j i 2 have "a = t_address e" by simp
        with i(1) show ?thesis
          by (auto intro: set_update_memI)
      next
        case False
        with j have "xs[i := e] ! j = x" "j < length (xs[i := e])"
          by simp_all
        then have "x \<in> set (xs[i := e])"
          by (metis nth_mem)
        with 2 show ?thesis by auto
      qed
    qed
  qed
  with Some show ?thesis
    by (simp add: put_token_def)
qed

lemma fold_put_token_addresses:
  "t_address ` set (fold (\<lambda>t tks. put_token (f t) tks) ts xs)
     = t_address ` set xs \<union> (\<lambda>t. t_address (f t)) ` set ts"
proof (induction ts arbitrary: xs)
  case Nil
  then show ?case by simp
next
  case (Cons t ts)
  show ?case
    by (auto simp add: Cons.IH put_token_addresses)
qed

lemma tokens_invariant_iff:
  assumes "no_active_ignored c"
    and "t_address ` set (tokens (state c')) = t_address ` set (tokens (state c)) \<union> A"
    and "ignoredTokens (state c') = ignoredTokens (state c)"
    and "collectibles (state c') = collectibles (state c)"
    and "ignoredCollectibles (state c') = ignoredCollectibles (state c)"
  shows "no_active_ignored c' \<longleftrightarrow>
           (\<forall>a \<in> A. find (\<lambda>g. t_address g = a) (ignoredTokens (state c)) = None)"
proof -
  have "no_active_ignored c' \<longleftrightarrow>
          (\<forall>a \<in> t_address ` set (tokens (state c')).
             \<forall>g \<in> set (ignoredTokens (state c)). t_address g \<noteq> a)"
    using assms(1,3,4,5) unfolding no_active_ignored_iff by auto
  also have "\<dots> \<longleftrightarrow> (\<forall>a \<in> A. \<forall>g \<in> set (ignoredTokens (state c)). t_address g \<noteq> a)"
    using assms(1) unfolding assms(2) no_active_ignored_iff by auto
  finally show ?thesis
    by (auto simp add: find_None_iff)
qed

lemma addToken_invariant_iff:
  assumes "no_active_ignored c"
  shows "no_active_ignored (snd (addToken cs a symb dec img c)) \<longleftrightarrow>
           find (\<lambda>g. t_address g = cs a) (ignoredTokens (state c)) = None"
  using tokens_invariant_iff[OF assms, where c' = "snd (addToken cs a symb dec img c)"
      and A = "{cs a}"]
  by (simp add: addToken_fields put_token_addresses)

lemma addTokens_invariant_iff:
  assumes "no_active_ignored c"
  shows "no_active_ignored (snd (addTokens cs ts c)) \<longleftrightarrow>
           (\<forall>t \<in> set ts. find (\<lambda>g. t_address g = cs (t_address t)) (ignoredTokens (state c)) = None)"
  using tokens_invariant_iff[OF assms, where c' = "snd (addTokens cs ts c)"
      and A = "(\<lambda>t. cs (t_address t)) ` set ts"]
    fold_put_token_addresses[of "\<lambda>t. t\<lparr>t_address := cs (t_address t)\<rparr>" ts "tokens (state c)"]
  by (simp add: addTokens_fields)

lemma collectibles_invariant_iff:
  assumes "no_active_ignored c"
    and "set (collectibles (state c')) = set (collectibles (state c)) \<union> N"
    and "ignoredCollectibles (state c') = ignoredCollectibles (state c)"
    and "tokens (state c') = tokens (state c)"
    and "ignoredTokens (state c') = ignoredTokens (state c)"
  shows "no_active_ignored c' \<longleftrightarrow>
           (\<forall>x \<in> N. find (\<lambda>g. c_address g = c_address x \<and> c_tokenId g = c_tokenId x)
                       (ignoredCollectibles (state c)) = None)"
  using assms unfolding no_active_ignored_iff find_None_iff by auto

lemma addCollectible_invariant_iff:
  assumes inv: "no_active_ignored c" and idem: "\<forall>x. cs (cs x) = cs x"
  shows "no_active_ignored (addCollectible cs net a tid opts det c) \<longleftrightarrow>
           find (\<lambda>g. c_address g = cs a \<and> c_tokenId g = tid) (ignoredCollectibles (state c)) = None \<or>
           collectibles (state (addCollectible cs net a tid opts det c)) = collectibles (state c)"
proof -
  let ?c' = "addCollectible cs net a tid opts det c"
  note L = addCollectible_lists(2)[where cs = cs and net = net and address = a
      and tokenId = tid and opts = opts and detection = det and c = c, OF idem]
  show ?thesis
  proof (cases "collectibles (state ?c') = collectibles (state c)")
    case True
    have "no_active_ignored ?c'"
      using collectibles_invariant_iff[OF inv, where c' = ?c' and N = "{}"] True
      by (simp add: addCollectible_fields)
    with True show ?thesis by simp
  next
    case False
    then obtain x where x: "collectibles (state ?c') = collectibles (state c) @ [x]"
      "c_address x = cs a" "c_tokenId x = tid"
      using L by (auto split: if_splits)
    from collectibles_invariant_iff[OF inv, where c' = ?c' and N = "{x}"] x False
    show ?thesis
      by (simp add: addCollectible_fields)
  qed
qed

lemma onPreferencesStateChange_fields:
  "tokens (state (onPreferencesStateChange a c))
     = slice_or_empty (allTokens (state c)) a (chainId (config c))"
  "collectibles (state (onPreferencesStateChange a c))
     = slice_or_empty (allCollectibles (state c)) a (chainId (config c))"
  "collectibleContracts (state (onPreferencesStateChange a c))
     = slice_or_empty (allCollectibleContracts (state c)) a (chainId (config c))"
  "ignoredTokens (state (onPreferencesStateChange a c)) = ignoredTokens (state c)"
  "ignoredCollectibles (state (onPreferencesStateChange a c)) = ignoredCollectibles (state c)"
  "allTokens (state (onPreferencesStateChange a c)) = allTokens (state c)"
  "allCollectibles (state (onPreferencesStateChange a c)) = allCollectibles (state c)"
  "allCollectibleContracts (state (onPreferencesStateChange a c)) = allCollectibleContracts (state c)"
  "config (onPreferencesStateChange a c) = (config c)\<lparr>selectedAddress := a\<rparr>"
  by (simp_all add: onPreferencesStateChange_def Let_def)

lemma onNetworkStateChange_fields:
  "tokens (state (onNetworkStateChange n c))
     = slice_or_empty (allTokens (state c)) (selectedAddress (config c)) n"
  "collectibles (state (onNetworkStateChange n c))
     = slice_or_empty (allCollectibles (state c)) (selectedAddress (config c)) n"
  "collectibleContracts (state (onNetworkStateChange n c))
     = slice_or_empty (allCollectibleContracts (state c)) (selectedAddress (config c)) n"
  "ignoredTokens (state (onNetworkStateChange n c)) = ignoredTokens (state c)"
  "ignoredCollectibles (state (onNetworkStateChange n c)) = ignoredCollectibles (state c)"
  "allTokens (state (onNetworkStateChange n c)) = allTokens (state c)"
  "allCollectibles (state (onNetworkStateChange n c)) = allCollectibles (state c)"
  "allCollectibleContracts (state (onNetworkStateChange n c)) = allCollectibleContracts (state c)"
  "config (onNetworkStateChange n c) = (config c)\<lparr>chainId := n\<rparr>"
  by (simp_all add: onNetworkStateChange_def Let_def)

lemma onPreferencesStateChange_invariant_iff:
  "no_active_ignored (onPreferencesStateChange a c) \<longleftrightarrow>
     list_all (\<lambda>token. find (\<lambda>g. t_address g = t_address token) (ignoredTokens (state c)) = None)
       (slice_or_empty (allTokens (state c)) a (chainId (config c))) \<and>
     list_all (\<lambda>cl. find (\<lambda>g. c_address g = c_address cl \<and> c_tokenId g = c_tokenId cl)
                       (ignoredCollectibles (state c)) = None)
       (slice_or_empty (allCollectibles (state c)) a (chainId (config c)))"
  by (simp add: no_active_ignored_def onPreferencesStateChange_fields)

lemma onNetworkStateChange_invariant_iff:
  "no_active_ignored (onNetworkStateChange n c) \<longleftrightarrow>
     list_all (\<lambda>token. find (\<lambda>g. t_address g = t_address token) (ignoredTokens (state c)) = None)
       (slice_or_empty (allTokens (state c)) (selectedAddress (config c)) n) \<and>
     list_all (\<lambda>cl. find (\<lambda>g. c_address g = c_address cl \<and> c_tokenId g = c_tokenId cl)
                       (ignoredCollectibles (state c)) = None)
       (slice_or_empty (allCollectibles (state c)) (selectedAddress (config c)) n)"
  by (simp add: no_active_ignored_def onNetworkStateChange_fields)

lemma find_findIndex: "find P xs = map_option (\<lambda>i. xs ! i) (findIndex P xs)"
  by (induction xs) (auto split: option.splits)

lemma watchAsset_fields:
  "tokens (state (snd (watchAsset asset type' random now c))) = tokens (state c)"
  "ignoredTokens (state (snd (watchAsset asset type' random now c))) = ignoredTokens (state c)"
  "collectibles (state (snd (watchAsset asset type' random now c))) = collectibles (state c)"
  "ignoredCollectibles (state (snd (watchAsset asset type' random now c)))
     = ignoredCollectibles (state c)"
  by (simp_all add: watchAsset_def failSuggestedAsset_def Let_def split: sum.splits
        del: emit.simps)

lemma rejectWatchAsset_fields:
  "tokens (state (rejectWatchAsset i c)) = tokens (state c)"
  "ignoredTokens (state (rejectWatchAsset i c)) = ignoredTokens (state c)"
  "collectibles (state (rejectWatchAsset i c)) = collectibles (state c)"
  "ignoredCollectibles (state (rejectWatchAsset i c)) = ignoredCollectibles (state c)"
  by (simp_all add: rejectWatchAsset_def Let_def split: option.splits del: emit.simps)

lemma acceptWatchAsset_fields:
  "tokens (state (snd (acceptWatchAsset cs i c))) =
     (case find (\<lambda>m. i = s_id m) (suggestedAssets (state c)) of
        None \<Rightarrow> tokens (state c)
      | Some meta \<Rightarrow>
          if s_type meta = ''ERC20''
          then put_token \<lparr>t_address = cs (t_address (s_asset meta)),
                           t_symbol = t_symbol (s_asset meta),
                           t_decimals = t_decimals (s_asset meta),
                           t_image = t_image (s_asset meta)\<rparr> (tokens (state c))
          else tokens (state c))"
  "ignoredTokens (state (snd (acceptWatchAsset cs i c))) = ignoredTokens (state c)"
  "collectibles (state (snd (acceptWatchAsset cs i c))) = collectibles (state c)"
  "ignoredCollectibles (state (snd (acceptWatchAsset cs i c))) = ignoredCollectibles (state c)"
  by (simp_all add: acceptWatchAsset_def failSuggestedAsset_def Let_def find_findIndex
        addToken_fields split: option.splits sum.splits del: emit.simps)

lemma acceptWatchAsset_invariant_iff:
  assumes "no_active_ignored c"
  shows "no_active_ignored (snd (acceptWatchAsset cs i c)) \<longleftrightarrow>
           (\<forall>meta. find (\<lambda>m. i = s_id m) (suggestedAssets (state c)) = Some meta \<and>
                   s_type meta = ''ERC20''
                   \<longrightarrow> find (\<lambda>g. t_address g = cs (t_address (s_asset meta)))
                         (ignoredTokens (state c)) = None)"
proof (cases "find (\<lambda>m. i = s_id m) (suggestedAssets (state c))")
  case None
  from tokens_invariant_iff[OF assms, where c' = "snd (acceptWatchAsset cs i c)" and A = "{}"]
  show ?thesis
    by (simp add: acceptWatchAsset_fields None)
next
  case (Some meta)
  show ?thesis
  proof (cases "s_type meta = ''ERC20''")
    case True
    from tokens_invariant_iff[OF assms, where c' = "snd (acceptWatchAsset cs i c)"
        and A = "{cs (t_address (s_asset meta))}"]
    show ?thesis
      by (simp add: acceptWatchAsset_fields Some True put_token_addresses)
  next
    case False
    from tokens_invariant_iff[OF assms, where c' = "snd (acceptWatchAsset cs i c)" and A = "{}"]
    show ?thesis
      by (simp add: acceptWatchAsset_fields Some False)
  qed
qed

lemma suggestions_preserve:
  assumes "no_active_ignored c"
  shows "no_active_ignored (snd (watchAsset asset type' random now c))"
    and "no_active_ignored (rejectWatchAsset i c)"
  using assms by (simp_all add: no_active_ignored_def watchAsset_fields rejectWatchAsset_fields)

lemma ignored_there_fields:
  "tokens (state ignored_there) = []"
  "ignoredTokens (state ignored_there) = [token_1]"
  "collectibles (state ignored_there) = []"
  "ignoredCollectibles (state ignored_there) = []"
  "slice_or_empty (allTokens (state ignored_there)) [] (chainId (config ignored_there)) = [token_1]"
  "slice_or_empty (allCollectibles (state ignored_there)) [] (chainId (config ignored_there)) = []"
  by (simp_all add: ignored_there_def added_there_def on_second_account_def added_once_def
        removeAndIgnoreToken_def addToken_def onPreferencesStateChange_def set_slice_def
        slice_or_empty_def put_token_def Let_def new_controller_def defaultState_def
        defaultConfig_def checksum_on_vectors_simps token_1_def address_2_def)

section \<open>Properties of the assets controller\<close>

text \<open>
  Claim C2. \<open>addToken\<close>: when the active token list holds an entry with the
  checksummed address, the first such entry is replaced by the new entry at its
  position and nothing else changes; otherwise the new entry is appended. In both
  cases the active list of the new state and the slice of \<open>allTokens\<close> for the
  selected account and chain are the list returned.
\<close>

theorem addToken_replaces_or_appends:
  assumes "addToken cs address symbol decimals img c = (newTokens, c')"
    and "newEntry = \<lparr>t_address = cs address, t_symbol = symbol, t_decimals = decimals, t_image = img\<rparr>"
    and "old = tokens (state c)"
  shows
  "(if \<exists>token \<in> set old. t_address token = cs address
    then \<exists>i < length old. t_address (old ! i) = cs address \<and>
           (\<forall>j < i. t_address (old ! j) \<noteq> cs address) \<and>
           newTokens = old[i := newEntry] \<and> newTokens ! i = newEntry \<and>
           length newTokens = length old
    else newTokens = old @ [newEntry]) \<and>
   tokens (state c') = newTokens \<and>
   get_slice (allTokens (state c')) (config c') = Some newTokens"
proof -
  let ?P = "\<lambda>token. t_address token = t_address newEntry"
  have P: "?P = (\<lambda>token. t_address token = cs address)"
    using assms(2) by simp
  have new: "newTokens = put_token newEntry old"
    and c': "c' = c\<lparr>state := (state c)\<lparr>allTokens := set_slice (allTokens (state c)) (config c) newTokens,
                                        tokens := newTokens\<rparr>\<rparr>"
    using assms by (auto simp add: addToken_def Let_def)
  have frame: "tokens (state c') = newTokens \<and>
               get_slice (allTokens (state c')) (config c') = Some newTokens"
    by (simp add: c' get_set_slice)
  show ?thesis
  proof (cases "findIndex ?P old")
    case None
    then have "\<not> (\<exists>token \<in> set old. t_address token = cs address)"
      by (simp add: findIndex_None P)
    moreover have "newTokens = old @ [newEntry]"
      using None by (simp add: new put_token_def)
    ultimately show ?thesis
      using frame by simp
  next
    case (Some i)
    from findIndex_Some[OF Some]
    have i: "i < length old" "t_address (old ! i) = cs address"
      "\<forall>j < i. t_address (old ! j) \<noteq> cs address"
      using assms(2) by simp_all
    then have ex: "\<exists>token \<in> set old. t_address token = cs address"
      using nth_mem by blast
    have "newTokens = old[i := newEntry]"
      using Some by (simp add: new put_token_def)
    with i have "\<exists>i < length old. t_address (old ! i) = cs address \<and>
           (\<forall>j < i. t_address (old ! j) \<noteq> cs address) \<and>
           newTokens = old[i := newEntry] \<and> newTokens ! i = newEntry \<and>
           length newTokens = length old"
      by auto
    with ex frame show ?thesis
      by simp
  qed
qed

theorem addToken_replaces_or_appends_witness:
  "fst (addToken checksum_on_vectors address_1_lower ''NEW'' 8 None two_tokens)
     = [\<lparr>t_address = address_1, t_symbol = ''NEW'', t_decimals = 8, t_image = None\<rparr>, token_2] \<and>
   tokens (state (snd (addToken checksum_on_vectors address_1_lower ''NEW'' 8 None two_tokens)))
     = [\<lparr>t_address = address_1, t_symbol = ''NEW'', t_decimals = 8, t_image = None\<rparr>, token_2]"
proof -
  let ?r = "addToken checksum_on_vectors address_1_lower ''NEW'' 8 None two_tokens"
  have cs: "checksum_on_vectors address_1_lower = address_1"
    by (simp add: checksum_on_vectors_def eip55_vectors_def address_1_lower_def address_1_def)
  have old: "tokens (state two_tokens) = [token_1, token_2]"
    by (simp add: two_tokens_def)
  have "?r = (fst ?r, snd ?r)"
    by simp
  from addToken_replaces_or_appends[OF this refl refl]
  show ?thesis
    by (auto simp add: cs old token_1_def token_2_def address_1_def address_2_def less_Suc_eq_0_disj)
qed

text \<open>
  Claim C7. \<open>removeAndIgnoreToken\<close> and \<open>removeAndIgnoreCollectible\<close> are
  idempotent: a second call with the same arguments returns the controller of the
  first call unchanged, so neither the active list nor the ignore list changes.
  The first call removes from the active list, and from its keyed slice, every
  entry with the address (and token id), and appends at most one entry to the
  ignore list: the first active entry it removes, and none when the ignore list
  already holds an entry for the address (and token id).
  \<open>removeAndIgnoreCollectible\<close> applies \<open>cs\<close> twice to its argument.
\<close>

theorem removeAndIgnore_idempotent:
  "removeAndIgnoreToken cs address (removeAndIgnoreToken cs address c)
     = removeAndIgnoreToken cs address c \<and>
   removeAndIgnoreCollectible cs address tokenId (removeAndIgnoreCollectible cs address tokenId c)
     = removeAndIgnoreCollectible cs address tokenId c \<and>
   tokens (state (removeAndIgnoreToken cs address c)) =
     filter (\<lambda>token. t_address token \<noteq> cs address) (tokens (state c)) \<and>
   get_slice (allTokens (state (removeAndIgnoreToken cs address c)))
       (config (removeAndIgnoreToken cs address c))
     = Some (tokens (state (removeAndIgnoreToken cs address c))) \<and>
   ignoredTokens (state (removeAndIgnoreToken cs address c)) =
     (let same = (\<lambda>token. t_address token = cs address); ign = ignoredTokens (state c)
      in if find same ign = None
         then (case find same (tokens (state c)) of None \<Rightarrow> ign | Some token \<Rightarrow> ign @ [token])
         else ign) \<and>
   collectibles (state (removeAndIgnoreCollectible cs address tokenId c)) =
     filter (\<lambda>cl. \<not> (c_address cl = cs (cs address) \<and> c_tokenId cl = tokenId))
       (collectibles (state c)) \<and>
   get_slice (allCollectibles (state (removeAndIgnoreCollectible cs address tokenId c)))
       (config (removeAndIgnoreCollectible cs address tokenId c))
     = Some (collectibles (state (removeAndIgnoreCollectible cs address tokenId c))) \<and>
   ignoredCollectibles (state (removeAndIgnoreCollectible cs address tokenId c)) =
     (let same = (\<lambda>cl. c_address cl = cs (cs address) \<and> c_tokenId cl = tokenId);
          ign = ignoredCollectibles (state c)
      in if find same ign = None
         then (case find same (collectibles (state c)) of None \<Rightarrow> ign | Some cl \<Rightarrow> ign @ [cl])
         else ign)"
  by (simp only: removeAndIgnoreToken_twice removeAndIgnoreCollectible_twice
        removeAndIgnoreToken_ignored removeAndIgnoreCollectible_ignored filter_ignoring_snd
        removeAndIgnoreToken_tokens removeAndIgnoreCollectible_collectibles
        removeAndIgnoreToken_slice[unfolded removeAndIgnoreToken_tokens]
        removeAndIgnoreCollectible_slice[unfolded removeAndIgnoreCollectible_collectibles]
        Let_def simp_thms)

theorem removeAndIgnore_idempotent_witness:
  "removeAndIgnoreToken checksum_on_vectors address_1_lower
     (removeAndIgnoreToken checksum_on_vectors address_1_lower two_tokens)
     = removeAndIgnoreToken checksum_on_vectors address_1_lower two_tokens \<and>
   tokens (state (removeAndIgnoreToken checksum_on_vectors address_1_lower two_tokens))
     = [token_2] \<and>
   ignoredTokens (state (removeAndIgnoreToken checksum_on_vectors address_1_lower two_tokens))
     = [token_1] \<and>
   collectibles (state (removeAndIgnoreCollectible checksum_on_vectors address_1_lower 1
                          two_collectibles))
     = [collectible_2] \<and>
   ignoredCollectibles (state (removeAndIgnoreCollectible checksum_on_vectors address_1_lower 1
                                 two_collectibles))
     = [collectible_1]"
  using removeAndIgnore_idempotent[where cs = checksum_on_vectors and address = address_1_lower
      and c = two_tokens and tokenId = 1]
    removeAndIgnore_idempotent[where cs = checksum_on_vectors and address = address_1_lower
      and c = two_collectibles and tokenId = 1]
  by (simp add: Let_def checksum_on_vectors_simps two_tokens_def two_collectibles_def
        new_controller_def defaultState_def token_1_def token_2_def collectible_1_def
        collectible_2_def sample_addresses_differ)

text \<open>
  Claim C3. For \<open>removeCollectible\<close> and \<open>removeAndIgnoreCollectible\<close> alike, with
  \<open>cs\<close> idempotent as the checksum is: the active collectibles afterwards, and
  their keyed slice, are the old ones without the entries of the address and token
  id. When exactly one active collectible has the contract address and it is the
  one removed, the contract list afterwards, and its keyed slice, are the old list
  without the entries of that address, the other contracts in their order; no
  collectible with the address remains. When another active collectible (another
  token id) has the contract address, the contract list and the keyed contracts
  stay as they are.
\<close>

theorem remove_last_collectible_removes_contract:
  assumes "\<forall>x. cs (cs x) = cs x"
    and "remove = removeCollectible \<or> remove = removeAndIgnoreCollectible"
    and "c' = remove cs address tokenId c"
  shows
  "collectibles (state c') =
     filter (\<lambda>cl. \<not> (c_address cl = cs address \<and> c_tokenId cl = tokenId)) (collectibles (state c)) \<and>
   get_slice (allCollectibles (state c')) (config c') = Some (collectibles (state c')) \<and>
   ((\<exists>x. filter (\<lambda>cl. c_address cl = cs address) (collectibles (state c)) = [x] \<and>
          c_tokenId x = tokenId)
      \<longrightarrow> collectibleContracts (state c') =
            filter (\<lambda>k. cc_address k \<noteq> cs address) (collectibleContracts (state c)) \<and>
          get_slice (allCollectibleContracts (state c')) (config c')
            = Some (collectibleContracts (state c')) \<and>
          find (\<lambda>k. cc_address k = cs address) (collectibleContracts (state c')) = None \<and>
          find (\<lambda>cl. c_address cl = cs address) (collectibles (state c')) = None) \<and>
   ((\<exists>y \<in> set (collectibles (state c)). c_address y = cs address \<and> c_tokenId y \<noteq> tokenId)
      \<longrightarrow> collectibleContracts (state c') = collectibleContracts (state c) \<and>
          allCollectibleContracts (state c') = allCollectibleContracts (state c))"
proof -
  have idem: "cs (cs address) = cs address"
    using assms(1) by simp
  let ?rest = "filter (\<lambda>cl. \<not> (c_address cl = cs address \<and> c_tokenId cl = tokenId))
                 (collectibles (state c))"
  let ?none = "find (\<lambda>cl. c_address cl = cs address) ?rest = None"
  have cols: "collectibles (state c') = ?rest"
    using assms(2,3) by (auto simp add: removeCollectible_collectibles
        removeAndIgnoreCollectible_collectibles idem)
  have slice: "get_slice (allCollectibles (state c')) (config c') = Some (collectibles (state c'))"
    using assms(2,3) by (auto simp add: removeCollectible_slice removeAndIgnoreCollectible_slice)
  have contracts: "collectibleContracts (state c') =
      (if ?none then filter (\<lambda>k. \<not> (cc_address k = cs address)) (collectibleContracts (state c))
       else collectibleContracts (state c))"
    using assms(2,3) by (auto simp add: removeCollectible_contracts
        removeAndIgnoreCollectible_contracts idem)
  have none': "find (\<lambda>collectible. c_address collectible = cs address)
       (filter (\<lambda>collectible. \<not> (c_address collectible = cs (cs address) \<and> c_tokenId collectible = tokenId))
          (collectibles (state c))) = None" if ?none
    using that by (simp add: idem)
  have cslice: "get_slice (allCollectibleContracts (state c')) (config c')
                  = Some (collectibleContracts (state c'))" if ?none
    using assms(2,3) removeCollectible_contract_slice[OF none'[OF that]]
      removeAndIgnoreCollectible_contract_slice[OF none'[OF that]]
    by auto
  have keyed: "allCollectibleContracts (state c') = allCollectibleContracts (state c)" if "\<not> ?none"
  proof -
    from that have "find (\<lambda>collectible. c_address collectible = cs address)
       (filter (\<lambda>collectible. \<not> (c_address collectible = cs (cs address) \<and> c_tokenId collectible = tokenId))
          (collectibles (state c))) \<noteq> None"
      by (auto simp add: idem)
    from removeCollectible_keyed_contracts[OF this] removeAndIgnoreCollectible_keyed_contracts[OF this]
    show ?thesis
      using assms(2,3) by auto
  qed
  have last: ?none
    if "filter (\<lambda>cl. c_address cl = cs address) (collectibles (state c)) = [x]"
      and "c_tokenId x = tokenId" for x
    using last_collectible_gone[OF that] .
  have other: "\<not> ?none"
    if "y \<in> set (collectibles (state c))" "c_address y = cs address" "c_tokenId y \<noteq> tokenId" for y
    using other_collectible_stays[OF that] .
  have a: "collectibleContracts (state c') =
            filter (\<lambda>k. cc_address k \<noteq> cs address) (collectibleContracts (state c)) \<and>
          get_slice (allCollectibleContracts (state c')) (config c')
            = Some (collectibleContracts (state c')) \<and>
          find (\<lambda>k. cc_address k = cs address) (collectibleContracts (state c')) = None \<and>
          find (\<lambda>cl. c_address cl = cs address) (collectibles (state c')) = None"
    if "\<exists>x. filter (\<lambda>cl. c_address cl = cs address) (collectibles (state c)) = [x] \<and>
          c_tokenId x = tokenId"
  proof -
    from that obtain x where "filter (\<lambda>cl. c_address cl = cs address) (collectibles (state c)) = [x]"
      "c_tokenId x = tokenId" by auto
    then have n: ?none by (rule last)
    have "collectibleContracts (state c') =
            filter (\<lambda>k. cc_address k \<noteq> cs address) (collectibleContracts (state c))"
      using n by (simp add: contracts)
    moreover from this have "find (\<lambda>k. cc_address k = cs address) (collectibleContracts (state c')) = None"
      by (simp add: find_None_iff)
    ultimately show ?thesis
      using cslice[OF n] n by (simp add: cols)
  qed
  have b: "collectibleContracts (state c') = collectibleContracts (state c) \<and>
          allCollectibleContracts (state c') = allCollectibleContracts (state c)"
    if "\<exists>y \<in> set (collectibles (state c)). c_address y = cs address \<and> c_tokenId y \<noteq> tokenId"
  proof -
    from that obtain y where "y \<in> set (collectibles (state c))" "c_address y = cs address"
      "c_tokenId y \<noteq> tokenId" by auto
    then have n: "\<not> ?none" by (rule other)
    have "collectibleContracts (state c') = collectibleContracts (state c)"
      unfolding contracts using n by (simp only: if_False)
    with keyed[OF n] show ?thesis
      by simp
  qed
  show ?thesis
    using cols slice a b by (intro conjI impI) simp_all
qed

theorem remove_last_collectible_removes_contract_witness:
  "(\<forall>x. checksum_on_vectors (checksum_on_vectors x) = checksum_on_vectors x) \<and>
   filter (\<lambda>cl. c_address cl = checksum_on_vectors address_1_lower) (collectibles (state one_collectible))
     = [collectible_1] \<and>
   c_tokenId collectible_1 = 1 \<and>
   collectibleContracts (state one_collectible) = [contract_1, contract_2] \<and>
   collectibleContracts
     (state (removeCollectible checksum_on_vectors address_1_lower 1 one_collectible))
     = [contract_2] \<and>
   collectibles (state (removeCollectible checksum_on_vectors address_1_lower 1 one_collectible))
     = [] \<and>
   collectible_2 \<in> set (collectibles (state two_collectibles)) \<and>
   c_address collectible_2 = checksum_on_vectors address_1_lower \<and>
   c_tokenId collectible_2 \<noteq> 1 \<and>
   collectibleContracts
     (state (removeAndIgnoreCollectible checksum_on_vectors address_1_lower 1 two_collectibles))
     = [contract_1] \<and>
   collectibles
     (state (removeAndIgnoreCollectible checksum_on_vectors address_1_lower 1 two_collectibles))
     = [collectible_2]"
proof -
  have idem: "\<forall>x. checksum_on_vectors (checksum_on_vectors x) = checksum_on_vectors x"
    by (simp add: checksum_on_vectors_idem)
  have one: "filter (\<lambda>cl. c_address cl = checksum_on_vectors address_1_lower)
               (collectibles (state one_collectible)) = [collectible_1] \<and>
             c_tokenId collectible_1 = 1 \<and>
             collectibleContracts (state one_collectible) = [contract_1, contract_2] \<and>
             collectibles (state one_collectible) = [collectible_1]"
    by (simp add: checksum_on_vectors_simps one_collectible_def collectible_1_def)
  have two: "collectible_2 \<in> set (collectibles (state two_collectibles)) \<and>
             c_address collectible_2 = checksum_on_vectors address_1_lower \<and>
             c_tokenId collectible_2 \<noteq> 1 \<and>
             collectibleContracts (state two_collectibles) = [contract_1] \<and>
             collectibles (state two_collectibles) = [collectible_1, collectible_2]"
    by (simp add: checksum_on_vectors_simps two_collectibles_def collectible_2_def)
  from remove_last_collectible_removes_contract[OF idem disjI1[OF refl] refl,
      where address = address_1_lower and tokenId = 1 and c = one_collectible] one
  have a: "collectibleContracts
     (state (removeCollectible checksum_on_vectors address_1_lower 1 one_collectible))
     = [contract_2] \<and>
     collectibles (state (removeCollectible checksum_on_vectors address_1_lower 1 one_collectible))
     = []"
    by (simp add: checksum_on_vectors_simps contract_1_def contract_2_def collectible_1_def
          sample_addresses_differ)
  from remove_last_collectible_removes_contract[OF idem disjI2[OF refl] refl,
      where address = address_1_lower and tokenId = 1 and c = two_collectibles] two
  have b: "collectibleContracts
     (state (removeAndIgnoreCollectible checksum_on_vectors address_1_lower 1 two_collectibles))
     = [contract_1] \<and>
     collectibles
     (state (removeAndIgnoreCollectible checksum_on_vectors address_1_lower 1 two_collectibles))
     = [collectible_2]"
    by (auto simp add: checksum_on_vectors_simps collectible_1_def collectible_2_def)
  from idem one two a b show ?thesis
    by (simp add: checksum_on_vectors_simps collectible_1_def)
qed

text \<open>
  Claim C6, as amended, with \<open>cs\<close> idempotent as the checksum is and \<open>c\<close> a
  controller in which no entity is both active and ignored (\<open>no_active_ignored\<close>).

  The initial controller is such a controller. The removals, the clearing of an
  ignore list, both detection passes, \<open>watchAsset\<close> and \<open>rejectWatchAsset\<close> keep the
  property.

  \<open>addToken\<close>, \<open>addTokens\<close>, \<open>addCollectible\<close> and \<open>acceptWatchAsset\<close> leave both
  ignore lists as they are. After \<open>addToken\<close> the active addresses are the old ones
  and the checksummed address; after \<open>addTokens\<close> the old ones and the checksummed
  address of every token of the argument; \<open>addCollectible\<close> changes the active
  collectibles only by appending one with the checksummed address and the token id.
  So \<open>addToken\<close> keeps the property exactly when no ignored token has the
  checksummed address, \<open>addTokens\<close> exactly when that holds of every token of the
  argument, \<open>addCollectible\<close> exactly when no ignored collectible has the address
  and token id or no collectible is added, and \<open>acceptWatchAsset\<close> exactly when
  the suggestion it finds, if it is an ERC20 one, has an address that no ignored
  token has.

  A change of the selected account or of the network replaces the active tokens
  and collectibles by the keyed slices of the new pair of account and chain (empty
  when there is none) and leaves both ignore lists as they are. It keeps the
  property exactly when no entity of these slices is ignored.
\<close>

theorem no_active_ignored_preserved:
  assumes inv: "no_active_ignored c" and idem: "\<forall>x. cs (cs x) = cs x"
  shows
  "no_active_ignored new_controller \<and>
   no_active_ignored (removeAndIgnoreToken cs address c) \<and>
   no_active_ignored (removeAndIgnoreCollectible cs address tokenId c) \<and>
   no_active_ignored (removeToken cs address c) \<and>
   no_active_ignored (removeCollectible cs address tokenId c) \<and>
   no_active_ignored (clearIgnoredTokens c) \<and>
   no_active_ignored (clearIgnoredCollectibles c) \<and>
   no_active_ignored (detectTokens cs inherited contractMap getBalancesInSingleCall d c) \<and>
   no_active_ignored (detectCollectibles cs net getOwnerCollectibles d c) \<and>
   no_active_ignored (snd (watchAsset asset type' random now c)) \<and>
   no_active_ignored (rejectWatchAsset suggestedAssetID c) \<and>
   ignoredTokens (state (snd (addToken cs address symbol decimals img c))) = ignoredTokens (state c) \<and>
   ignoredCollectibles (state (snd (addToken cs address symbol decimals img c))) = ignoredCollectibles (state c) \<and>
   collectibles (state (snd (addToken cs address symbol decimals img c))) = collectibles (state c) \<and>
   t_address ` set (tokens (state (snd (addToken cs address symbol decimals img c))))
     = insert (cs address) (t_address ` set (tokens (state c))) \<and>
   (no_active_ignored (snd (addToken cs address symbol decimals img c)) \<longleftrightarrow>
      find (\<lambda>g. t_address g = cs address) (ignoredTokens (state c)) = None) \<and>
   ignoredTokens (state (snd (addTokens cs tokensToAdd c))) = ignoredTokens (state c) \<and>
   ignoredCollectibles (state (snd (addTokens cs tokensToAdd c))) = ignoredCollectibles (state c) \<and>
   collectibles (state (snd (addTokens cs tokensToAdd c))) = collectibles (state c) \<and>
   t_address ` set (tokens (state (snd (addTokens cs tokensToAdd c))))
     = t_address ` set (tokens (state c)) \<union> (\<lambda>t. cs (t_address t)) ` set tokensToAdd \<and>
   (no_active_ignored (snd (addTokens cs tokensToAdd c)) \<longleftrightarrow>
      (\<forall>t \<in> set tokensToAdd.
         find (\<lambda>g. t_address g = cs (t_address t)) (ignoredTokens (state c)) = None)) \<and>
   ignoredCollectibles (state (addCollectible cs net address tokenId opts detection c)) = ignoredCollectibles (state c) \<and>
   ignoredTokens (state (addCollectible cs net address tokenId opts detection c)) = ignoredTokens (state c) \<and>
   tokens (state (addCollectible cs net address tokenId opts detection c)) = tokens (state c) \<and>
   (collectibles (state (addCollectible cs net address tokenId opts detection c)) \<noteq> collectibles (state c)
      \<longrightarrow> (\<exists>x. c_address x = cs address \<and> c_tokenId x = tokenId \<and>
               collectibles (state (addCollectible cs net address tokenId opts detection c)) = collectibles (state c) @ [x])) \<and>
   (no_active_ignored (addCollectible cs net address tokenId opts detection c) \<longleftrightarrow>
      find (\<lambda>g. c_address g = cs address \<and> c_tokenId g = tokenId)
        (ignoredCollectibles (state c)) = None \<or>
      collectibles (state (addCollectible cs net address tokenId opts detection c)) = collectibles (state c)) \<and>
   ignoredTokens (state (snd (acceptWatchAsset cs suggestedAssetID c))) = ignoredTokens (state c) \<and>
   ignoredCollectibles (state (snd (acceptWatchAsset cs suggestedAssetID c))) = ignoredCollectibles (state c) \<and>
   (no_active_ignored (snd (acceptWatchAsset cs suggestedAssetID c)) \<longleftrightarrow>
      (\<forall>meta. find (\<lambda>m. suggestedAssetID = s_id m) (suggestedAssets (state c)) = Some meta \<and>
              s_type meta = ''ERC20''
              \<longrightarrow> find (\<lambda>g. t_address g = cs (t_address (s_asset meta)))
                    (ignoredTokens (state c)) = None)) \<and>
   tokens (state (onPreferencesStateChange account c))
     = slice_or_empty (allTokens (state c)) (account) (chainId (config c)) \<and>
   collectibles (state (onPreferencesStateChange account c))
     = slice_or_empty (allCollectibles (state c)) (account) (chainId (config c)) \<and>
   ignoredTokens (state (onPreferencesStateChange account c)) = ignoredTokens (state c) \<and>
   ignoredCollectibles (state (onPreferencesStateChange account c)) = ignoredCollectibles (state c) \<and>
   (no_active_ignored (onPreferencesStateChange account c) \<longleftrightarrow>
      list_all (\<lambda>token. find (\<lambda>g. t_address g = t_address token) (ignoredTokens (state c)) = None)
        (slice_or_empty (allTokens (state c)) (account) (chainId (config c))) \<and>
      list_all (\<lambda>cl. find (\<lambda>g. c_address g = c_address cl \<and> c_tokenId g = c_tokenId cl)
                        (ignoredCollectibles (state c)) = None)
        (slice_or_empty (allCollectibles (state c)) (account) (chainId (config c)))) \<and>
   tokens (state (onNetworkStateChange chain c))
     = slice_or_empty (allTokens (state c)) (selectedAddress (config c)) (chain) \<and>
   collectibles (state (onNetworkStateChange chain c))
     = slice_or_empty (allCollectibles (state c)) (selectedAddress (config c)) (chain) \<and>
   ignoredTokens (state (onNetworkStateChange chain c)) = ignoredTokens (state c) \<and>
   ignoredCollectibles (state (onNetworkStateChange chain c)) = ignoredCollectibles (state c) \<and>
   (no_active_ignored (onNetworkStateChange chain c) \<longleftrightarrow>
      list_all (\<lambda>token. find (\<lambda>g. t_address g = t_address token) (ignoredTokens (state c)) = None)
        (slice_or_empty (allTokens (state c)) (selectedAddress (config c)) (chain)) \<and>
      list_all (\<lambda>cl. find (\<lambda>g. c_address g = c_address cl \<and> c_tokenId g = c_tokenId cl)
                        (ignoredCollectibles (state c)) = None)
        (slice_or_empty (allCollectibles (state c)) (selectedAddress (config c)) (chain)))"
proof -
  have c_init: "no_active_ignored new_controller"
    by (simp add: no_active_ignored_def new_controller_def defaultState_def)
  have c_rit: "no_active_ignored (removeAndIgnoreToken cs address c)"
    using inv by (rule removeAndIgnoreToken_preserves)
  have c_ric: "no_active_ignored (removeAndIgnoreCollectible cs address tokenId c)"
    using inv by (rule removeAndIgnoreCollectible_preserves)
  have c_rt: "no_active_ignored (removeToken cs address c)"
    using inv by (rule removeToken_preserves)
  have c_rc: "no_active_ignored (removeCollectible cs address tokenId c)"
    using inv by (rule removeCollectible_preserves)
  have c_cit: "no_active_ignored (clearIgnoredTokens c)"
    using inv by (simp add: clearIgnored_preserves)
  have c_cic: "no_active_ignored (clearIgnoredCollectibles c)"
    using inv by (simp add: clearIgnored_preserves)
  have c_dt: "no_active_ignored (detectTokens cs inherited contractMap getBalancesInSingleCall d c)"
    using inv by (rule detectTokens_preserves)
  have c_dc: "no_active_ignored (detectCollectibles cs net getOwnerCollectibles d c)"
    using inv idem by (rule detectCollectibles_preserves)
  have c_wa: "no_active_ignored (snd (watchAsset asset type' random now c))"
    using inv by (rule suggestions_preserve)
  have c_rj: "no_active_ignored (rejectWatchAsset suggestedAssetID c)"
    using inv by (rule suggestions_preserve)
  have c_at_i: "ignoredTokens (state (snd (addToken cs address symbol decimals img c))) = ignoredTokens (state c)"
    by (simp add: addToken_fields)
  have c_at_ic: "ignoredCollectibles (state (snd (addToken cs address symbol decimals img c))) = ignoredCollectibles (state c)"
    by (simp add: addToken_fields)
  have c_at_c: "collectibles (state (snd (addToken cs address symbol decimals img c))) = collectibles (state c)"
    by (simp add: addToken_fields)
  have c_at_a: "t_address ` set (tokens (state (snd (addToken cs address symbol decimals img c))))
     = insert (cs address) (t_address ` set (tokens (state c)))"
    by (simp add: addToken_fields put_token_addresses)
  have c_at_iff: "(no_active_ignored (snd (addToken cs address symbol decimals img c)) \<longleftrightarrow>
      find (\<lambda>g. t_address g = cs address) (ignoredTokens (state c)) = None)"
    using inv by (rule addToken_invariant_iff)
  have c_ats_i: "ignoredTokens (state (snd (addTokens cs tokensToAdd c))) = ignoredTokens (state c)"
    by (simp add: addTokens_fields)
  have c_ats_ic: "ignoredCollectibles (state (snd (addTokens cs tokensToAdd c))) = ignoredCollectibles (state c)"
    by (simp add: addTokens_fields)
  have c_ats_c: "collectibles (state (snd (addTokens cs tokensToAdd c))) = collectibles (state c)"
    by (simp add: addTokens_fields)
  have c_ats_a: "t_address ` set (tokens (state (snd (addTokens cs tokensToAdd c))))
     = t_address ` set (tokens (state c)) \<union> (\<lambda>t. cs (t_address t)) ` set tokensToAdd"
    using fold_put_token_addresses[of "\<lambda>t. t\<lparr>t_address := cs (t_address t)\<rparr>" tokensToAdd
        "tokens (state c)"]
    by (simp add: addTokens_fields)
  have c_ats_iff: "(no_active_ignored (snd (addTokens cs tokensToAdd c)) \<longleftrightarrow>
      (\<forall>t \<in> set tokensToAdd.
         find (\<lambda>g. t_address g = cs (t_address t)) (ignoredTokens (state c)) = None))"
    using inv by (rule addTokens_invariant_iff)
  have c_ac_i: "ignoredCollectibles (state (addCollectible cs net address tokenId opts detection c)) = ignoredCollectibles (state c)"
    by (simp add: addCollectible_fields)
  have c_ac_it: "ignoredTokens (state (addCollectible cs net address tokenId opts detection c)) = ignoredTokens (state c)"
    by (simp add: addCollectible_fields)
  have c_ac_t: "tokens (state (addCollectible cs net address tokenId opts detection c)) = tokens (state c)"
    by (simp add: addCollectible_fields)
  have c_ac_new: "(collectibles (state (addCollectible cs net address tokenId opts detection c)) \<noteq> collectibles (state c)
      \<longrightarrow> (\<exists>x. c_address x = cs address \<and> c_tokenId x = tokenId \<and>
               collectibles (state (addCollectible cs net address tokenId opts detection c)) = collectibles (state c) @ [x]))"
    using addCollectible_lists(2)[where cs = cs and net = net and address = address
        and tokenId = tokenId and opts = opts and detection = detection and c = c, OF idem]
    by (auto split: if_splits)
  have c_ac_iff: "(no_active_ignored (addCollectible cs net address tokenId opts detection c) \<longleftrightarrow>
      find (\<lambda>g. c_address g = cs address \<and> c_tokenId g = tokenId)
        (ignoredCollectibles (state c)) = None \<or>
      collectibles (state (addCollectible cs net address tokenId opts detection c)) = collectibles (state c))"
    using inv idem by (rule addCollectible_invariant_iff)
  have c_aw_i: "ignoredTokens (state (snd (acceptWatchAsset cs suggestedAssetID c))) = ignoredTokens (state c)"
    by (simp add: acceptWatchAsset_fields)
  have c_aw_ic: "ignoredCollectibles (state (snd (acceptWatchAsset cs suggestedAssetID c))) = ignoredCollectibles (state c)"
    by (simp add: acceptWatchAsset_fields)
  have c_aw_iff: "(no_active_ignored (snd (acceptWatchAsset cs suggestedAssetID c)) \<longleftrightarrow>
      (\<forall>meta. find (\<lambda>m. suggestedAssetID = s_id m) (suggestedAssets (state c)) = Some meta \<and>
              s_type meta = ''ERC20''
              \<longrightarrow> find (\<lambda>g. t_address g = cs (t_address (s_asset meta)))
                    (ignoredTokens (state c)) = None))"
    using inv by (rule acceptWatchAsset_invariant_iff)
  have c_pr_t: "tokens (state (onPreferencesStateChange account c))
     = slice_or_empty (allTokens (state c)) (account) (chainId (config c))"
    by (simp add: onPreferencesStateChange_fields)
  have c_pr_c: "collectibles (state (onPreferencesStateChange account c))
     = slice_or_empty (allCollectibles (state c)) (account) (chainId (config c))"
    by (simp add: onPreferencesStateChange_fields)
  have c_pr_i: "ignoredTokens (state (onPreferencesStateChange account c)) = ignoredTokens (state c)"
    by (simp add: onPreferencesStateChange_fields)
  have c_pr_ic: "ignoredCollectibles (state (onPreferencesStateChange account c)) = ignoredCollectibles (state c)"
    by (simp add: onPreferencesStateChange_fields)
  have c_pr_iff: "(no_active_ignored (onPreferencesStateChange account c) \<longleftrightarrow>
      list_all (\<lambda>token. find (\<lambda>g. t_address g = t_address token) (ignoredTokens (state c)) = None)
        (slice_or_empty (allTokens (state c)) (account) (chainId (config c))) \<and>
      list_all (\<lambda>cl. find (\<lambda>g. c_address g = c_address cl \<and> c_tokenId g = c_tokenId cl)
                        (ignoredCollectibles (state c)) = None)
        (slice_or_empty (allCollectibles (state c)) (account) (chainId (config c))))"
    by (rule onPreferencesStateChange_invariant_iff)
  have c_nw_t: "tokens (state (onNetworkStateChange chain c))
     = slice_or_empty (allTokens (state c)) (selectedAddress (config c)) (chain)"
    by (simp add: onNetworkStateChange_fields)
  have c_nw_c: "collectibles (state (onNetworkStateChange chain c))
     = slice_or_empty (allCollectibles (state c)) (selectedAddress (config c)) (chain)"
    by (simp add: onNetworkStateChange_fields)
  have c_nw_i: "ignoredTokens (state (onNetworkStateChange chain c)) = ignoredTokens (state c)"
    by (simp add: onNetworkStateChange_fields)
  have c_nw_ic: "ignoredCollectibles (state (onNetworkStateChange chain c)) = ignoredCollectibles (state c)"
    by (simp add: onNetworkStateChange_fields)
  have c_nw_iff: "(no_active_ignored (onNetworkStateChange chain c) \<longleftrightarrow>
      list_all (\<lambda>token. find (\<lambda>g. t_address g = t_address token) (ignoredTokens (state c)) = None)
        (slice_or_empty (allTokens (state c)) (selectedAddress (config c)) (chain)) \<and>
      list_all (\<lambda>cl. find (\<lambda>g. c_address g = c_address cl \<and> c_tokenId g = c_tokenId cl)
                        (ignoredCollectibles (state c)) = None)
        (slice_or_empty (allCollectibles (state c)) (selectedAddress (config c)) (chain)))"
    by (rule onNetworkStateChange_invariant_iff)
  show ?thesis
    by (intro conjI; fact)
qed

theorem no_active_ignored_preserved_witness:
  "no_active_ignored two_tokens \<and>
   (\<forall>x. checksum_on_vectors (checksum_on_vectors x) = checksum_on_vectors x) \<and>
   no_active_ignored (removeAndIgnoreToken checksum_on_vectors address_1_lower two_tokens) \<and>
   find (\<lambda>g. t_address g = checksum_on_vectors address_1_lower) (ignoredTokens (state two_tokens)) = None \<and>
   no_active_ignored (snd (addToken checksum_on_vectors address_1_lower ''NEW'' 8 None two_tokens)) \<and>
   no_active_ignored ignored_there \<and>
   tokens (state ignored_there) = [] \<and>
   ignoredTokens (state ignored_there) = [token_1] \<and>
   \<not> no_active_ignored
        (snd (addToken checksum_on_vectors address_1_lower ''ONE'' 18 None ignored_there)) \<and>
   slice_or_empty (allTokens (state ignored_there)) [] (chainId (config ignored_there))
     = [token_1] \<and>
   tokens (state (onPreferencesStateChange [] ignored_there)) = [token_1] \<and>
   ignoredTokens (state (onPreferencesStateChange [] ignored_there)) = [token_1] \<and>
   \<not> no_active_ignored (onPreferencesStateChange [] ignored_there)"
proof -
  have inv: "no_active_ignored two_tokens"
    by (simp add: no_active_ignored_def two_tokens_def new_controller_def defaultState_def)
  have idem: "\<forall>x. checksum_on_vectors (checksum_on_vectors x) = checksum_on_vectors x"
    by (simp add: checksum_on_vectors_idem)
  have fresh: "find (\<lambda>g. t_address g = checksum_on_vectors address_1_lower)
                 (ignoredTokens (state two_tokens)) = None"
    by (simp add: two_tokens_def new_controller_def defaultState_def)
  have there: "no_active_ignored ignored_there"
    by (simp add: no_active_ignored_def ignored_there_fields)
  have stale: "find (\<lambda>g. t_address g = checksum_on_vectors address_1_lower)
                 (ignoredTokens (state ignored_there)) \<noteq> None"
    by (simp add: ignored_there_fields checksum_on_vectors_simps token_1_def)
  note t = no_active_ignored_preserved[OF inv idem, where address = address_1_lower
      and symbol = "''NEW''" and decimals = 8 and img = None]
  note u = no_active_ignored_preserved[OF there idem, where address = address_1_lower
      and symbol = "''ONE''" and decimals = 18 and img = None and account = "[]"]
  from t[THEN conjunct2, THEN conjunct1]
  have a: "no_active_ignored (removeAndIgnoreToken checksum_on_vectors address_1_lower two_tokens)" .
  from t[THEN conjunct2, THEN conjunct2, THEN conjunct2, THEN conjunct2, THEN conjunct2, THEN conjunct2, THEN conjunct2, THEN conjunct2, THEN conjunct2, THEN conjunct2, THEN conjunct2, THEN conjunct2, THEN conjunct2, THEN conjunct2, THEN conjunct2, THEN conjunct1] fresh
  have b: "no_active_ignored (snd (addToken checksum_on_vectors address_1_lower ''NEW'' 8 None
             two_tokens))"
    by simp
  from u[THEN conjunct2, THEN conjunct2, THEN conjunct2, THEN conjunct2, THEN conjunct2, THEN conjunct2, THEN conjunct2, THEN conjunct2, THEN conjunct2, THEN conjunct2, THEN conjunct2, THEN conjunct2, THEN conjunct2, THEN conjunct2, THEN conjunct2, THEN conjunct1] stale
  have c: "\<not> no_active_ignored
        (snd (addToken checksum_on_vectors address_1_lower ''ONE'' 18 None ignored_there))"
    by simp
  from u[THEN conjunct2, THEN conjunct2, THEN conjunct2, THEN conjunct2, THEN conjunct2, THEN conjunct2, THEN conjunct2, THEN conjunct2, THEN conjunct2, THEN conjunct2, THEN conjunct2, THEN conjunct2, THEN conjunct2, THEN conjunct2, THEN conjunct2, THEN conjunct2, THEN conjunct2, THEN conjunct2, THEN conjunct2, THEN conjunct2, THEN conjunct2, THEN conjunct2, THEN conjunct2, THEN conjunct2, THEN conjunct2, THEN conjunct2, THEN conjunct2, THEN conjunct2, THEN conjunct2, THEN conjunct1]
  have d: "tokens (state (onPreferencesStateChange [] ignored_there)) = [token_1]"
    by (simp add: ignored_there_fields)
  from u[THEN conjunct2, THEN conjunct2, THEN conjunct2, THEN conjunct2, THEN conjunct2, THEN conjunct2, THEN conjunct2, THEN conjunct2, THEN conjunct2, THEN conjunct2, THEN conjunct2, THEN conjunct2, THEN conjunct2, THEN conjunct2, THEN conjunct2, THEN conjunct2, THEN conjunct2, THEN conjunct2, THEN conjunct2, THEN conjunct2, THEN conjunct2, THEN conjunct2, THEN conjunct2, THEN conjunct2, THEN conjunct2, THEN conjunct2, THEN conjunct2, THEN conjunct2, THEN conjunct2, THEN conjunct2, THEN conjunct2, THEN conjunct1]
  have e: "ignoredTokens (state (onPreferencesStateChange [] ignored_there)) = [token_1]"
    by (simp add: ignored_there_fields)
  from u[THEN conjunct2, THEN conjunct2, THEN conjunct2, THEN conjunct2, THEN conjunct2, THEN conjunct2, THEN conjunct2, THEN conjunct2, THEN conjunct2, THEN conjunct2, THEN conjunct2, THEN conjunct2, THEN conjunct2, THEN conjunct2, THEN conjunct2, THEN conjunct2, THEN conjunct2, THEN conjunct2, THEN conjunct2, THEN conjunct2, THEN conjunct2, THEN conjunct2, THEN conjunct2, THEN conjunct2, THEN conjunct2, THEN conjunct2, THEN conjunct2, THEN conjunct2, THEN conjunct2, THEN conjunct2, THEN conjunct2, THEN conjunct2, THEN conjunct2, THEN conjunct1]
  have f: "\<not> no_active_ignored (onPreferencesStateChange [] ignored_there)"
    by (simp add: ignored_there_fields)
  from inv idem a fresh b there ignored_there_fields(1,2,5) c d e f
  show ?thesis
    by (simp only: simp_thms)
qed

text \<open>
  Claim C6 as stated fails: from the initial controller, adding a token, removing
  and ignoring it, and adding it again gives a state whose active list and ignore
  list both hold the token.
\<close>

theorem readded_token_counterexample:
  "no_active_ignored new_controller \<and> no_active_ignored added_once \<and>
   no_active_ignored then_ignored \<and> \<not> no_active_ignored added_again"
proof -
  have t1: "tokens (state added_once) = [token_1]"
    and i1: "ignoredTokens (state added_once) = []"
    and c1: "collectibles (state added_once) = []"
    by (simp_all add: added_once_def addToken_fields checksum_on_vectors_simps put_token_def
          new_controller_def defaultState_def token_1_def)
  have t2: "tokens (state then_ignored) = []"
    and i2: "ignoredTokens (state then_ignored) = [token_1]"
    and c2: "collectibles (state then_ignored) = []"
    by (simp_all add: then_ignored_def removeAndIgnoreToken_tokens removeAndIgnoreToken_ignored
          removeAndIgnoreToken_other checksum_on_vectors_simps t1 i1 c1 token_1_def)
  have t3: "tokens (state added_again) = [token_1]"
    and i3: "ignoredTokens (state added_again) = [token_1]"
    by (simp_all add: added_again_def addToken_fields checksum_on_vectors_simps put_token_def
          t2 i2 token_1_def)
  show ?thesis
    by (simp add: no_active_ignored_def t1 i1 c1 t2 i2 c2 t3 i3 new_controller_def defaultState_def)
qed

section \<open>Properties of the suggestion workflow\<close>

text \<open>
  Claim C1, as amended. For a valid ERC20 asset and a fresh identifier,
  \<open>watchAsset\<close> stores a pending record and returns a new promise. After
  \<open>acceptWatchAsset\<close> the promise is resolved with the address of the asset as it
  was passed to \<open>watchAsset\<close>, the active token list holds a token with the
  checksummed address, and the list of suggested assets is what it was before the
  request. After \<open>rejectWatchAsset\<close> instead, the promise is rejected with the
  error "User rejected to watch the asset.", the active token list is what it was
  before the request, and so is the list of suggested assets.
\<close>

theorem watchAsset_then_accept_or_reject:
  assumes "validateTokenToWatch asset = Inr ()"
    and "\<forall>m \<in> set (suggestedAssets (state c)). s_id m \<noteq> random"
    and "watchAsset asset ''ERC20'' random now c = (r, c1)"
    and "acceptWatchAsset cs random c1 = (thrown, c2)"
    and "rejectWatchAsset random c1 = c3"
  shows
  "(\<exists>meta. r = Inr (length (promises c), meta) \<and> s_id meta = random \<and> s_asset meta = asset \<and>
           suggestedAssets (state c1) = suggestedAssets (state c) @ [meta]) \<and>
   thrown = None \<and>
   promises c2 ! length (promises c) = Some (Resolved (t_address asset)) \<and>
   (\<exists>token \<in> set (tokens (state c2)). t_address token = cs (t_address asset)) \<and>
   suggestedAssets (state c2) = suggestedAssets (state c) \<and>
   promises c3 ! length (promises c) = Some (Rejected (Error User_rejected)) \<and>
   tokens (state c3) = tokens (state c) \<and>
   suggestedAssets (state c3) = suggestedAssets (state c)"
proof -
  have c1: "c1 = snd (watchAsset asset ''ERC20'' random now c)"
    and r: "r = fst (watchAsset asset ''ERC20'' random now c)"
    by (simp_all add: assms(3))
  have c2: "c2 = snd (acceptWatchAsset cs random c1)"
    and thrown: "thrown = fst (acceptWatchAsset cs random c1)"
    by (simp_all add: assms(4))
  note facts = watch_then_settle[OF assms(1,2)]
  have "\<lparr>t_address = cs (t_address asset), t_symbol = t_symbol asset,
          t_decimals = t_decimals asset, t_image = t_image asset\<rparr> \<in> set (tokens (state c2))"
    unfolding c2 c1 facts(5) by (rule put_token_mem)
  then have present: "\<exists>token \<in> set (tokens (state c2)). t_address token = cs (t_address asset)"
    by force
  have c3: "c3 = rejectWatchAsset random (snd (watchAsset asset ''ERC20'' random now c))"
    using assms(5) by (simp add: c1)
  show ?thesis
    using present by (simp add: r c2 thrown c3 c1 facts)
qed

theorem watchAsset_then_accept_or_reject_witness:
  "validateTokenToWatch good_token = Inr () \<and>
   suggestedAssets (state new_controller) = [] \<and>
   promises (snd (acceptWatchAsset checksum_on_vectors ''id-1''
                    (snd (watchAsset good_token ''ERC20'' ''id-1'' 0 new_controller)))) ! 0
     = Some (Resolved address_1_lower) \<and>
   (\<exists>token \<in> set (tokens (state (snd (acceptWatchAsset checksum_on_vectors ''id-1''
                    (snd (watchAsset good_token ''ERC20'' ''id-1'' 0 new_controller)))))).
      t_address token = address_1) \<and>
   promises (rejectWatchAsset ''id-1''
               (snd (watchAsset good_token ''ERC20'' ''id-1'' 0 new_controller))) ! 0
     = Some (Rejected (Error User_rejected)) \<and>
   tokens (state (rejectWatchAsset ''id-1''
               (snd (watchAsset good_token ''ERC20'' ''id-1'' 0 new_controller)))) = []"
proof -
  have fresh: "\<forall>m \<in> set (suggestedAssets (state new_controller)). s_id m \<noteq> ''id-1''"
    by (simp add: new_controller_def defaultState_def)
  from watchAsset_then_accept_or_reject[OF good_token_valid fresh prod.collapse[symmetric]
      prod.collapse[symmetric] refl, where now = 0 and cs = checksum_on_vectors]
    good_token_valid fresh
  show ?thesis
    by (simp add: new_controller_def defaultState_def good_token_def checksum_on_vectors_simps)
qed

text \<open>
  Claim C1 as stated fails: for an asset given with a lower-case address the
  promise resolves with that lower-case address, which is not the checksummed one.
\<close>

theorem resolved_address_counterexample:
  "promises (snd (acceptWatchAsset checksum_on_vectors ''id-1''
                    (snd (watchAsset good_token ''ERC20'' ''id-1'' 0 new_controller)))) ! 0
     = Some (Resolved address_1_lower) \<and>
   checksum_on_vectors (t_address good_token) = address_1 \<and>
   address_1_lower \<noteq> address_1"
proof -
  have fresh: "\<forall>m \<in> set (suggestedAssets (state new_controller)). s_id m \<noteq> ''id-1''"
    by (simp add: new_controller_def defaultState_def)
  from watch_then_settle(4)[OF good_token_valid fresh, where now = 0 and cs = checksum_on_vectors]
  show ?thesis
    by (simp add: new_controller_def good_token_def checksum_on_vectors_simps
          sample_addresses_differ)
qed

text \<open>
  Claim C8, as amended. When the payload fails the ERC20 validation, \<open>watchAsset\<close>
  rejects with the validation error and emits, as \<open><id>:finished\<close>, a copy of the
  suggestion whose status is \<open>failed\<close> with that error. The state is left as it
  was: no suggestion is stored. With a fresh identifier no listener hears the
  event, and promises and listeners are unchanged too.
\<close>

theorem watchAsset_invalid_rejects:
  assumes "validateTokenToWatch asset = Inl error"
  shows
  "watchAsset asset ''ERC20'' random now c =
     (Inl error,
      emit (Finished random)
        \<lparr>s_asset = asset, s_id = random, s_status = failed error, s_time = now, s_type = ''ERC20''\<rparr> c) \<and>
   state (snd (watchAsset asset ''ERC20'' random now c)) = state c \<and>
   emitted (snd (watchAsset asset ''ERC20'' random now c)) =
     emitted c @ [(Finished random,
        \<lparr>s_asset = asset, s_id = random, s_status = failed error, s_time = now, s_type = ''ERC20''\<rparr>)] \<and>
   ((\<forall>l \<in> set (listeners c). fst l \<noteq> random)
      \<longrightarrow> promises (snd (watchAsset asset ''ERC20'' random now c)) = promises c \<and>
          listeners (snd (watchAsset asset ''ERC20'' random now c)) = listeners c)"
proof -
  have w: "watchAsset asset ''ERC20'' random now c =
     (Inl error,
      emit (Finished random)
        \<lparr>s_asset = asset, s_id = random, s_status = failed error, s_time = now, s_type = ''ERC20''\<rparr> c)"
    using assms by (simp add: watchAsset_def failSuggestedAsset_def Let_def del: emit.simps)
  have quiet: "fold (\<lambda>(e, p) ps. if e = random then settle p out ps else ps) ls ps = ps"
    if "\<forall>l \<in> set ls. fst l \<noteq> random" for ls ps out
    using that by (induction ls arbitrary: ps) (auto simp add: split_beta)
  have keep: "filter (\<lambda>(e, p). e \<noteq> random) ls = ls"
    if "\<forall>l \<in> set ls. fst l \<noteq> random" for ls :: "(string \<times> nat) list"
    using that by (induction ls) (auto simp add: split_beta)
  show ?thesis
    by (simp add: w quiet keep)
qed

theorem watchAsset_invalid_rejects_witness:
  "validateTokenToWatch bad_decimals = Inl (InvalidParams (Invalid_decimals 37)) \<and>
   fst (watchAsset bad_decimals ''ERC20'' ''id-1'' 0 new_controller)
     = Inl (InvalidParams (Invalid_decimals 37)) \<and>
   state (snd (watchAsset bad_decimals ''ERC20'' ''id-1'' 0 new_controller)) = defaultState \<and>
   emitted (snd (watchAsset bad_decimals ''ERC20'' ''id-1'' 0 new_controller)) =
     [(Finished ''id-1'',
       \<lparr>s_asset = bad_decimals, s_id = ''id-1'',
         s_status = failed (InvalidParams (Invalid_decimals 37)), s_time = 0, s_type = ''ERC20''\<rparr>)]"
proof -
  have v: "validateTokenToWatch bad_decimals = Inl (InvalidParams (Invalid_decimals 37))"
    by (simp add: validateTokenToWatch_def bad_decimals_def parseInt10_def Let_def
          address_1_lower_def)
  from watchAsset_invalid_rejects[OF v, of "''id-1''" 0 new_controller] v
  show ?thesis
    by (simp add: new_controller_def)
qed

text \<open>
  Claim C8 as stated fails: after a request with 37 decimals on the initial
  controller, which rejects with the validation error, the list of suggested
  assets is empty.
\<close>

theorem decimals_37_counterexample:
  "fst (watchAsset bad_decimals ''ERC20'' ''id-1'' 0 new_controller)
     = Inl (InvalidParams (Invalid_decimals 37)) \<and>
   suggestedAssets (state (snd (watchAsset bad_decimals ''ERC20'' ''id-1'' 0 new_controller))) = []"
proof -
  have v: "validateTokenToWatch bad_decimals = Inl (InvalidParams (Invalid_decimals 37))"
    by (simp add: validateTokenToWatch_def bad_decimals_def parseInt10_def Let_def
          address_1_lower_def)
  show ?thesis
    by (simp add: watchAsset_def v failSuggestedAsset_def Let_def new_controller_def
          defaultState_def)
qed

text \<open>
  Claim C10. For an identifier that no suggested asset carries,
  \<open>acceptWatchAsset\<close> rejects with the \<open>TypeError\<close> of reading \<open>id\<close> of
  \<open>undefined\<close> and leaves the controller, and so the list of suggested assets,
  as it was; \<open>rejectWatchAsset\<close> returns with the controller as it was.
\<close>

theorem unknown_suggestion_accept_throws_reject_returns:
  assumes "\<forall>m \<in> set (suggestedAssets (state c)). s_id m \<noteq> suggestedAssetID"
  shows "acceptWatchAsset cs suggestedAssetID c
           = (Some (TypeError (Property_of_undefined ''id'')), c) \<and>
         rejectWatchAsset suggestedAssetID c = c"
proof -
  have "findIndex (\<lambda>m. suggestedAssetID = s_id m) (suggestedAssets (state c)) = None"
    using assms by (auto simp add: findIndex_None)
  then show ?thesis
    by (simp add: acceptWatchAsset_def rejectWatchAsset_def failSuggestedAsset_def)
qed

theorem unknown_suggestion_accept_throws_reject_returns_witness:
  "suggestedAssets (state new_controller) = [] \<and>
   acceptWatchAsset checksum_on_vectors ''unknown'' new_controller
     = (Some (TypeError (Property_of_undefined ''id'')), new_controller) \<and>
   rejectWatchAsset ''unknown'' new_controller = new_controller"
proof -
  have h: "\<forall>m \<in> set (suggestedAssets (state new_controller)). s_id m \<noteq> ''unknown''"
    by (simp add: new_controller_def defaultState_def)
  from unknown_suggestion_accept_throws_reject_returns[OF h, of checksum_on_vectors]
  show ?thesis by (simp add: new_controller_def defaultState_def)
qed

section \<open>Properties of the detection passes\<close>

text \<open>
  Claim C4, as amended, with \<open>cs\<close> idempotent as the checksum is; \<open>after\<close> is the
  controller after a collectible detection pass over the items \<open>items\<close> of the
  response, \<open>c'\<close> the controller after one \<open>addCollectible\<close>.

  The pass. A collectible active after a pass that matches an ignored entry in
  address and token id was active before: the pass does not add it. An item is
  skipped exactly when an ignored entry has its checksummed address and token id.
  On the main network with an account selected, the pass is \<open>addCollectible\<close> with
  \<open>detection = true\<close> and the fields of the item, run over every item of the
  response that is not ignored, in order; otherwise, and when the response is
  missing or unusable, it changes nothing. After the pass every item that is not
  ignored and whose contract has an entry already or resolves to metadata with an
  image URL is active; every collectible that the pass made active is the entry of
  such an item; no active collectible is lost; the contract addresses with an entry
  are the old ones and those of the items that are not ignored and resolve to
  metadata with an image URL; the ignore list is unchanged.

  One add. The contract list after \<open>addCollectible\<close> is the old one when an entry
  has the checksummed address, when no metadata is resolved, or when under
  detection the metadata has no image URL; otherwise it is the old one with the
  resolved entry appended. The collectibles after it are the old ones when no
  contract entry has the address afterwards or the collectible is active already;
  otherwise the old ones with the new collectible appended. The keyed slices follow
  each list that changed. So under detection a new contract entry, and with it the
  collectible, is created exactly when the resolved metadata has a non-empty image
  URL, a manual add creates it exactly when the resolved metadata is not the empty
  object, and when a contract entry has the address already no metadata is
  resolved, the contract list stays, and the collectible is active afterwards.
\<close>

theorem detection_skips_ignored_and_wants_logo:
  assumes idem: "\<forall>x. cs (cs x) = cs x"
    and after: "after = detectCollectibles cs net (Assets items) d c"
    and added: "c' = addCollectible cs net address tokenId opts detection c"
  shows
  "(\<forall>x \<in> set (collectibles (state (detectCollectibles cs net getOwnerCollectibles d c))).
      find (\<lambda>g. c_address g = c_address x \<and> c_tokenId g = c_tokenId x)
        (ignoredCollectibles (state c)) \<noteq> None
      \<longrightarrow> x \<in> set (collectibles (state c))) \<and>
   (not_ignored cs (ignoredCollectibles (state c)) item \<longleftrightarrow>
      find (\<lambda>g. c_address g = cs (a_address item) \<and> c_tokenId g = a_token_id item)
        (ignoredCollectibles (state c)) = None) \<and>
   (isMainnet d \<and> d_selectedAddress (d_config d) \<noteq> []
      \<longrightarrow> after = fold (\<lambda>item. addCollectible cs net (a_address item) (a_token_id item)
                     (Some \<lparr>i_description = a_description item,
                            i_image = a_image_original_url item, i_name = a_name item\<rparr>) True)
                   (filter (not_ignored cs (ignoredCollectibles (state c))) items) c) \<and>
   (\<not> (isMainnet d \<and> d_selectedAddress (d_config d) \<noteq> []) \<longrightarrow> after = c) \<and>
   detectCollectibles cs net Fetch_failed d c = c \<and>
   detectCollectibles cs net Body_unusable d c = c \<and>
   (isMainnet d \<and> d_selectedAddress (d_config d) \<noteq> []
      \<longrightarrow> (\<forall>item \<in> set items.
             not_ignored cs (ignoredCollectibles (state c)) item \<and>
             ((\<exists>k \<in> set (collectibleContracts (state c)). cc_address k = cs (a_address item)) \<or>
              (\<exists>i. getCollectibleContractInformation net (cs (a_address item)) = Some i \<and> \<not> falsy (r_image_url i)))
             \<longrightarrow> (\<exists>x \<in> set (collectibles (state after)).
                    c_address x = cs (a_address item) \<and> c_tokenId x = a_token_id item))) \<and>
   (\<forall>x \<in> set (collectibles (state after)).
      x \<notin> set (collectibles (state c))
      \<longrightarrow> (\<exists>item \<in> set items.
             not_ignored cs (ignoredCollectibles (state c)) item \<and>
             x = \<lparr>c_address = cs (a_address item), c_description = a_description item,
               c_image = a_image_original_url item, c_name = a_name item,
               c_tokenId = a_token_id item\<rparr> \<and>
             ((\<exists>k \<in> set (collectibleContracts (state c)). cc_address k = cs (a_address item)) \<or>
              (\<exists>i. getCollectibleContractInformation net (cs (a_address item)) = Some i \<and> \<not> falsy (r_image_url i))))) \<and>
   set (collectibles (state c)) \<subseteq> set (collectibles (state after)) \<and>
   (isMainnet d \<and> d_selectedAddress (d_config d) \<noteq> []
      \<longrightarrow> (\<forall>a. (\<exists>k \<in> set (collectibleContracts (state after)). cc_address k = a) \<longleftrightarrow>
               (\<exists>k \<in> set (collectibleContracts (state c)). cc_address k = a) \<or>
               (\<exists>item \<in> set items. not_ignored cs (ignoredCollectibles (state c)) item \<and> a = cs (a_address item) \<and>
                  (\<exists>i. getCollectibleContractInformation net a = Some i \<and> \<not> falsy (r_image_url i))))) \<and>
   ignoredCollectibles (state after) = ignoredCollectibles (state c) \<and>
   collectibleContracts (state c') =
     (if find (\<lambda>k. cc_address k = cs address) (collectibleContracts (state c)) \<noteq> None
      then collectibleContracts (state c)
      else case getCollectibleContractInformation net (cs address) of
             None \<Rightarrow> collectibleContracts (state c)
           | Some i \<Rightarrow>
               if detection \<and> falsy (r_image_url i) then collectibleContracts (state c)
               else collectibleContracts (state c) @
                      [\<lparr>cc_name = r_name i, cc_logo = r_image_url i, cc_address = cs address,
                        cc_symbol = r_symbol i, cc_description = r_description i,
                        cc_totalSupply = r_total_supply i\<rparr>]) \<and>
   collectibles (state c') =
     (if find (\<lambda>k. cc_address k = cs address) (collectibleContracts (state c')) = None \<or>
         find (\<lambda>x. c_address x = cs address \<and> c_tokenId x = tokenId) (collectibles (state c)) \<noteq> None
      then collectibles (state c)
      else collectibles (state c) @
             [\<lparr>c_address = cs address,
               c_description = i_description
                 (case opts of Some o' \<Rightarrow> o' | None \<Rightarrow> getCollectibleInformation net (cs address) tokenId),
               c_image = i_image
                 (case opts of Some o' \<Rightarrow> o' | None \<Rightarrow> getCollectibleInformation net (cs address) tokenId),
               c_name = i_name
                 (case opts of Some o' \<Rightarrow> o' | None \<Rightarrow> getCollectibleInformation net (cs address) tokenId),
               c_tokenId = tokenId\<rparr>]) \<and>
   (collectibleContracts (state c') \<noteq> collectibleContracts (state c)
      \<longrightarrow> get_slice (allCollectibleContracts (state c')) (config c')
            = Some (collectibleContracts (state c'))) \<and>
   (collectibles (state c') \<noteq> collectibles (state c)
      \<longrightarrow> get_slice (allCollectibles (state c')) (config c') = Some (collectibles (state c'))) \<and>
   ignoredCollectibles (state c') = ignoredCollectibles (state c) \<and>
   (find (\<lambda>k. cc_address k = cs address) (collectibleContracts (state c)) = None
      \<longrightarrow> (find (\<lambda>k. cc_address k = cs address)
              (fst (addCollectibleContract cs net address True c)) \<noteq> None
            \<longleftrightarrow> (\<exists>i. getCollectibleContractInformation net (cs address) = Some i \<and>
                      \<not> falsy (r_image_url i))) \<and>
          (find (\<lambda>k. cc_address k = cs address)
              (fst (addCollectibleContract cs net address False c)) \<noteq> None
            \<longleftrightarrow> getCollectibleContractInformation net (cs address) \<noteq> None) \<and>
          ((\<forall>i. getCollectibleContractInformation net (cs address) = Some i
                  \<longrightarrow> falsy (r_image_url i))
            \<longrightarrow> addCollectible cs net address tokenId opts True c = c)) \<and>
   (find (\<lambda>k. cc_address k = cs address) (collectibleContracts (state c)) \<noteq> None
      \<longrightarrow> collectibleContracts (state c') = collectibleContracts (state c) \<and>
          find (\<lambda>x. c_address x = cs address \<and> c_tokenId x = tokenId)
            (collectibles (state c')) \<noteq> None)"
proof -
  let ?xs = "filter (not_ignored cs (ignoredCollectibles (state c))) items"
  have run: "after = fold (detect_add cs net) ?xs c"
    if "isMainnet d \<and> d_selectedAddress (d_config d) \<noteq> []"
    using that by (simp add: after detectCollectibles_assets)
  have idle: "after = c" if "\<not> (isMainnet d \<and> d_selectedAddress (d_config d) \<noteq> [])"
    using that by (auto simp add: after detectCollectibles_assets)
  note lists = addCollectible_lists[where cs = cs and net = net and address = address
      and tokenId = tokenId and opts = opts and detection = detection and c = c, OF idem,
      folded added]
  have c_ign: "(\<forall>x \<in> set (collectibles (state (detectCollectibles cs net getOwnerCollectibles d c))).
      find (\<lambda>g. c_address g = c_address x \<and> c_tokenId g = c_tokenId x)
        (ignoredCollectibles (state c)) \<noteq> None
      \<longrightarrow> x \<in> set (collectibles (state c)))"
    by (auto intro: detected_not_ignored[OF idem])
  have c_ni: "(not_ignored cs (ignoredCollectibles (state c)) item \<longleftrightarrow>
      find (\<lambda>g. c_address g = cs (a_address item) \<and> c_tokenId g = a_token_id item)
        (ignoredCollectibles (state c)) = None)"
    by (rule not_ignored_iff)
  have c_fold: "(isMainnet d \<and> d_selectedAddress (d_config d) \<noteq> []
      \<longrightarrow> after = fold (\<lambda>item. addCollectible cs net (a_address item) (a_token_id item)
                     (Some \<lparr>i_description = a_description item,
                            i_image = a_image_original_url item, i_name = a_name item\<rparr>) True)
                   (filter (not_ignored cs (ignoredCollectibles (state c))) items) c)"
    using run by (simp add: detect_add_eta)
  have c_idle: "(\<not> (isMainnet d \<and> d_selectedAddress (d_config d) \<noteq> []) \<longrightarrow> after = c)"
    using idle by simp
  have c_fail: "detectCollectibles cs net Fetch_failed d c = c"
    by (simp add: detectCollectibles_def)
  have c_unus: "detectCollectibles cs net Body_unusable d c = c"
    by (simp add: detectCollectibles_def)
  have c_pres: "(isMainnet d \<and> d_selectedAddress (d_config d) \<noteq> []
      \<longrightarrow> (\<forall>item \<in> set items.
             not_ignored cs (ignoredCollectibles (state c)) item \<and>
             ((\<exists>k \<in> set (collectibleContracts (state c)). cc_address k = cs (a_address item)) \<or>
              (\<exists>i. getCollectibleContractInformation net (cs (a_address item)) = Some i \<and> \<not> falsy (r_image_url i)))
             \<longrightarrow> (\<exists>x \<in> set (collectibles (state after)).
                    c_address x = cs (a_address item) \<and> c_tokenId x = a_token_id item)))"
    proof (intro impI ballI)
    fix item
    assume r: "isMainnet d \<and> d_selectedAddress (d_config d) \<noteq> []"
      and i: "item \<in> set items"
      and h: "not_ignored cs (ignoredCollectibles (state c)) item \<and>
             ((\<exists>k \<in> set (collectibleContracts (state c)). cc_address k = cs (a_address item)) \<or>
              (\<exists>i. getCollectibleContractInformation net (cs (a_address item)) = Some i \<and> \<not> falsy (r_image_url i)))"
    from i h have "item \<in> set ?xs"
      by simp
    from fold_detect_add_present[OF idem this conjunct2[OF h]]
    show "\<exists>x \<in> set (collectibles (state after)).
            c_address x = cs (a_address item) \<and> c_tokenId x = a_token_id item"
      by (simp add: run[OF r])
  qed
  have c_new: "(\<forall>x \<in> set (collectibles (state after)).
      x \<notin> set (collectibles (state c))
      \<longrightarrow> (\<exists>item \<in> set items.
             not_ignored cs (ignoredCollectibles (state c)) item \<and>
             x = \<lparr>c_address = cs (a_address item), c_description = a_description item,
               c_image = a_image_original_url item, c_name = a_name item,
               c_tokenId = a_token_id item\<rparr> \<and>
             ((\<exists>k \<in> set (collectibleContracts (state c)). cc_address k = cs (a_address item)) \<or>
              (\<exists>i. getCollectibleContractInformation net (cs (a_address item)) = Some i \<and> \<not> falsy (r_image_url i)))))"
    proof (intro impI ballI)
    fix x
    assume x: "x \<in> set (collectibles (state after))" "x \<notin> set (collectibles (state c))"
    then have r: "isMainnet d \<and> d_selectedAddress (d_config d) \<noteq> []"
      using idle by auto
    from x(1) have "x \<in> set (collectibles (state (fold (detect_add cs net) ?xs c)))"
      by (simp add: run[OF r])
    from fold_detect_add_new[OF idem this x(2)]
    show "\<exists>item \<in> set items.
             not_ignored cs (ignoredCollectibles (state c)) item \<and>
             x = \<lparr>c_address = cs (a_address item), c_description = a_description item,
               c_image = a_image_original_url item, c_name = a_name item,
               c_tokenId = a_token_id item\<rparr> \<and>
             ((\<exists>k \<in> set (collectibleContracts (state c)). cc_address k = cs (a_address item)) \<or>
              (\<exists>i. getCollectibleContractInformation net (cs (a_address item)) = Some i \<and> \<not> falsy (r_image_url i)))"
      by auto
  qed
  have c_mono: "set (collectibles (state c)) \<subseteq> set (collectibles (state after))"
    proof (cases "isMainnet d \<and> d_selectedAddress (d_config d) \<noteq> []")
    case True
    from fold_detect_add_mono[OF idem, of c net ?xs] show ?thesis
      by (simp add: run[OF True])
  next
    case False
    then show ?thesis
      by (simp add: idle)
  qed
  have c_ctr: "(isMainnet d \<and> d_selectedAddress (d_config d) \<noteq> []
      \<longrightarrow> (\<forall>a. (\<exists>k \<in> set (collectibleContracts (state after)). cc_address k = a) \<longleftrightarrow>
               (\<exists>k \<in> set (collectibleContracts (state c)). cc_address k = a) \<or>
               (\<exists>item \<in> set items. not_ignored cs (ignoredCollectibles (state c)) item \<and> a = cs (a_address item) \<and>
                  (\<exists>i. getCollectibleContractInformation net a = Some i \<and> \<not> falsy (r_image_url i)))))"
    proof (intro impI allI)
    fix a
    assume r: "isMainnet d \<and> d_selectedAddress (d_config d) \<noteq> []"
    from fold_detect_add_contracts[OF idem, of net ?xs c a]
    show "(\<exists>k \<in> set (collectibleContracts (state after)). cc_address k = a) \<longleftrightarrow>
               (\<exists>k \<in> set (collectibleContracts (state c)). cc_address k = a) \<or>
               (\<exists>item \<in> set items. not_ignored cs (ignoredCollectibles (state c)) item \<and> a = cs (a_address item) \<and>
                  (\<exists>i. getCollectibleContractInformation net a = Some i \<and> \<not> falsy (r_image_url i)))"
      by (simp only: run[OF r]) auto
  qed
  have c_keep: "ignoredCollectibles (state after) = ignoredCollectibles (state c)"
    using fold_detect_add_fields[of cs net ?xs c] run idle
    by (cases "isMainnet d \<and> d_selectedAddress (d_config d) \<noteq> []") simp_all
  have c_K: "collectibleContracts (state c') =
     (if find (\<lambda>k. cc_address k = cs address) (collectibleContracts (state c)) \<noteq> None
      then collectibleContracts (state c)
      else case getCollectibleContractInformation net (cs address) of
             None \<Rightarrow> collectibleContracts (state c)
           | Some i \<Rightarrow>
               if detection \<and> falsy (r_image_url i) then collectibleContracts (state c)
               else collectibleContracts (state c) @
                      [\<lparr>cc_name = r_name i, cc_logo = r_image_url i, cc_address = cs address,
                        cc_symbol = r_symbol i, cc_description = r_description i,
                        cc_totalSupply = r_total_supply i\<rparr>])"
    by (rule lists(1))
  have c_L: "collectibles (state c') =
     (if find (\<lambda>k. cc_address k = cs address) (collectibleContracts (state c')) = None \<or>
         find (\<lambda>x. c_address x = cs address \<and> c_tokenId x = tokenId) (collectibles (state c)) \<noteq> None
      then collectibles (state c)
      else collectibles (state c) @
             [\<lparr>c_address = cs address,
               c_description = i_description
                 (case opts of Some o' \<Rightarrow> o' | None \<Rightarrow> getCollectibleInformation net (cs address) tokenId),
               c_image = i_image
                 (case opts of Some o' \<Rightarrow> o' | None \<Rightarrow> getCollectibleInformation net (cs address) tokenId),
               c_name = i_name
                 (case opts of Some o' \<Rightarrow> o' | None \<Rightarrow> getCollectibleInformation net (cs address) tokenId),
               c_tokenId = tokenId\<rparr>])"
    using lists(2) by (simp only: lists(1))
  have c_Ks: "(collectibleContracts (state c') \<noteq> collectibleContracts (state c)
      \<longrightarrow> get_slice (allCollectibleContracts (state c')) (config c')
            = Some (collectibleContracts (state c')))"
    using lists(3) by (simp only: lists(1)) blast
  have c_Ls: "(collectibles (state c') \<noteq> collectibles (state c)
      \<longrightarrow> get_slice (allCollectibles (state c')) (config c') = Some (collectibles (state c')))"
    using lists(4) by (simp only: lists(2)) blast
  have c_keep1: "ignoredCollectibles (state c') = ignoredCollectibles (state c)"
    by (simp add: added addCollectible_fields)
  have c_none: "(find (\<lambda>k. cc_address k = cs address) (collectibleContracts (state c)) = None
      \<longrightarrow> (find (\<lambda>k. cc_address k = cs address)
              (fst (addCollectibleContract cs net address True c)) \<noteq> None
            \<longleftrightarrow> (\<exists>i. getCollectibleContractInformation net (cs address) = Some i \<and>
                      \<not> falsy (r_image_url i))) \<and>
          (find (\<lambda>k. cc_address k = cs address)
              (fst (addCollectibleContract cs net address False c)) \<noteq> None
            \<longleftrightarrow> getCollectibleContractInformation net (cs address) \<noteq> None) \<and>
          ((\<forall>i. getCollectibleContractInformation net (cs address) = Some i
                  \<longrightarrow> falsy (r_image_url i))
            \<longrightarrow> addCollectible cs net address tokenId opts True c = c))"
    proof (intro impI conjI)
    assume none: "find (\<lambda>k. cc_address k = cs address) (collectibleContracts (state c)) = None"
    show "find (\<lambda>k. cc_address k = cs address)
              (fst (addCollectibleContract cs net address True c)) \<noteq> None
            \<longleftrightarrow> (\<exists>i. getCollectibleContractInformation net (cs address) = Some i \<and>
                      \<not> falsy (r_image_url i))"
      using none by (auto simp add: addCollectibleContract_new[where cs = cs and a = address, OF none]
          find_None_iff split: option.splits)
    show "find (\<lambda>k. cc_address k = cs address)
              (fst (addCollectibleContract cs net address False c)) \<noteq> None
            \<longleftrightarrow> getCollectibleContractInformation net (cs address) \<noteq> None"
      using none by (auto simp add: addCollectibleContract_new[where cs = cs and a = address, OF none]
          find_None_iff split: option.splits)
    assume "\<forall>i. getCollectibleContractInformation net (cs address) = Some i \<longrightarrow> falsy (r_image_url i)"
    then show "addCollectible cs net address tokenId opts True c = c"
      by (intro addCollectible_refused[where cs = cs and a = address, OF idem none]) simp
  qed
  have c_some: "(find (\<lambda>k. cc_address k = cs address) (collectibleContracts (state c)) \<noteq> None
      \<longrightarrow> collectibleContracts (state c') = collectibleContracts (state c) \<and>
          find (\<lambda>x. c_address x = cs address \<and> c_tokenId x = tokenId)
            (collectibles (state c')) \<noteq> None)"
    proof (intro impI)
    assume some: "find (\<lambda>k. cc_address k = cs address) (collectibleContracts (state c)) \<noteq> None"
    from addCollectible_existing[where cs = cs and a = address, OF idem some, of net tokenId opts detection]
    show "collectibleContracts (state c') = collectibleContracts (state c) \<and>
          find (\<lambda>x. c_address x = cs address \<and> c_tokenId x = tokenId)
            (collectibles (state c')) \<noteq> None"
      by (simp add: added)
  qed
  show ?thesis
    by (intro conjI; fact)
qed

theorem detection_skips_ignored_and_wants_logo_witness:
  "(\<forall>x. checksum_on_vectors (checksum_on_vectors x) = checksum_on_vectors x) \<and>
   isMainnet mainnet_detector \<and> d_selectedAddress (d_config mainnet_detector) \<noteq> [] \<and>
   \<not> not_ignored checksum_on_vectors (ignoredCollectibles (state one_ignored)) item_1 \<and>
   not_ignored checksum_on_vectors (ignoredCollectibles (state one_ignored)) item_7 \<and>
   detectCollectibles checksum_on_vectors with_logo (Assets [item_1, item_7]) mainnet_detector
       one_ignored
     = addCollectible checksum_on_vectors with_logo address_1_lower 7
         (Some \<lparr>i_description = None, i_image = None, i_name = Some ''seven''\<rparr>) True one_ignored \<and>
   collectibleContracts
       (state (detectCollectibles checksum_on_vectors with_logo (Assets [item_1, item_7])
                 mainnet_detector one_ignored))
     = [\<lparr>cc_name = Some ''Contract'', cc_logo = Some ''https://logo'', cc_address = address_1,
         cc_symbol = Some ''CON'', cc_description = None, cc_totalSupply = None\<rparr>] \<and>
   collectibles
       (state (detectCollectibles checksum_on_vectors with_logo (Assets [item_1, item_7])
                 mainnet_detector one_ignored))
     = [\<lparr>c_address = address_1, c_description = None, c_image = None, c_name = Some ''seven'',
         c_tokenId = 7\<rparr>] \<and>
   ignoredCollectibles
       (state (detectCollectibles checksum_on_vectors with_logo (Assets [item_1, item_7])
                 mainnet_detector one_ignored))
     = [collectible_1] \<and>
   getCollectibleContractInformation offline (checksum_on_vectors address_1_lower) = None \<and>
   addCollectible checksum_on_vectors offline address_1_lower 7 None True new_controller
     = new_controller"
proof -
  have idem: "\<forall>x. checksum_on_vectors (checksum_on_vectors x) = checksum_on_vectors x"
    by (simp add: checksum_on_vectors_idem)
  have ign: "\<not> not_ignored checksum_on_vectors (ignoredCollectibles (state one_ignored)) item_1"
    by (simp add: not_ignored_def one_ignored_def new_controller_def defaultState_def
          collectible_1_def item_1_def checksum_on_vectors_simps)
  have free: "not_ignored checksum_on_vectors (ignoredCollectibles (state one_ignored)) item_7"
    by (simp add: not_ignored_def one_ignored_def new_controller_def defaultState_def
          collectible_1_def item_7_def checksum_on_vectors_simps)
  have logo: "getCollectibleContractInformation with_logo x =
                Some \<lparr>r_description = None, r_image_url = Some ''https://logo'',
                      r_name = Some ''Contract'', r_symbol = Some ''CON'',
                      r_total_supply = None\<rparr>" for x
    by (simp add: getCollectibleContractInformation_def with_logo_def offline_def)
  have off: "getCollectibleContractInformation offline x = None" for x
    by (simp add: getCollectibleContractInformation_def
          getCollectibleContractInformationFromContract_def offline_def)
  have start: "collectibleContracts (state one_ignored) = []" "collectibles (state one_ignored) = []"
    "ignoredCollectibles (state one_ignored) = [collectible_1]"
    "collectibleContracts (state new_controller) = []"
    by (simp_all add: one_ignored_def new_controller_def defaultState_def)
  note t = detection_skips_ignored_and_wants_logo[OF idem refl refl,
      where net = with_logo and items = "[item_1, item_7]" and d = mainnet_detector
        and c = one_ignored and address = address_1_lower and tokenId = 7
        and opts = "Some \<lparr>i_description = None, i_image = None, i_name = Some ''seven''\<rparr>"
        and detection = True]
  note u = detection_skips_ignored_and_wants_logo[OF idem refl refl,
      where net = offline and c = new_controller and address = address_1_lower
        and tokenId = 7 and opts = None]
  from t[THEN conjunct2, THEN conjunct2, THEN conjunct1] mainnet_detector_runs ign free
  have pass: "detectCollectibles checksum_on_vectors with_logo (Assets [item_1, item_7])
                mainnet_detector one_ignored
     = addCollectible checksum_on_vectors with_logo address_1_lower 7
         (Some \<lparr>i_description = None, i_image = None, i_name = Some ''seven''\<rparr>) True one_ignored"
    by (simp add: item_7_def)
  from t[THEN conjunct2, THEN conjunct2, THEN conjunct2, THEN conjunct2, THEN conjunct2,
         THEN conjunct2, THEN conjunct2, THEN conjunct2, THEN conjunct2, THEN conjunct2,
         THEN conjunct2, THEN conjunct1]
  have contracts: "collectibleContracts
       (state (addCollectible checksum_on_vectors with_logo address_1_lower 7
         (Some \<lparr>i_description = None, i_image = None, i_name = Some ''seven''\<rparr>) True one_ignored))
     = [\<lparr>cc_name = Some ''Contract'', cc_logo = Some ''https://logo'', cc_address = address_1,
         cc_symbol = Some ''CON'', cc_description = None, cc_totalSupply = None\<rparr>]"
    by (simp add: start logo falsy_def checksum_on_vectors_simps)
  from t[THEN conjunct2, THEN conjunct2, THEN conjunct2, THEN conjunct2, THEN conjunct2,
         THEN conjunct2, THEN conjunct2, THEN conjunct2, THEN conjunct2, THEN conjunct2,
         THEN conjunct2, THEN conjunct2, THEN conjunct1]
  have actives: "collectibles
       (state (addCollectible checksum_on_vectors with_logo address_1_lower 7
         (Some \<lparr>i_description = None, i_image = None, i_name = Some ''seven''\<rparr>) True one_ignored))
     = [\<lparr>c_address = address_1, c_description = None, c_image = None, c_name = Some ''seven'',
         c_tokenId = 7\<rparr>]"
    by (simp add: contracts start checksum_on_vectors_simps)
  from t[THEN conjunct2, THEN conjunct2, THEN conjunct2, THEN conjunct2, THEN conjunct2,
         THEN conjunct2, THEN conjunct2, THEN conjunct2, THEN conjunct2, THEN conjunct2,
         THEN conjunct1]
  have ignored: "ignoredCollectibles
       (state (detectCollectibles checksum_on_vectors with_logo (Assets [item_1, item_7])
                 mainnet_detector one_ignored))
     = [collectible_1]"
    by (simp add: start)
  from u[THEN conjunct2, THEN conjunct2, THEN conjunct2, THEN conjunct2, THEN conjunct2,
         THEN conjunct2, THEN conjunct2, THEN conjunct2, THEN conjunct2, THEN conjunct2,
         THEN conjunct2, THEN conjunct2, THEN conjunct2, THEN conjunct2, THEN conjunct2,
         THEN conjunct2, THEN conjunct1]
  have refused: "addCollectible checksum_on_vectors offline address_1_lower 7 None True
      new_controller = new_controller"
    by (simp add: start off)
  from idem mainnet_detector_runs ign free pass contracts actives ignored off refused
  show ?thesis
    by (simp only: simp_thms)
qed

text \<open>
  Claim C4 as stated fails: with a contract entry already in the list and the
  metadata resolver returning nothing for the contract, a detection pass adds the
  collectible all the same.
\<close>

theorem existing_contract_counterexample:
  "not_ignored checksum_on_vectors (ignoredCollectibles (state contract_only)) item_7 \<and>
   getCollectibleContractInformation offline (checksum_on_vectors (a_address item_7)) = None \<and>
   collectibles (state (detectCollectibles checksum_on_vectors offline (Assets [item_7])
                          mainnet_detector contract_only))
     = [\<lparr>c_address = address_1, c_description = None, c_image = None, c_name = Some ''seven'',
         c_tokenId = 7\<rparr>]"
proof -
  have n: "not_ignored checksum_on_vectors (ignoredCollectibles (state contract_only)) item_7"
    by (simp add: not_ignored_def contract_only_def new_controller_def defaultState_def)
  have o: "getCollectibleContractInformation offline x = None" for x
    by (simp add: getCollectibleContractInformation_def
          getCollectibleContractInformationFromContract_def offline_def)
  have e: "addCollectibleContract checksum_on_vectors offline address_1 True contract_only
             = ([contract_1], contract_only)"
    by (simp add: addCollectibleContract_def Let_def contract_only_def new_controller_def
          defaultState_def contract_1_def checksum_on_vectors_simps)
  have "collectibles (state (addCollectible checksum_on_vectors offline address_1_lower 7
            (Some \<lparr>i_description = None, i_image = None, i_name = Some ''seven''\<rparr>) True contract_only))
          = [\<lparr>c_address = address_1, c_description = None, c_image = None, c_name = Some ''seven'',
         c_tokenId = 7\<rparr>]"
    by (simp add: addCollectible_def Let_def checksum_on_vectors_simps e)
       (simp add: contract_1_def addIndividualCollectible_def Let_def checksum_on_vectors_simps
          contract_only_def new_controller_def defaultState_def)
  then show ?thesis
    using n o by (simp add: detect_single[OF conjunct1[OF mainnet_detector_runs]
          conjunct2[OF mainnet_detector_runs]] item_7_def)
qed

text \<open>
  Claim C5: the claim says that the candidates of token detection are the ERC20
  addresses of the registry minus the addresses the user tracks. Evaluated on a
  registry with one ERC20 address that the user tracks, \<open>tokensToDetect\<close> still
  returns that address: \<open>address in tokensAddresses\<close> asks whether the address names
  a property of an array of tokens, which no address does.
\<close>

theorem tracked_token_is_still_a_candidate:
  "d_tokens (d_config mainnet_detector) = [token_1] \<and>
   t_address token_1 = address_1 \<and>
   map_of sample_registry address_1 = Some \<lparr>m_erc20 = True, m_symbol = ''ONE'', m_decimals = 18\<rparr> \<and>
   tokensToDetect sample_inherited sample_registry mainnet_detector = [address_1]"
proof -
  have "\<forall>key \<in> fst ` set sample_registry. CHR ''x'' \<in> set key \<and> key \<notin> set sample_inherited"
    by (simp add: sample_registry_def sample_inherited_def address_1_def address_2_def)
  from tokensToDetect_keeps_tracked[OF this, of mainnet_detector]
  show ?thesis
    by (simp add: mainnet_detector_def token_1_def sample_registry_def)
qed

section \<open>Properties of the currency rate controller\<close>

text \<open>
  Claim C9. When the fetch of the exchange rate throws, \<open>updateExchangeRate\<close> throws
  with the controller unchanged; the callback of the timer swallows the error, its
  result is \<open>undefined\<close> and the controller, the running timers among it, is
  unchanged; \<open>startPolling\<close> leaves the state as it was and still starts the
  timer; and the tick after a failed one runs as on the controller before it.
\<close>

theorem failed_fetch_leaves_rates_and_polling:
  assumes "fetchExchangeRate
             (or_else (pendingCurrentCurrency (cr_state c)) (currentCurrency (cr_state c)))
             (or_else (pendingNativeCurrency (cr_state c)) (nativeCurrency (cr_state c)))
             (includeUsdRate c) = Inl error"
  shows
  "updateExchangeRate fetchExchangeRate c = (Inl error, c) \<and>
   interval_callback fetchExchangeRate c = (None, c) \<and>
   cr_state (startPolling fetchExchangeRate handle c) = cr_state c \<and>
   intervalId (startPolling fetchExchangeRate handle c) = Some handle \<and>
   handle \<in> set (intervals (startPolling fetchExchangeRate handle c)) \<and>
   interval_callback retry (snd (interval_callback fetchExchangeRate c)) = interval_callback retry c"
proof -
  have u: "updateExchangeRate fetchExchangeRate c = (Inl error, c)"
    using assms by (simp add: updateExchangeRate_def Let_def)
  then have t: "interval_callback fetchExchangeRate c = (None, c)"
    by (simp add: interval_callback_def safelyExecute_def)
  have s: "cr_state (stopPolling c) = cr_state c" "includeUsdRate (stopPolling c) = includeUsdRate c"
    by (simp_all add: stopPolling_def split: option.splits)
  have "updateExchangeRate fetchExchangeRate (stopPolling c) = (Inl error, stopPolling c)"
    using assms by (simp add: updateExchangeRate_def Let_def s)
  then have p: "startPolling fetchExchangeRate handle c =
      (stopPolling c)\<lparr>intervalId := Some handle, intervals := intervals (stopPolling c) @ [handle]\<rparr>"
    by (simp add: startPolling_def safelyExecute_def Let_def)
  show ?thesis
    by (simp add: u t p s)
qed

theorem failed_fetch_leaves_rates_and_polling_witness:
  "failing_fetch (or_else (pendingCurrentCurrency (cr_state idle_rates)) (currentCurrency (cr_state idle_rates)))
     (or_else (pendingNativeCurrency (cr_state idle_rates)) (nativeCurrency (cr_state idle_rates)))
     (includeUsdRate idle_rates) = Inl (Error (Fetch_status ''ETH'')) \<and>
   interval_callback failing_fetch idle_rates = (None, idle_rates) \<and>
   cr_state (startPolling failing_fetch 7 idle_rates) = cr_state idle_rates \<and>
   intervals (startPolling failing_fetch 7 idle_rates) = [7] \<and>
   fst (interval_callback working_fetch (snd (interval_callback failing_fetch idle_rates))) = Some () \<and>
   conversionRate (cr_state (snd (interval_callback working_fetch
                                    (snd (interval_callback failing_fetch idle_rates))))) = 2000 \<and>
   currentCurrency (cr_state (snd (interval_callback working_fetch
                                    (snd (interval_callback failing_fetch idle_rates))))) = ''eur''"
proof -
  have h: "failing_fetch (or_else (pendingCurrentCurrency (cr_state idle_rates)) (currentCurrency (cr_state idle_rates)))
     (or_else (pendingNativeCurrency (cr_state idle_rates)) (nativeCurrency (cr_state idle_rates)))
     (includeUsdRate idle_rates) = Inl (Error (Fetch_status ''ETH''))"
    by (simp add: failing_fetch_def idle_rates_def or_else_def)
  have w: "interval_callback working_fetch idle_rates =
      (Some (), idle_rates\<lparr>cr_state :=
         \<lparr>conversionDate = 1600000000, conversionRate = 2000, currentCurrency = ''eur'',
          nativeCurrency = ''ETH'', pendingCurrentCurrency = None, pendingNativeCurrency = None,
          usdConversionRate = Some 2100\<rparr>\<rparr>)"
    by (simp add: interval_callback_def safelyExecute_def updateExchangeRate_def working_fetch_def
          idle_rates_def or_else_def Let_def)
  have i: "intervals (startPolling failing_fetch 7 idle_rates) = [7]"
    by (simp add: startPolling_def stopPolling_def idle_rates_def Let_def safelyExecute_def
          updateExchangeRate_def failing_fetch_def)
  from failed_fetch_leaves_rates_and_polling[where fetchExchangeRate = failing_fetch
      and c = idle_rates and handle = 7 and retry = working_fetch, OF h] h
  show ?thesis
    by (simp add: w i)
qed

end
